(* ===== verification/Prelude.thy ===== *)
theory Prelude
  imports Main "HOL-Library.Word" "HOL-Library.List_Lexorder" "HOL-Library.Char_ord"
begin

text \<open>
  What the components share: the ways a C++ operation can go wrong, results that may be such a
  failure, failing loops over a list, and a few list facts.  The C++ programs have no recoverable
  errors of their own: an operation either returns or runs into one of the failures below
  (undefined behaviour, an uncaught exception or a call of \<open>exit\<close>), after which nothing more of
  that process is described.
\<close>

named_theorems frame_simps \<open>which parts of the state an operation leaves alone\<close>
named_theorems result_simps \<open>unfolding of results and failing loops\<close>

subsection \<open>Failures and results\<close>

datatype failure =
    Null_Deref          \<comment> \<open>a null \<open>UserInfo*\<close> or a null \<open>char*\<close> is dereferenced\<close>
  | Out_Of_Bounds       \<comment> \<open>an array or vector is indexed outside its range\<close>
  | Buffer_Overflow     \<comment> \<open>an unbounded copy writes past the end of a buffer\<close>
  | Uninitialised       \<comment> \<open>an uninitialised variable is read\<close>
  | Bad_Cast            \<comment> \<open>\<open>dynamic_cast\<close> to a reference throws \<open>std::bad_cast\<close>\<close>
  | Invalid_Argument    \<comment> \<open>\<open>std::invalid_argument\<close> or \<open>std::out_of_range\<close> is thrown\<close>
  | Exit_Failure        \<comment> \<open>\<open>exit(EXIT_FAILURE)\<close>\<close>
  | Blocked             \<comment> \<open>the process waits for something that never comes\<close>

type_synonym 'a result = "failure + 'a"

definition rbind :: "'a result \<Rightarrow> ('a \<Rightarrow> 'b result) \<Rightarrow> 'b result" where
  "rbind r f = (case r of Inl e \<Rightarrow> Inl e | Inr x \<Rightarrow> f x)"

lemma rbind_Inl [simp, result_simps]: "rbind (Inl e) f = Inl e"
  by (simp add: rbind_def)

lemma rbind_Inr [simp, result_simps]: "rbind (Inr x) f = f x"
  by (simp add: rbind_def)

lemma rbind_eq_Inr_iff: "rbind r f = Inr y \<longleftrightarrow> (\<exists>x. r = Inr x \<and> f x = Inr y)"
  by (cases r) (auto simp: rbind_def)

lemma rbind_InrE [elim]:
  assumes "rbind r f = Inr y"
  obtains x where "r = Inr x" and "f x = Inr y"
  using assms by (auto simp: rbind_eq_Inr_iff)

lemma rbind_cong [fundef_cong]:
  assumes "r = r'" and "\<And>x. r' = Inr x \<Longrightarrow> f x = g x"
  shows "rbind r f = rbind r' g"
  using assms by (cases r') (auto simp: rbind_def)

fun rfold :: "('x \<Rightarrow> 's \<Rightarrow> 's result) \<Rightarrow> 'x list \<Rightarrow> 's \<Rightarrow> 's result" where
  "rfold f [] s = Inr s"
| "rfold f (x # xs) s = rbind (f x s) (rfold f xs)"

lemma rfold_invariant:
  assumes "rfold f xs s = Inr s'" and "P s"
    and "\<And>x s s'. x \<in> set xs \<Longrightarrow> P s \<Longrightarrow> f x s = Inr s' \<Longrightarrow> P s'"
  shows "P s'"
  using assms
proof (induction xs arbitrary: s)
  case Nil
  then show ?case by simp
next
  case (Cons x xs)
  from Cons.prems(1) obtain s1 where s1: "f x s = Inr s1" and rest: "rfold f xs s1 = Inr s'"
    by auto
  from Cons.prems(2,3) s1 have "P s1" by (meson list.set_intros(1))
  with rest Cons.prems(3) show ?case by (intro Cons.IH) (auto intro: Cons.prems(3))
qed

lemma rfold_append: "rfold f (xs @ ys) s = rbind (rfold f xs s) (rfold f ys)"
proof (induction xs arbitrary: s)
  case (Cons x xs)
  then show ?case by (cases "f x s") simp_all
qed simp

lemma rfold_total: "(\<And>x s. x \<in> set xs \<Longrightarrow> f x s = Inr (g x s)) \<Longrightarrow> rfold f xs s = Inr (fold g xs s)"
  by (induction xs arbitrary: s) auto

subsection \<open>Lists\<close>

lemma takeWhile_append_stop:
  "(\<And>x. x \<in> set xs \<Longrightarrow> P x) \<Longrightarrow> (ys = [] \<or> \<not> P (hd ys)) \<Longrightarrow> takeWhile P (xs @ ys) = xs"
  by (induction xs) (cases ys; auto)+

lemma dropWhile_append_stop:
  "(\<And>x. x \<in> set xs \<Longrightarrow> P x) \<Longrightarrow> (ys = [] \<or> \<not> P (hd ys)) \<Longrightarrow> dropWhile P (xs @ ys) = ys"
  by (induction xs) (cases ys; auto)+

lemma dropWhile_stop: "(xs = [] \<or> \<not> P (hd xs)) \<Longrightarrow> dropWhile P xs = xs"
  by (cases xs) auto

lemma takeWhile_id: "(\<And>x. x \<in> set xs \<Longrightarrow> P x) \<Longrightarrow> takeWhile P xs = xs"
  by (simp add: takeWhile_eq_all_conv)

lemma length_dropWhile_less: "xs \<noteq> [] \<Longrightarrow> P (hd xs) \<Longrightarrow> length (dropWhile P xs) < length xs"
  by (cases xs) (auto simp: length_dropWhile_le le_imp_less_Suc)

end
