(* ===== verification/Std_Map.thy ===== *)
theory Std_Map
  imports Prelude
begin

text \<open>
  The part of \<open>std::map\<close> the programs use: lookup (\<open>find\<close>), insertion through \<open>operator[]\<close>,
  \<open>erase\<close> and iteration in ascending key order.  A map is the list of its entries sorted by key,
  which is the order in which a range-based \<open>for\<close> visits them.  The interface is the locale
  \<open>ordered_map\<close>; what the chat server needs from it (in particular the smallest free key) is
  proved inside the locale and reached through its interpretation \<open>smap\<close>.
\<close>

subsection \<open>The interface\<close>

locale ordered_map =
  fixes lookup :: "'m \<Rightarrow> 'k::linorder \<Rightarrow> 'v option"
    and put :: "'k \<Rightarrow> 'v \<Rightarrow> 'm \<Rightarrow> 'm"
    and del :: "'k \<Rightarrow> 'm \<Rightarrow> 'm"
    and ents :: "'m \<Rightarrow> ('k \<times> 'v) list"
    and invar :: "'m \<Rightarrow> bool"
  assumes lookup_put: "lookup (put k v m) = (lookup m)(k \<mapsto> v)"
    and lookup_del: "lookup (del k m) = (lookup m)(k := None)"
    and lookup_ents: "invar m \<Longrightarrow> lookup m k = Some v \<longleftrightarrow> (k, v) \<in> set (ents m)"
    and ents_sorted: "invar m \<Longrightarrow> sorted_wrt (<) (map fst (ents m))"
    and invar_put: "invar m \<Longrightarrow> invar (put k v m)"
    and invar_del: "invar m \<Longrightarrow> invar (del k m)"
begin

lemma lookup_None_iff: "invar m \<Longrightarrow> lookup m k = None \<longleftrightarrow> k \<notin> fst ` set (ents m)"
  using lookup_ents [of m k] by (cases "lookup m k") force+

lemma distinct_keys: "invar m \<Longrightarrow> distinct (map fst (ents m))"
  using ents_sorted strict_sorted_iff by blast

lemma finite_dom: "invar m \<Longrightarrow> finite (dom (lookup m))"
proof -
  assume "invar m"
  then have "dom (lookup m) = fst ` set (ents m)"
    using lookup_None_iff by (auto simp: dom_def)
  then show ?thesis by simp
qed

end

subsection \<open>The model: entries sorted by key\<close>

type_synonym ('k, 'v) smap = "('k \<times> 'v) list"

definition smap_ok :: "('k::linorder, 'v) smap \<Rightarrow> bool" where
  "smap_ok m \<longleftrightarrow> sorted_wrt (<) (map fst m)"

definition sm_find :: "('k, 'v) smap \<Rightarrow> 'k \<Rightarrow> 'v option" where
  "sm_find m = map_of m"

fun sm_put :: "'k::linorder \<Rightarrow> 'v \<Rightarrow> ('k, 'v) smap \<Rightarrow> ('k, 'v) smap" where
  "sm_put k v [] = [(k, v)]"
| "sm_put k v ((k', v') # m) =
     (if k < k' then (k, v) # (k', v') # m
      else if k = k' then (k, v) # m
      else (k', v') # sm_put k v m)"

definition sm_erase :: "'k \<Rightarrow> ('k, 'v) smap \<Rightarrow> ('k, 'v) smap" where
  "sm_erase k m = filter (\<lambda>e. fst e \<noteq> k) m"

text \<open>\<open>operator[]\<close>: the value at the key, after inserting the default value if there is none.\<close>

definition sm_index :: "'v \<Rightarrow> ('k::linorder, 'v) smap \<Rightarrow> 'k \<Rightarrow> 'v \<times> ('k, 'v) smap" where
  "sm_index d m k = (case sm_find m k of None \<Rightarrow> (d, sm_put k d m) | Some v \<Rightarrow> (v, m))"

lemma sm_find_Nil [simp]: "sm_find [] k = None"
  by (simp add: sm_find_def)

lemma sm_find_Cons [simp]: "sm_find ((k', v) # m) k = (if k = k' then Some v else sm_find m k)"
  by (auto simp: sm_find_def)

lemma sm_find_put [simp]: "sm_find (sm_put k v m) = (sm_find m)(k \<mapsto> v)"
  by (induction k v m rule: sm_put.induct) (auto simp: fun_eq_iff)

lemma sm_find_erase [simp]: "sm_find (sm_erase k m) = (sm_find m)(k := None)"
  by (induction m) (auto simp: sm_erase_def fun_eq_iff)

lemma set_keys_put: "fst ` set (sm_put k v m) = insert k (fst ` set m)"
  by (induction k v m rule: sm_put.induct) auto

lemma smap_ok_Nil [simp, intro]: "smap_ok []"
  by (simp add: smap_ok_def)

lemma smap_ok_Cons: "smap_ok (e # m) \<longleftrightarrow> (\<forall>k \<in> fst ` set m. fst e < k) \<and> smap_ok m"
  by (auto simp: smap_ok_def)

lemma smap_ok_put [simp, intro]: "smap_ok m \<Longrightarrow> smap_ok (sm_put k v m)"
  by (induction k v m rule: sm_put.induct) (auto simp: smap_ok_Cons set_keys_put)

lemma smap_ok_erase [simp, intro]: "smap_ok m \<Longrightarrow> smap_ok (sm_erase k m)"
  by (induction m) (auto simp: smap_ok_Cons sm_erase_def)

lemma sm_find_iff: "smap_ok m \<Longrightarrow> sm_find m k = Some v \<longleftrightarrow> (k, v) \<in> set m"
  by (induction m) (force simp: smap_ok_Cons)+

interpretation smap: ordered_map sm_find sm_put sm_erase "\<lambda>m. m" smap_ok
  by unfold_locales (auto simp: sm_find_iff smap_ok_def [symmetric])

lemma sm_index_fst [simp]: "fst (sm_index d m k) = (case sm_find m k of None \<Rightarrow> d | Some v \<Rightarrow> v)"
  by (simp add: sm_index_def split: option.splits)

lemma sm_index_hit: "sm_find m k = Some v \<Longrightarrow> sm_index d m k = (v, m)"
  by (simp add: sm_index_def)

lemma set_put_subset: "set (sm_put k v m) \<subseteq> insert (k, v) (set m)"
  by (induction k v m rule: sm_put.induct) auto

end
