(* ===== verification/Ring_Buffer.thy ===== *)
theory Ring_Buffer
  imports Prelude
begin

text \<open>
  \<open>npshell::circular_buffer\<close> of \<open>shell/util.hpp\<close>: a head index of type \<open>size_t\<close> and an array of
  \<open>CIRCULAR_BUFFER_SIZE\<close> cells, addressed relative to the head.  The shell keeps its numbered pipes
  in one: cell \<open>n\<close> holds the pipe for the \<open>n\<close>-th command line from now.  The interface is the locale
  \<open>delay_line\<close>; the delivery lemma (what is stored \<open>n\<close> cells ahead is at the front after \<open>n\<close>
  steps) is proved there and holds for the code through the interpretation \<open>ring\<close>.
\<close>

subsection \<open>The interface: cells addressed relative to a moving head\<close>

locale delay_line =
  fixes at :: "'b \<Rightarrow> int \<Rightarrow> 'a"
    and store :: "'b \<Rightarrow> int \<Rightarrow> 'a \<Rightarrow> 'b"
    and advance :: "'b \<Rightarrow> 'b"
    and period :: int
  assumes at_store: "at (store b n x) m = (if n mod period = m mod period then x else at b m)"
    and at_advance: "at (advance b) n = at b (n + 1)"
    and at_period: "at b n = at b (n mod period)"
begin

lemma at_advance_funpow: "at ((advance ^^ k) b) n = at b (n + int k)"
  by (induction k arbitrary: n) (auto simp: at_advance add.assoc)

lemma delivered: "at ((advance ^^ k) (store b (int k) x)) 0 = x"
  by (simp add: at_advance_funpow at_store)

lemma store_elsewhere:
  assumes "0 \<le> n" and "n < period" and "0 \<le> m" and "m < period" and "n \<noteq> m"
  shows "at (store b n x) m = at b m"
  using assms by (simp add: at_store)

lemma store_same: "at (store b n x) n = x"
  by (simp add: at_store)

text \<open>Nothing clears a cell when the head passes it: a full turn later it is at the front again.\<close>

lemma full_turn: "0 < period \<Longrightarrow> at ((advance ^^ nat period) b) 0 = at b 0"
proof -
  assume "0 < period"
  then have "at ((advance ^^ nat period) b) 0 = at b period"
    by (simp add: at_advance_funpow)
  also have "\<dots> = at b 0" by (subst at_period) simp
  finally show ?thesis .
qed

end

subsection \<open>The class\<close>

definition CIRCULAR_BUFFER_SIZE :: "64 word" where "CIRCULAR_BUFFER_SIZE = 1024"

record 'a ring =
  head :: "64 word"
  cells :: "nat \<Rightarrow> 'a"

definition cell_index :: "'a ring \<Rightarrow> 64 word \<Rightarrow> nat" where
  "cell_index b n = unat ((head b + n) mod CIRCULAR_BUFFER_SIZE)"

definition ring_new :: "'a \<Rightarrow> 'a ring" where
  "ring_new d = \<lparr>head = 0, cells = (\<lambda>_. d)\<rparr>"

definition ring_set :: "64 word \<Rightarrow> 'a \<Rightarrow> 'a ring \<Rightarrow> 'a ring" where
  "ring_set n item b = b\<lparr>cells := (cells b)(cell_index b n := item)\<rparr>"

definition ring_get :: "64 word \<Rightarrow> 'a ring \<Rightarrow> 'a" where
  "ring_get n b = cells b (cell_index b n)"

definition ring_front :: "'a ring \<Rightarrow> 'a" where
  "ring_front b = cells b (unat (head b mod CIRCULAR_BUFFER_SIZE))"

definition ring_next :: "'a ring \<Rightarrow> 'a ring" where
  "ring_next b = b\<lparr>head := (head b + 1) mod CIRCULAR_BUFFER_SIZE\<rparr>"

text \<open>An \<open>int\<close> passed for the \<open>size_t\<close> parameter is converted modulo \<open>2^64\<close>.\<close>

definition size_t :: "int \<Rightarrow> 64 word" where
  "size_t i = word_of_int i"

lemma cell_index_int: "int (cell_index b (size_t n)) = (uint (head b) + n) mod 1024"
proof -
  have "uint (head b + size_t n) mod 1024 = (uint (head b) + n) mod 1024"
    by (simp add: size_t_def uint_word_ariths(1) uint_word_of_int mod_mod_cancel mod_simps)
  then show ?thesis
    by (simp add: cell_index_def CIRCULAR_BUFFER_SIZE_def unat_mod_distrib of_nat_mod)
qed

lemma cell_index_less: "cell_index b n < 1024"
proof -
  have "unat (head b + n) mod 1024 < 1024" by simp
  then show ?thesis by (simp add: cell_index_def CIRCULAR_BUFFER_SIZE_def unat_mod_distrib)
qed

lemma ring_front_get: "ring_front b = ring_get (size_t 0) b"
  by (simp add: ring_front_def ring_get_def cell_index_def size_t_def)

lemma cell_index_eq_iff: "cell_index b (size_t n) = cell_index b (size_t m) \<longleftrightarrow> n mod 1024 = m mod 1024"
proof -
  have "cell_index b (size_t n) = cell_index b (size_t m) \<longleftrightarrow>
      (uint (head b) + n) mod 1024 = (uint (head b) + m) mod 1024"
    by (simp flip: cell_index_int)
  also have "\<dots> \<longleftrightarrow> n mod 1024 = m mod 1024"
    by (simp add: mod_eq_dvd_iff)
  finally show ?thesis .
qed

lemma cell_index_next: "cell_index (ring_next b) (size_t n) = cell_index b (size_t (n + 1))"
proof -
  have "uint ((head b + 1) mod 1024) = (uint (head b) + 1) mod 2 ^ 64 mod 1024"
    by (simp add: uint_mod_distrib uint_word_ariths(1))
  also have "\<dots> = (uint (head b) + 1) mod 1024"
    by (simp add: mod_mod_cancel)
  finally have "int (cell_index (ring_next b) (size_t n)) = ((uint (head b) + 1) mod 1024 + n) mod 1024"
    unfolding cell_index_int by (simp add: ring_next_def CIRCULAR_BUFFER_SIZE_def)
  also have "\<dots> = int (cell_index b (size_t (n + 1)))"
    unfolding cell_index_int by (simp add: mod_simps algebra_simps)
  finally show ?thesis by simp
qed

interpretation ring: delay_line "\<lambda>b n. ring_get (size_t n) b" "\<lambda>b n x. ring_set (size_t n) x b"
  ring_next 1024
proof unfold_locales
  fix b :: "'a ring" and n m :: int and x :: 'a
  have "cell_index (ring_set (size_t n) x b) (size_t m) = cell_index b (size_t m)"
    by (simp add: cell_index_def ring_set_def)
  then show "ring_get (size_t m) (ring_set (size_t n) x b) =
      (if n mod 1024 = m mod 1024 then x else ring_get (size_t m) b)"
    by (auto simp: ring_get_def ring_set_def cell_index_eq_iff)
  show "ring_get (size_t n) (ring_next b) = ring_get (size_t (n + 1)) b"
    by (simp add: ring_get_def cell_index_next) (simp add: ring_next_def)
  have "cell_index b (size_t n) = cell_index b (size_t (n mod 1024))"
    by (simp add: cell_index_eq_iff)
  then show "ring_get (size_t n) b = ring_get (size_t (n mod 1024)) b"
    by (simp add: ring_get_def)
qed

end
