(* ===== verification/Std_Text.thy ===== *)
theory Std_Text
  imports Prelude
begin

text \<open>
  The text side of the C and C++ standard library as the programs use it: character classes of the
  \<open>"C"\<close> locale, \<open>std::to_string\<close>, \<open>atoi\<close>, C strings and \<open>snprintf\<close> into a fixed buffer, and
  \<open>std::istringstream\<close> with \<open>operator>>\<close> for words and \<open>int\<close> and with
  \<open>std::getline(iss >> std::ws, s)\<close>.
\<close>

subsection \<open>Characters\<close>

definition code :: "char \<Rightarrow> nat" where
  "code c = of_char c"

definition isspace :: "char \<Rightarrow> bool" where
  "isspace c \<longleftrightarrow> code c = 32 \<or> (9 \<le> code c \<and> code c \<le> 13)"

definition isdigit :: "char \<Rightarrow> bool" where
  "isdigit c \<longleftrightarrow> 48 \<le> code c \<and> code c \<le> 57"

definition isalpha :: "char \<Rightarrow> bool" where
  "isalpha c \<longleftrightarrow> (65 \<le> code c \<and> code c \<le> 90) \<or> (97 \<le> code c \<and> code c \<le> 122)"

definition isalnum :: "char \<Rightarrow> bool" where
  "isalnum c \<longleftrightarrow> isalpha c \<or> isdigit c"

definition nul :: char where "nul = CHR 0x00"
definition newline :: char where "newline = CHR 0x0A"

lemma code_less [simp]: "code c < 256"
  using nat_of_char_less_256 [of c] by (simp add: code_def)

lemma code_inject [simp]: "code c = code d \<longleftrightarrow> c = d"
  by (simp add: code_def of_char_eq_iff)

lemma code_char_of: "n < 256 \<Longrightarrow> code (char_of n) = n"
  by (simp add: code_def of_char_of)

subsection \<open>Decimal numbers\<close>

definition digit_val :: "char \<Rightarrow> nat" where
  "digit_val c = code c - 48"

definition digit_char :: "nat \<Rightarrow> char" where
  "digit_char d = char_of (48 + d)"

definition dec_val :: "string \<Rightarrow> nat" where
  "dec_val ds = foldl (\<lambda>n c. 10 * n + digit_val c) 0 ds"

fun nat_text :: "nat \<Rightarrow> string" where
  "nat_text n = (if n < 10 then [digit_char n] else nat_text (n div 10) @ [digit_char (n mod 10)])"

declare nat_text.simps [simp del]

definition to_string :: "int \<Rightarrow> string" where
  "to_string i = (if i < 0 then CHR ''-'' # nat_text (nat (- i)) else nat_text (nat i))"

lemma code_digit_char: "d < 10 \<Longrightarrow> code (digit_char d) = 48 + d"
  by (simp add: digit_char_def code_char_of)

lemma digit_val_char [simp]: "d < 10 \<Longrightarrow> digit_val (digit_char d) = d"
  by (simp add: digit_val_def code_digit_char)

lemma isdigit_digit_char [simp]: "d < 10 \<Longrightarrow> isdigit (digit_char d)"
  by (simp add: isdigit_def code_digit_char)

lemma isdigit_not_space: "isdigit c \<Longrightarrow> \<not> isspace c"
  by (auto simp: isdigit_def isspace_def)

lemma nat_text_0: "nat_text 0 = ''0''"
  by code_simp

lemma nat_text_not_Nil [simp]: "nat_text n \<noteq> []"
  by (subst nat_text.simps) simp

lemma nat_text_digits: "c \<in> set (nat_text n) \<Longrightarrow> isdigit c"
proof (induction n rule: nat_text.induct)
  case (1 n)
  show ?case
  proof (cases "n < 10")
    case True
    with "1.prems" show ?thesis by (simp add: nat_text.simps [of n])
  next
    case False
    then have "c \<in> set (nat_text (n div 10)) \<or> c = digit_char (n mod 10)"
      using "1.prems" by (auto simp: nat_text.simps [of n])
    with False "1.IH" show ?thesis by auto
  qed
qed

lemma dec_val_snoc [simp]: "dec_val (ds @ [c]) = 10 * dec_val ds + digit_val c"
  by (simp add: dec_val_def)

lemma dec_val_Nil [simp]: "dec_val [] = 0"
  by (simp add: dec_val_def)

lemma dec_val_nat_text [simp]: "dec_val (nat_text n) = n"
proof (induction n rule: nat_text.induct)
  case (1 n)
  show ?case
  proof (cases "n < 10")
    case True
    then show ?thesis by (subst nat_text.simps) (simp add: dec_val_def)
  next
    case False
    with "1" show ?thesis by (subst nat_text.simps) simp
  qed
qed

lemma nat_text_inject [simp]: "nat_text m = nat_text n \<longleftrightarrow> m = n"
  by (metis dec_val_nat_text)

lemma nat_text_hd_digit: "isdigit (hd (nat_text n))"
  by (meson hd_in_set nat_text_digits nat_text_not_Nil)

lemma to_string_inject [simp]: "to_string i = to_string j \<longleftrightarrow> i = j"
proof -
  have minus: "isdigit (CHR ''-'') = False" by (simp add: isdigit_def code_def)
  have "CHR ''-'' # xs \<noteq> nat_text n" for xs n
    using nat_text_hd_digit [of n] minus by (metis list.sel(1))
  then show ?thesis
    by (auto simp: to_string_def dest: sym)
qed

subsection \<open>\<open>atoi\<close>\<close>

text \<open>
  \<open>atoi(s)\<close> of glibc is \<open>(int) strtol(s, nullptr, 10)\<close>: leading white space, an optional sign and
  the digits after it, the value clamped to \<open>long\<close> and then cut to 32 bits; no digits give 0.
\<close>

definition long_max :: int where "long_max = 2 ^ 63 - 1"
definition long_min :: int where "long_min = - (2 ^ 63)"
definition int_max :: int where "int_max = 2 ^ 31 - 1"
definition int_min :: int where "int_min = - (2 ^ 31)"

definition clamp :: "int \<Rightarrow> int \<Rightarrow> int \<Rightarrow> int" where
  "clamp lo hi x = max lo (min hi x)"

definition split_sign :: "string \<Rightarrow> int \<times> string" where
  "split_sign s = (case s of
       [] \<Rightarrow> (1, [])
     | c # r \<Rightarrow> if c = CHR ''-'' then (-1, r) else if c = CHR ''+'' then (1, r) else (1, s))"

definition strtol :: "string \<Rightarrow> int" where
  "strtol s = (let (sg, r) = split_sign (dropWhile isspace s)
               in clamp long_min long_max (sg * int (dec_val (takeWhile isdigit r))))"

definition atoi :: "string \<Rightarrow> int" where
  "atoi s = signed_take_bit 31 (strtol s)"

lemma split_sign_digit: "s \<noteq> [] \<Longrightarrow> isdigit (hd s) \<Longrightarrow> split_sign s = (1, s)"
  by (cases s) (auto simp: split_sign_def isdigit_def code_def)

lemma signed_take_bit_31_id: "int_min \<le> x \<Longrightarrow> x \<le> int_max \<Longrightarrow> signed_take_bit 31 x = x"
  by (rule signed_take_bit_int_eq_self) (auto simp: int_min_def int_max_def)

lemma split_sign_nat_text [simp]: "split_sign (nat_text n) = (1, nat_text n)"
  by (simp add: split_sign_digit nat_text_hd_digit)

lemma takeWhile_nat_text [simp]: "takeWhile isdigit (nat_text n) = nat_text n"
  by (rule takeWhile_id) (rule nat_text_digits)

lemma dropWhile_nat_text [simp]: "dropWhile isspace (nat_text n) = nat_text n"
  by (rule dropWhile_stop) (simp add: isdigit_not_space nat_text_hd_digit)

lemma strtol_nat_text: "int n \<le> long_max \<Longrightarrow> strtol (nat_text n) = int n"
  by (simp add: strtol_def clamp_def long_min_def)

lemma atoi_nat_text: "int n \<le> int_max \<Longrightarrow> atoi (nat_text n) = int n"
  by (simp add: atoi_def strtol_nat_text signed_take_bit_31_id int_min_def int_max_def long_max_def)

lemma atoi_range: "int_min \<le> atoi s \<and> atoi s \<le> int_max"
  using signed_take_bit_int_greater_eq_minus_exp [of 31 "strtol s"]
    signed_take_bit_int_less_exp [of 31 "strtol s"]
  by (simp add: atoi_def int_min_def int_max_def)

end
