(* ===== verification/Std_Stream.thy ===== *)
theory Std_Stream
  imports Std_Text
begin

text \<open>
  \<open>std::istringstream\<close>: the characters not yet read and the fail flag.  Extraction first skips
  white space; when nothing is left, or the stream has failed before, the extraction fails and the
  target is left as it was.  An \<open>int\<close> is read with libstdc++'s rules: an optional sign and decimal
  digits; no digit stores 0 and a value outside \<open>int\<close> stores the nearest bound, both with the fail
  flag set.  C strings (\<open>c_str\<close>, \<open>snprintf\<close>, \<open>strcpy\<close>) end at the first NUL.
\<close>

record istream =
  unread :: string
  failed :: bool

definition istringstream :: "string \<Rightarrow> istream" where
  "istringstream s = \<lparr>unread = s, failed = False\<rparr>"

definition at_end :: istream where
  "at_end = \<lparr>unread = [], failed = True\<rparr>"

subsection \<open>Extraction\<close>

text \<open>\<open>iss >> word\<close>\<close>

definition get_word :: "istream \<Rightarrow> string option \<times> istream" where
  "get_word st =
     (if failed st then (None, st)
      else let r = dropWhile isspace (unread st)
           in if r = [] then (None, at_end)
              else (Some (takeWhile (\<lambda>c. \<not> isspace c) r),
                    st\<lparr>unread := dropWhile (\<lambda>c. \<not> isspace c) r\<rparr>))"

text \<open>A \<open>std::string\<close> that was empty before the extraction.\<close>

definition get_word_or_empty :: "istream \<Rightarrow> string \<times> istream" where
  "get_word_or_empty st = (case get_word st of (None, st') \<Rightarrow> ([], st') | (Some w, st') \<Rightarrow> (w, st'))"

text \<open>\<open>iss >> i\<close> for an \<open>int\<close>; \<open>None\<close> means that \<open>i\<close> was not written at all.\<close>

definition get_int :: "istream \<Rightarrow> int option \<times> istream" where
  "get_int st =
     (if failed st then (None, st)
      else let r = dropWhile isspace (unread st)
           in if r = [] then (None, at_end)
              else let (sg, r') = split_sign r; ds = takeWhile isdigit r';
                       v = sg * int (dec_val ds)
                   in if ds = [] then (Some 0, st\<lparr>unread := r', failed := True\<rparr>)
                      else if v < int_min \<or> int_max < v
                           then (Some (clamp int_min int_max v),
                                 st\<lparr>unread := dropWhile isdigit r', failed := True\<rparr>)
                           else (Some v, st\<lparr>unread := dropWhile isdigit r'\<rparr>))"

text \<open>\<open>std::getline(iss >> std::ws, s)\<close> with \<open>s\<close> empty before.\<close>

definition get_rest_line :: "istream \<Rightarrow> string \<times> istream" where
  "get_rest_line st =
     (if failed st then ([], st)
      else let r = dropWhile isspace (unread st)
           in if r = [] then ([], at_end)
              else (takeWhile (\<lambda>c. c \<noteq> newline) r,
                    st\<lparr>unread := drop 1 (dropWhile (\<lambda>c. c \<noteq> newline) r)\<rparr>))"

subsection \<open>C strings\<close>

definition c_str :: "string \<Rightarrow> string" where
  "c_str s = takeWhile (\<lambda>c. c \<noteq> nul) s"

text \<open>\<open>snprintf(buf, n, "%s", s)\<close>: what \<open>buf\<close> holds afterwards, up to its NUL.\<close>

definition snprintf_s :: "nat \<Rightarrow> string \<Rightarrow> string" where
  "snprintf_s n s = take (n - 1) (c_str s)"

text \<open>\<open>strcpy\<close> into a buffer of \<open>n\<close> bytes.\<close>

definition strcpy_into :: "nat \<Rightarrow> string \<Rightarrow> string result" where
  "strcpy_into n s = (if length (c_str s) < n then Inr (c_str s) else Inl Buffer_Overflow)"

subsection \<open>What extraction leaves\<close>

lemma get_word_Some:
  assumes "get_word st = (Some w, st')"
  shows "length (unread st') < length (unread st)" and "w \<noteq> []"
    and "\<And>c. c \<in> set w \<Longrightarrow> \<not> isspace c"
proof -
  let ?r = "dropWhile isspace (unread st)"
  have r: "?r \<noteq> []" "w = takeWhile (\<lambda>c. \<not> isspace c) ?r"
    "unread st' = dropWhile (\<lambda>c. \<not> isspace c) ?r"
    using assms by (auto simp: get_word_def Let_def split: if_splits)
  have "length (dropWhile (\<lambda>c. \<not> isspace c) ?r) < length ?r"
    using r(1) hd_dropWhile [OF r(1)] by (intro length_dropWhile_less) auto
  also have "\<dots> \<le> length (unread st)" by (rule length_dropWhile_le)
  finally show "length (unread st') < length (unread st)" by (simp add: r(3))
  show "w \<noteq> []"
    using r hd_dropWhile [OF r(1)] by (cases ?r) auto
  show "\<And>c. c \<in> set w \<Longrightarrow> \<not> isspace c"
    using r(2) set_takeWhileD by fast
qed

lemma length_unread_word: "length (unread (snd (get_word st))) \<le> length (unread st)"
proof (cases "get_word st")
  case (Pair o' st')
  then show ?thesis
    using get_word_Some(1) [of st _ st']
    by (cases o') (auto simp: get_word_def Let_def at_end_def less_imp_le split: if_splits)
qed

lemma length_unread_word_or_empty: "length (unread (snd (get_word_or_empty st))) \<le> length (unread st)"
  using length_unread_word [of st]
  by (auto simp: get_word_or_empty_def split: prod.splits option.splits)

lemma length_split_sign: "length (snd (split_sign s)) \<le> length s"
  by (cases s) (auto simp: split_sign_def)

lemma length_unread_int: "length (unread (snd (get_int st))) \<le> length (unread st)"
proof -
  let ?r = "dropWhile isspace (unread st)"
  have "length (dropWhile isdigit (snd (split_sign ?r))) \<le> length (unread st)"
    and "length (snd (split_sign ?r)) \<le> length (unread st)"
    using length_split_sign [of ?r] length_dropWhile_le [of isspace "unread st"]
      length_dropWhile_le [of isdigit "snd (split_sign ?r)"] by linarith+
  then show ?thesis
    by (auto simp: get_int_def Let_def at_end_def split: prod.splits)
qed

lemma length_unread_rest: "length (unread (snd (get_rest_line st))) \<le> length (unread st)"
proof -
  let ?r = "dropWhile isspace (unread st)"
  have "length (dropWhile (\<lambda>c. c \<noteq> newline) ?r) \<le> length (unread st)"
    using length_dropWhile_le [of isspace "unread st"]
      length_dropWhile_le [of "\<lambda>c. c \<noteq> newline" ?r] by linarith
  then show ?thesis
    by (auto simp: get_rest_line_def Let_def at_end_def)
qed

lemmas unread_length_le =
  length_unread_word length_unread_word_or_empty length_unread_int length_unread_rest

text \<open>Reading a word that is followed by white space or by the end.\<close>

definition is_word :: "string \<Rightarrow> bool" where
  "is_word w \<longleftrightarrow> w \<noteq> [] \<and> (\<forall>c \<in> set w. \<not> isspace c)"

lemma get_word_prefix:
  assumes "is_word w" and "rest = [] \<or> isspace (hd rest)"
  shows "get_word \<lparr>unread = w @ rest, failed = False\<rparr> = (Some w, \<lparr>unread = rest, failed = False\<rparr>)"
proof -
  have "hd (w @ rest) \<in> set w"
    using assms(1) by (cases w) (auto simp: is_word_def)
  then have *: "dropWhile isspace (w @ rest) = w @ rest"
    using assms(1) by (intro dropWhile_stop) (auto simp: is_word_def)
  have "takeWhile (\<lambda>c. \<not> isspace c) (w @ rest) = w" "dropWhile (\<lambda>c. \<not> isspace c) (w @ rest) = rest"
    using assms
    by (auto intro!: takeWhile_append_stop dropWhile_append_stop simp only: is_word_def not_not)
  then show ?thesis
    using assms(1) * by (simp add: get_word_def is_word_def)
qed

lemma get_word_skip:
  "isspace c \<Longrightarrow> get_word \<lparr>unread = c # s, failed = False\<rparr> = get_word \<lparr>unread = s, failed = False\<rparr>"
  by (simp add: get_word_def Let_def)

lemma get_word_empty [simp]: "get_word \<lparr>unread = [], failed = f\<rparr> = (None, at_end)"
  by (cases f) (auto simp: get_word_def at_end_def)

lemma length_c_str: "length (c_str s) \<le> length s"
  by (simp add: c_str_def length_takeWhile_le)

lemma length_snprintf_s: "0 < n \<Longrightarrow> length (snprintf_s n s) < n"
  by (simp add: snprintf_s_def)

lemma c_str_id [simp]: "nul \<notin> set s \<Longrightarrow> c_str s = s"
  unfolding c_str_def by (rule takeWhile_id) auto

lemma strcpy_into_Inr: "strcpy_into n s = Inr t \<longleftrightarrow> t = c_str s \<and> length t < n"
  by (auto simp: strcpy_into_def)

end
