(* ===== verification/Posix_Fd.thy ===== *)
theory Posix_Fd
  imports Std_Stream
begin

text \<open>
  The POSIX descriptor table of a process as the programs use it.  A descriptor is an \<open>int\<close>; an
  entry of the table is the open object and its close-on-exec flag.  A new descriptor is the lowest
  free one below the process's limit (\<open>RLIMIT_NOFILE\<close>); without a free one the call returns -1.
  Closing or duplicating a descriptor that is not open does nothing (\<open>EBADF\<close>, whose return value
  the programs ignore).  What POSIX leaves to the environment (which files can be opened, which
  programs can be executed) is part of the state as predicates on names.
\<close>

datatype fobj =
    Terminal nat               \<comment> \<open>whatever the process was started with\<close>
  | Socket nat
  | PipeR nat                  \<comment> \<open>read end of the n-th pipe\<close>
  | PipeW nat
  | FileW string               \<comment> \<open>opened for writing and truncated\<close>
  | FileR string
  | FileA string
  | DevNull
  | FifoRW string
  | FifoR string

record kernel =
  fds :: "int \<Rightarrow> (fobj \<times> bool) option"
  nofile :: nat
  next_pipe :: nat
  next_pid :: int
  openable :: "string \<Rightarrow> bool"
  executable :: "string \<Rightarrow> bool"
  fifo_dir :: bool
  fifos :: "string \<Rightarrow> bool"
  fifo_data :: "string \<Rightarrow> string"
  fifo_writer :: "string \<Rightarrow> bool"

subsection \<open>Descriptors\<close>

fun free_from :: "(int \<Rightarrow> 'a option) \<Rightarrow> int \<Rightarrow> nat \<Rightarrow> int option" where
  "free_from t i 0 = None"
| "free_from t i (Suc n) = (if t i = None then Some i else free_from t (i + 1) n)"

definition lowest_free :: "kernel \<Rightarrow> int option" where
  "lowest_free k = free_from (fds k) 0 (nofile k)"

definition k_open :: "fobj \<Rightarrow> bool \<Rightarrow> kernel \<Rightarrow> int \<times> kernel" where
  "k_open ob ce k =
     (case lowest_free k of None \<Rightarrow> (-1, k) | Some i \<Rightarrow> (i, k\<lparr>fds := (fds k)(i \<mapsto> (ob, ce))\<rparr>))"

definition k_close :: "int \<Rightarrow> kernel \<Rightarrow> kernel" where
  "k_close i k = k\<lparr>fds := (fds k)(i := None)\<rparr>"

definition k_dup :: "int \<Rightarrow> kernel \<Rightarrow> int \<times> kernel" where
  "k_dup i k = (case fds k i of None \<Rightarrow> (-1, k) | Some (ob, _) \<Rightarrow> k_open ob False k)"

definition k_dup2 :: "int \<Rightarrow> int \<Rightarrow> kernel \<Rightarrow> kernel" where
  "k_dup2 i j k =
     (case fds k i of
        None \<Rightarrow> k
      | Some (ob, _) \<Rightarrow>
          if i = j \<or> j < 0 \<or> int (nofile k) \<le> j then k
          else k\<lparr>fds := (fds k)(j \<mapsto> (ob, False))\<rparr>)"

text \<open>\<open>pipe2\<close>: both ends or none.  \<open>ce\<close> is \<open>O_CLOEXEC\<close>.\<close>

definition k_pipe2 :: "bool \<Rightarrow> kernel \<Rightarrow> (int \<times> int \<times> kernel) option" where
  "k_pipe2 ce k =
     (case k_open (PipeR (next_pipe k)) ce k of (r, k1) \<Rightarrow>
       (case k_open (PipeW (next_pipe k)) ce k1 of (w, k2) \<Rightarrow>
         if r = -1 \<or> w = -1 then None else Some (r, w, k2\<lparr>next_pipe := Suc (next_pipe k)\<rparr>)))"

definition k_open_file :: "string \<Rightarrow> fobj \<Rightarrow> kernel \<Rightarrow> int \<times> kernel" where
  "k_open_file name ob k = (if openable k name then k_open ob False k else (-1, k))"

subsection \<open>What a descriptor refers to\<close>

definition obj_at :: "kernel \<Rightarrow> int \<Rightarrow> fobj option" where
  "obj_at k i = map_option fst (fds k i)"

text \<open>The table of a process after \<open>execvp\<close>.\<close>

definition exec_table :: "kernel \<Rightarrow> int \<Rightarrow> fobj option" where
  "exec_table k i = (case fds k i of Some (ob, False) \<Rightarrow> Some ob | _ \<Rightarrow> None)"

subsection \<open>The interface: descriptor allocation\<close>

text \<open>
  What the pipe layer relies on: an allocation takes a descriptor that was free and changes nothing
  else, it succeeds as long as one is free, and closing frees exactly one.
\<close>

locale fd_table =
  fixes opn :: "'s \<Rightarrow> int \<Rightarrow> 'o option"
    and alloc :: "'o \<Rightarrow> 's \<Rightarrow> int \<times> 's"
    and cls :: "int \<Rightarrow> 's \<Rightarrow> 's"
    and room :: "'s \<Rightarrow> int set"
  assumes room_free: "i \<in> room s \<Longrightarrow> opn s i = None \<and> 0 \<le> i"
    and finite_room: "finite (room s)"
    and alloc_some: "room s \<noteq> {} \<Longrightarrow> \<exists>i s'. alloc ob s = (i, s') \<and> i \<in> room s"
    and alloc_opn: "alloc ob s = (i, s') \<Longrightarrow> i \<noteq> -1 \<Longrightarrow> opn s' = (opn s)(i \<mapsto> ob)"
    and alloc_room: "alloc ob s = (i, s') \<Longrightarrow> i \<noteq> -1 \<Longrightarrow> i \<in> room s \<and> room s' = room s - {i}"
    and alloc_full: "room s = {} \<Longrightarrow> alloc ob s = (-1, s)"
    and cls_opn: "opn (cls i s) = (opn s)(i := None)"
begin

lemma alloc_two:
  assumes "2 \<le> card (room s)"
  obtains i s1 j s2 where "alloc a s = (i, s1)" and "alloc b s1 = (j, s2)"
    and "i \<in> room s" and "j \<in> room s" and "i \<noteq> j"
    and "opn s2 = (opn s)(i \<mapsto> a, j \<mapsto> b)" and "room s2 = room s - {i, j}"
proof -
  have "room s \<noteq> {}" using assms by auto
  then obtain i s1 where 1: "alloc a s = (i, s1)" "i \<in> room s"
    using alloc_some [of s a] by auto
  then have i: "i \<noteq> -1" using room_free by fastforce
  have s1: "opn s1 = (opn s)(i \<mapsto> a)" "room s1 = room s - {i}"
    using alloc_opn [OF 1(1) i] alloc_room [OF 1(1) i] by auto
  have "card (room s1) = card (room s) - 1"
    using s1(2) 1(2) finite_room by simp
  then have "room s1 \<noteq> {}" using assms by auto
  then obtain j s2 where 2: "alloc b s1 = (j, s2)" "j \<in> room s1"
    using alloc_some [of s1 b] by auto
  then have j: "j \<noteq> -1" using room_free by fastforce
  have "opn s2 = (opn s1)(j \<mapsto> b)" "room s2 = room s1 - {j}"
    using alloc_opn [OF 2(1) j] alloc_room [OF 2(1) j] by auto
  with 1 2 s1 show ?thesis by (intro that) auto
qed

lemma alloc_two_fails:
  assumes "card (room s) \<le> 1" and "alloc a s = (i, s1)" and "alloc b s1 = (j, s2)"
  shows "i = -1 \<or> j = -1"
proof (rule ccontr)
  assume "\<not> ?thesis"
  then have "i \<in> room s" "room s1 = room s - {i}" "j \<in> room s1"
    using assms(2,3) alloc_room by blast+
  then have "{i, j} \<subseteq> room s" "i \<noteq> j" by auto
  then have "2 \<le> card (room s)"
    using card_mono [OF finite_room [of s], of "{i, j}"] by simp
  with assms(1) show False by simp
qed

end

definition room_of :: "kernel \<Rightarrow> int set" where
  "room_of k = {i. 0 \<le> i \<and> i < int (nofile k) \<and> fds k i = None}"

lemma free_from_Some:
  "free_from t i n = Some j \<Longrightarrow> i \<le> j \<and> j < i + int n \<and> t j = None"
  by (induction t i n rule: free_from.induct) (auto split: if_splits)

lemma free_from_None: "free_from t i n = None \<longleftrightarrow> (\<forall>j. i \<le> j \<and> j < i + int n \<longrightarrow> t j \<noteq> None)"
proof (induction t i n rule: free_from.induct)
  case (2 t i n)
  have range: "i \<le> j \<and> j < i + int (Suc n) \<longleftrightarrow> j = i \<or> (i + 1 \<le> j \<and> j < i + 1 + int n)" for j
    by auto
  show ?case
    by (simp only: range) (use 2 in auto)
qed auto

lemma lowest_free_Some: "lowest_free k = Some i \<Longrightarrow> i \<in> room_of k"
  using free_from_Some [of "fds k" 0 "nofile k" i] by (auto simp: lowest_free_def room_of_def)

lemma lowest_free_None: "lowest_free k = None \<longleftrightarrow> room_of k = {}"
  using free_from_None [of "fds k" 0 "nofile k"] by (auto simp: lowest_free_def room_of_def)

lemma finite_room_of [simp]: "finite (room_of k)"
  by (rule finite_subset [of _ "{0..<int (nofile k)}"]) (auto simp: room_of_def)

lemma room_of_upd: "room_of (k\<lparr>fds := (fds k)(i \<mapsto> e)\<rparr>) = room_of k - {i}"
  by (auto simp: room_of_def)

interpretation fdt: fd_table fds "\<lambda>e k. k_open (fst e) (snd e) k" k_close room_of
proof unfold_locales
  fix s :: kernel and i s' and ob :: "fobj \<times> bool"
  show "i \<in> room_of s \<Longrightarrow> fds s i = None \<and> 0 \<le> i" for i by (simp add: room_of_def)
  show "finite (room_of s)" by simp
  show "room_of s \<noteq> {} \<Longrightarrow> \<exists>i s'. k_open (fst ob) (snd ob) s = (i, s') \<and> i \<in> room_of s"
    using lowest_free_Some lowest_free_None
    by (fastforce simp: k_open_def split: option.split)
  show "k_open (fst ob) (snd ob) s = (i, s') \<Longrightarrow> i \<noteq> -1 \<Longrightarrow> fds s' = (fds s)(i \<mapsto> ob)"
    by (auto simp: k_open_def split: option.splits)
  show "k_open (fst ob) (snd ob) s = (i, s') \<Longrightarrow> i \<noteq> -1 \<Longrightarrow>
      i \<in> room_of s \<and> room_of s' = room_of s - {i}"
    by (auto simp: k_open_def room_of_upd lowest_free_Some split: option.splits)
  show "room_of s = {} \<Longrightarrow> k_open (fst ob) (snd ob) s = (-1, s)"
    by (simp add: k_open_def lowest_free_None [THEN iffD2])
  show "fds (k_close i s) = (fds s)(i := None)" by (simp add: k_close_def)
qed

subsection \<open>\<open>pipe2\<close>\<close>

lemma k_open_frame [frame_simps]:
  "next_pipe (snd (k_open ob ce k)) = next_pipe k"
  "nofile (snd (k_open ob ce k)) = nofile k"
  "next_pid (snd (k_open ob ce k)) = next_pid k"
  "executable (snd (k_open ob ce k)) = executable k"
  "openable (snd (k_open ob ce k)) = openable k"
  by (simp_all add: k_open_def split: option.splits)

lemma k_pipe2_ok:
  assumes "2 \<le> card (room_of k)"
  obtains r w k' where "k_pipe2 ce k = Some (r, w, k')" and "r \<in> room_of k" and "w \<in> room_of k"
    and "r \<noteq> w"
    and "fds k' = (fds k)(r \<mapsto> (PipeR (next_pipe k), ce), w \<mapsto> (PipeW (next_pipe k), ce))"
    and "k' = k\<lparr>fds := fds k', next_pipe := Suc (next_pipe k)\<rparr>"
proof -
  obtain r k1 w k2 where *: "k_open (PipeR (next_pipe k)) ce k = (r, k1)"
      "k_open (PipeW (next_pipe k)) ce k1 = (w, k2)" "r \<in> room_of k" "w \<in> room_of k" "r \<noteq> w"
      "fds k2 = (fds k)(r \<mapsto> (PipeR (next_pipe k), ce), w \<mapsto> (PipeW (next_pipe k), ce))"
    by (rule fdt.alloc_two [OF assms, of "(PipeR (next_pipe k), ce)" "(PipeW (next_pipe k), ce)"])
      simp
  then have "k2 = k\<lparr>fds := fds k2\<rparr>"
    by (auto simp: k_open_def split: option.splits)
  moreover have "r \<noteq> -1" "w \<noteq> -1" using *(3,4) by (auto simp: room_of_def)
  ultimately show ?thesis
    using * by (intro that [of r w "k2\<lparr>next_pipe := Suc (next_pipe k)\<rparr>"]) (auto simp: k_pipe2_def)
qed

lemma k_pipe2_full: "card (room_of k) \<le> 1 \<Longrightarrow> k_pipe2 ce k = None"
  using fdt.alloc_two_fails [of k "(PipeR (next_pipe k), ce)" _ _ "(PipeW (next_pipe k), ce)"]
  by (auto simp: k_pipe2_def split: prod.splits)

lemma k_dup2_frame [frame_simps]:
  "next_pipe (k_dup2 i j k) = next_pipe k" "nofile (k_dup2 i j k) = nofile k"
  "next_pid (k_dup2 i j k) = next_pid k" "executable (k_dup2 i j k) = executable k"
  by (simp_all add: k_dup2_def split: option.splits)

end
