(* ===== verification/Np_Pipe.thy ===== *)
theory Np_Pipe
  imports Posix_Fd
begin

text \<open>
  Class \<open>Pipe\<close> of \<open>shell/pipe.cpp\<close>: two descriptors, -1 for none.  Every operation takes the
  descriptor table of the process that runs it.  \<open>Pipe::read\<close> and \<open>Pipe::write\<close> run in a forked
  child and redirect its standard descriptors.
\<close>

record pipe =
  fd_in :: int
  fd_out :: int

definition Pipe :: pipe where
  "Pipe = \<lparr>fd_in = -1, fd_out = -1\<rparr>"

definition WRITE :: int where "WRITE = 1"
definition READ :: int where "READ = 2"
definition APPEND :: int where "APPEND = 3"

definition pipe_create :: "kernel \<Rightarrow> (pipe \<times> kernel) result" where
  "pipe_create k =
     (case k_pipe2 True k of
        None \<Rightarrow> Inl Exit_Failure
      | Some (r, w, k') \<Rightarrow> Inr (\<lparr>fd_in = r, fd_out = w\<rparr>, k'))"

definition openFile :: "string \<Rightarrow> int \<Rightarrow> pipe \<Rightarrow> kernel \<Rightarrow> pipe \<times> kernel" where
  "openFile filename mode p k =
     (if mode = WRITE then
        (case k_open_file filename (FileW filename) k of (f, k') \<Rightarrow> (\<lparr>fd_in = -1, fd_out = f\<rparr>, k'))
      else if mode = READ then
        (case k_open_file filename (FileR filename) k of (f, k') \<Rightarrow> (\<lparr>fd_in = f, fd_out = -1\<rparr>, k'))
      else if mode = APPEND then
        (case k_open_file filename (FileA filename) k of (f, k') \<Rightarrow> (\<lparr>fd_in = -1, fd_out = f\<rparr>, k'))
      else (p, k))"

text \<open>
  \<open>access(name, F_OK)\<close> asks whether the FIFO exists; \<open>mkfifo\<close> creates it if its directory does;
  opening a FIFO that does not exist gives -1.  A process that opens it for reading and writing is
  a writer of it from then on.
\<close>

definition k_mkfifo :: "string \<Rightarrow> kernel \<Rightarrow> kernel" where
  "k_mkfifo name k = (if fifo_dir k then k\<lparr>fifos := (fifos k)(name := True),
                                          fifo_data := (fifo_data k)(name := [])\<rparr> else k)"

definition k_unlink :: "string \<Rightarrow> kernel \<Rightarrow> kernel" where
  "k_unlink name k = k\<lparr>fifos := (fifos k)(name := False)\<rparr>"

definition k_open_fifo :: "string \<Rightarrow> fobj \<Rightarrow> kernel \<Rightarrow> int \<times> kernel" where
  "k_open_fifo name ob k =
     (if fifos k name
      then k_open ob False
             (if ob = FifoRW name then k\<lparr>fifo_writer := (fifo_writer k)(name := True)\<rparr> else k)
      else (-1, k))"

definition openFIFO :: "string \<Rightarrow> int \<Rightarrow> pipe \<Rightarrow> kernel \<Rightarrow> bool \<times> pipe \<times> kernel" where
  "openFIFO filename mode p k =
     (if mode = WRITE then
        if \<not> fifos k filename then
          (case k_open_fifo filename (FifoRW filename) (k_mkfifo filename k) of
             (f, k') \<Rightarrow> (True, p\<lparr>fd_out := f\<rparr>, k'))
        else (False, p, k)
      else if mode = READ then
        if fifos k filename then
          (case k_open_fifo filename (FifoR filename) k of (f, k') \<Rightarrow> (True, p\<lparr>fd_in := f\<rparr>, k'))
        else (False, p, k)
      else (False, p, k))"

definition pipe_clear :: "pipe \<Rightarrow> pipe" where
  "pipe_clear p = p\<lparr>fd_in := -1, fd_out := -1\<rparr>"

definition closePipe :: "pipe \<Rightarrow> kernel \<Rightarrow> pipe \<times> kernel" where
  "closePipe p k =
     (let k1 = (if fd_in p \<noteq> -1 then k_close (fd_in p) k else k);
          k2 = (if fd_out p \<noteq> -1 then k_close (fd_out p) k1 else k1)
      in (pipe_clear p, k2))"

definition pipe_read :: "pipe \<Rightarrow> kernel \<Rightarrow> pipe \<times> kernel" where
  "pipe_read p k = closePipe p (k_dup2 (fd_in p) 0 k)"

definition pipe_write :: "bool \<Rightarrow> pipe \<Rightarrow> kernel \<Rightarrow> pipe \<times> kernel" where
  "pipe_write writeErr p k =
     (let k1 = k_dup2 (fd_out p) 1 k;
          k2 = (if writeErr then k_dup2 (fd_out p) 2 k1 else k1)
      in closePipe p k2)"

definition pipe_empty :: "pipe \<Rightarrow> bool" where
  "pipe_empty p \<longleftrightarrow> fd_in p = -1 \<and> fd_out p = -1"

definition pipe_set :: "int \<Rightarrow> int \<Rightarrow> pipe" where
  "pipe_set inFd outFd = \<lparr>fd_in = inFd, fd_out = outFd\<rparr>"

text \<open>
  \<open>readEOF\<close> closes the write end, reads until the end of file and closes the read end; the members
  keep their old values.  The reads return once no process holds a write end of this pipe.
\<close>

definition readEOF :: "pipe \<Rightarrow> kernel \<Rightarrow> kernel" where
  "readEOF p k = k_close (fd_in p) (k_close (fd_out p) k)"

subsection \<open>Basic facts\<close>

lemma pipe_empty_Pipe [simp]: "pipe_empty Pipe"
  by (simp add: pipe_empty_def Pipe_def)

lemma pipe_empty_iff: "pipe_empty p \<longleftrightarrow> p = Pipe"
  by (cases p) (simp add: pipe_empty_def Pipe_def)

lemma closePipe_fst [simp]: "fst (closePipe p k) = Pipe"
  by (cases p) (simp add: closePipe_def pipe_clear_def Pipe_def Let_def)

lemma closePipe_kernel:
  "snd (closePipe p k) = k\<lparr>fds := \<lambda>i. if i \<noteq> -1 \<and> (i = fd_in p \<or> i = fd_out p) then None else fds k i\<rparr>"
  by (cases p) (auto simp: closePipe_def k_close_def Let_def fun_eq_iff)

lemma closePipe_eq: "closePipe p k = (Pipe, snd (closePipe p k))"
  using closePipe_fst [of p k] by (cases "closePipe p k") simp

lemma closePipe_Pipe [simp]: "closePipe Pipe k = (Pipe, k)"
  by (subst closePipe_eq) (simp add: closePipe_def Pipe_def)

lemma pipe_create_ok:
  assumes "2 \<le> card (room_of k)"
  obtains r w k' where "pipe_create k = Inr (\<lparr>fd_in = r, fd_out = w\<rparr>, k')"
    and "r \<in> room_of k" and "w \<in> room_of k" and "r \<noteq> w"
    and "fds k' = (fds k)(r \<mapsto> (PipeR (next_pipe k), True), w \<mapsto> (PipeW (next_pipe k), True))"
    and "k' = k\<lparr>fds := fds k', next_pipe := Suc (next_pipe k)\<rparr>"
  by (rule k_pipe2_ok [OF assms, of True]) (auto simp: pipe_create_def)

lemma pipe_create_full: "card (room_of k) \<le> 1 \<Longrightarrow> pipe_create k = Inl Exit_Failure"
  by (simp add: pipe_create_def k_pipe2_full)

end
