(* ===== verification/Np_World.thy ===== *)
theory Np_World
  imports Std_Map Ring_Buffer Np_Pipe
begin

text \<open>
  The data of the remote working ground servers (\<open>312552017_np_project2\<close>): the commands and
  command lines of \<open>shell/cmdType.hpp\<close>, the shell object \<open>CmdHandler\<close>, the users and tables of
  \<open>chatServer\<close>, and the process around them (descriptors, environment, standard input, and the
  trace of everything it does that is visible outside).

  \<open>UserInfo\<close> derives from \<open>CmdHandler\<close>; here the base-class part is the field \<open>shell\<close>, except for
  \<open>userPipes\<close>, which only the server touches and which stays with the user.  The member \<open>status\<close>
  receives the exit status of \<open>waitpid\<close> and is never read; it is left out.
\<close>

subsection \<open>Commands\<close>

datatype cmdType = EXE | PIPE | FILE_CMD | NUMBERED_PIPE | USER_PIPE

datatype command =
    ExeCommand "string list"
  | PipeCommand
  | FileCommand string
  | NumberedPipeCommand int bool
  | UserPipeCommand

fun getType :: "command \<Rightarrow> cmdType" where
  "getType (ExeCommand _) = EXE"
| "getType PipeCommand = PIPE"
| "getType (FileCommand _) = FILE_CMD"
| "getType (NumberedPipeCommand _ _) = NUMBERED_PIPE"
| "getType UserPipeCommand = USER_PIPE"

text \<open>\<open>pipeError()\<close>: only a numbered pipe made from \<open>!n\<close> takes the standard error output too.\<close>

fun pipeError :: "command \<Rightarrow> bool" where
  "pipeError (NumberedPipeCommand _ includeError) = includeError"
| "pipeError _ = False"

record np_command_line =
  npCommands :: "command list"
  readUid :: int
  writeUid :: int
  redirect :: "string \<times> int"

definition NpCommandLine :: np_command_line where
  "NpCommandLine = \<lparr>npCommands = [], readUid = 0, writeUid = 0, redirect = ([], 0)\<rparr>"

definition addCommand :: "command \<Rightarrow> np_command_line \<Rightarrow> np_command_line" where
  "addCommand c l = l\<lparr>npCommands := npCommands l @ [c]\<rparr>"

text \<open>A command line after it was moved from: the containers are empty, the integers keep their values.\<close>

definition moved_from :: "np_command_line \<Rightarrow> np_command_line" where
  "moved_from l = l\<lparr>npCommands := [], redirect := ([], snd (redirect l))\<rparr>"

subsection \<open>Shells and users\<close>

definition MAX_CONN :: int where "MAX_CONN = 31"
definition USER_MSG_LEN :: nat where "USER_MSG_LEN = 1024"
definition IP_LEN :: nat where "IP_LEN = 16"
definition MAX_USER_NAME_LEN :: nat where "MAX_USER_NAME_LEN = 20"

record cmd_handler =
  numberPipeList :: "pipe ring"
  running :: bool
  pipelineProcessor :: "int \<times> int"
  currPipe :: pipe
  prevPipe :: pipe
  eol :: pipe
  shell_fd :: int

text \<open>\<open>CmdHandler()\<close>; \<open>_fd\<close> has no initialiser and is set by \<open>runShell\<close> before it is read.\<close>

definition CmdHandler :: cmd_handler where
  "CmdHandler = \<lparr>numberPipeList = ring_new Pipe, running = True, pipelineProcessor = (0, 0),
                 currPipe = Pipe, prevPipe = Pipe, eol = Pipe, shell_fd = 0\<rparr>"

record user_info =
  port :: int
  sock :: int
  pid :: int
  inbox :: string
  ip :: string
  name :: string
  isConnected :: bool
  userPipes :: "int \<Rightarrow> pipe"
  shell :: cmd_handler

definition UserInfo :: user_info where
  "UserInfo = \<lparr>port = -1, sock = -1, pid = -1, inbox = [], ip = [], name = [], isConnected = False,
               userPipes = (\<lambda>_. Pipe), shell = CmdHandler\<rparr>"

text \<open>A user whose memory was overwritten with zero bytes.\<close>

definition zero_pipe :: pipe where
  "zero_pipe = \<lparr>fd_in = 0, fd_out = 0\<rparr>"

definition zero_user :: user_info where
  "zero_user = \<lparr>port = 0, sock = 0, pid = 0, inbox = [], ip = [], name = [], isConnected = False,
     userPipes = (\<lambda>_. zero_pipe),
     shell = \<lparr>numberPipeList = ring_new zero_pipe, running = False, pipelineProcessor = (0, 0),
              currPipe = zero_pipe, prevPipe = zero_pipe, eol = zero_pipe, shell_fd = 0\<rparr>\<rparr>"

subsection \<open>The server and its process\<close>

datatype config =
    No_SHM       \<comment> \<open>\<open>np_simple\<close> and \<open>np_single_proc\<close>\<close>
  | SHM          \<comment> \<open>\<open>np_multi_proc\<close>, compiled with \<open>CONFIG_SHM\<close>\<close>

datatype event =
    Cout "fobj option" string                       \<comment> \<open>written to descriptor 1\<close>
  | Send int string                                 \<comment> \<open>\<open>send\<close> on a socket\<close>
  | Signal int                                      \<comment> \<open>\<open>kill(pid, SIGUSR1)\<close>\<close>
  | Exec int "string list" "int \<Rightarrow> fobj option"     \<comment> \<open>a child runs a program on this table\<close>
  | Exec_Failed int "fobj option" string            \<comment> \<open>a child reports the failure and exits\<close>
  | Child_Crash int                                 \<comment> \<open>a child runs into undefined behaviour\<close>
  | Wait int                                        \<comment> \<open>\<open>waitpid\<close> on one child\<close>
  | Await_EOF                                       \<comment> \<open>the reads of \<open>readEOF\<close>\<close>
  | Shutdown int
  | Pipe_Data nat string                            \<comment> \<open>bytes the server itself puts into a pipe\<close>

record chat_server =
  users :: "(int, user_info) smap"
  env_table :: "(int, (string, string) smap) smap"
  sockID_table :: "(int, int) smap"
  cur_uid :: int
  serverIn :: int
  serverOut :: int
  serverErr :: int

record world = chat_server +
  kern :: kernel
  environ :: "(string, string) smap"
  stdin_buf :: string
  cin_good :: bool
  incoming :: "fobj \<Rightarrow> string list"
  trace :: "event list"

definition emit :: "event \<Rightarrow> world \<Rightarrow> world" where
  "emit e w = w\<lparr>trace := trace w @ [e]\<rparr>"

definition cout :: "string \<Rightarrow> world \<Rightarrow> world" where
  "cout s w = emit (Cout (obj_at (kern w) 1) s) w"

text \<open>\<open>users[id]\<close> followed by a member access: a missing entry is created as a null pointer.\<close>

definition user_at :: "world \<Rightarrow> int \<Rightarrow> user_info result" where
  "user_at w i = (case sm_find (users w) i of None \<Rightarrow> Inl Null_Deref | Some u \<Rightarrow> Inr u)"

definition set_user :: "int \<Rightarrow> user_info \<Rightarrow> world \<Rightarrow> world" where
  "set_user i u w = w\<lparr>users := sm_put i u (users w)\<rparr>"

definition user_pipe :: "user_info \<Rightarrow> int \<Rightarrow> pipe result" where
  "user_pipe u i = (if 0 \<le> i \<and> i < MAX_CONN then Inr (userPipes u i) else Inl Out_Of_Bounds)"

definition set_user_pipe :: "int \<Rightarrow> pipe \<Rightarrow> user_info \<Rightarrow> user_info" where
  "set_user_pipe i p u = u\<lparr>userPipes := (userPipes u)(i := p)\<rparr>"

text \<open>The indices of the shared user slots, \<open>1 .. MAX_CONN - 1\<close>.\<close>

definition slots :: "int list" where
  "slots = [1..MAX_CONN - 1]"

subsection \<open>Standard input\<close>

text \<open>
  \<open>std::getline(std::cin, line)\<close>.  \<open>std::cin\<close> reads through the buffer of \<open>stdin\<close>, which is filled
  from whatever descriptor 0 refers to at that moment and is not emptied when descriptor 0 is
  redirected.  \<open>incoming ob\<close> lists what successive \<open>read\<close>s of an object return; the empty string is
  the end of file, and no entry means that the read blocks.  At the end of file the stream loses
  its good state, and as nothing ever clears it every later \<open>getline\<close> fails at once.
\<close>

fun fill_line :: "string \<Rightarrow> string list \<Rightarrow> (string \<times> bool \<times> string \<times> string list) option" where
  "fill_line buf chunks =
     (if newline \<in> set buf
      then Some (takeWhile (\<lambda>c. c \<noteq> newline) buf, True, drop 1 (dropWhile (\<lambda>c. c \<noteq> newline) buf), chunks)
      else case chunks of
             [] \<Rightarrow> None
           | c # cs \<Rightarrow> if c = [] then Some (buf, False, [], cs) else fill_line (buf @ c) cs)"

declare fill_line.simps [simp del]

definition getline_cin :: "world \<Rightarrow> (string \<times> world) result" where
  "getline_cin w =
     (if \<not> cin_good w then Inr ([], w)
      else case obj_at (kern w) 0 of
             None \<Rightarrow>
               (case fill_line (stdin_buf w) [[]] of
                  None \<Rightarrow> Inl Blocked
                | Some (l, good, buf, _) \<Rightarrow> Inr (l, w\<lparr>cin_good := good, stdin_buf := buf\<rparr>))
           | Some ob \<Rightarrow>
               (case fill_line (stdin_buf w) (incoming w ob) of
                  None \<Rightarrow> Inl Blocked
                | Some (l, good, buf, rest) \<Rightarrow>
                    Inr (l, w\<lparr>cin_good := good, stdin_buf := buf,
                              incoming := (incoming w)(ob := rest)\<rparr>)))"

subsection \<open>Access and frame lemmas\<close>

lemma emit_sel [simp]:
  "users (emit e w) = users w" "env_table (emit e w) = env_table w"
  "sockID_table (emit e w) = sockID_table w" "cur_uid (emit e w) = cur_uid w"
  "serverIn (emit e w) = serverIn w" "serverOut (emit e w) = serverOut w"
  "serverErr (emit e w) = serverErr w" "kern (emit e w) = kern w"
  "environ (emit e w) = environ w" "stdin_buf (emit e w) = stdin_buf w"
  "cin_good (emit e w) = cin_good w" "incoming (emit e w) = incoming w"
  "trace (emit e w) = trace w @ [e]"
  by (simp_all add: emit_def)

lemma cout_sel [simp]:
  "users (cout s w) = users w" "env_table (cout s w) = env_table w"
  "sockID_table (cout s w) = sockID_table w" "cur_uid (cout s w) = cur_uid w"
  "serverIn (cout s w) = serverIn w" "serverOut (cout s w) = serverOut w"
  "serverErr (cout s w) = serverErr w" "kern (cout s w) = kern w"
  "environ (cout s w) = environ w" "stdin_buf (cout s w) = stdin_buf w"
  "cin_good (cout s w) = cin_good w" "incoming (cout s w) = incoming w"
  "trace (cout s w) = trace w @ [Cout (obj_at (kern w) 1) s]"
  by (simp_all add: cout_def)

lemma set_user_sel [simp]:
  "users (set_user i u w) = sm_put i u (users w)" "env_table (set_user i u w) = env_table w"
  "sockID_table (set_user i u w) = sockID_table w" "cur_uid (set_user i u w) = cur_uid w"
  "serverIn (set_user i u w) = serverIn w" "serverOut (set_user i u w) = serverOut w"
  "serverErr (set_user i u w) = serverErr w" "kern (set_user i u w) = kern w"
  "environ (set_user i u w) = environ w" "stdin_buf (set_user i u w) = stdin_buf w"
  "cin_good (set_user i u w) = cin_good w" "incoming (set_user i u w) = incoming w"
  "trace (set_user i u w) = trace w"
  by (simp_all add: set_user_def)

lemma user_at_Inr: "user_at w i = Inr u \<longleftrightarrow> sm_find (users w) i = Some u"
  by (simp add: user_at_def split: option.splits)

lemma user_at_Inl: "user_at w i = Inl e \<longleftrightarrow> sm_find (users w) i = None \<and> e = Null_Deref"
  by (auto simp: user_at_def split: option.splits)

lemma user_at_users: "users w = users w' \<Longrightarrow> user_at w i = user_at w' i"
  by (simp add: user_at_def)

lemma set_user_pipe_sel [simp]:
  "port (set_user_pipe i p u) = port u" "sock (set_user_pipe i p u) = sock u"
  "pid (set_user_pipe i p u) = pid u" "inbox (set_user_pipe i p u) = inbox u"
  "ip (set_user_pipe i p u) = ip u" "name (set_user_pipe i p u) = name u"
  "isConnected (set_user_pipe i p u) = isConnected u" "shell (set_user_pipe i p u) = shell u"
  "userPipes (set_user_pipe i p u) = (userPipes u)(i := p)"
  by (simp_all add: set_user_pipe_def)

lemma getline_cin_dead: "\<not> cin_good w \<Longrightarrow> getline_cin w = Inr ([], w)"
  by (simp add: getline_cin_def)

lemma getline_cin_frame:
  assumes "getline_cin w = Inr (l, w')"
  shows "users w' = users w" "sockID_table w' = sockID_table w" "kern w' = kern w"
    "env_table w' = env_table w" "trace w' = trace w" "environ w' = environ w"
    "serverIn w' = serverIn w" "serverOut w' = serverOut w" "serverErr w' = serverErr w"
    "cur_uid w' = cur_uid w"
  using assms by (auto simp: getline_cin_def split: if_splits option.splits)

lemma mem_slots: "i \<in> set slots \<longleftrightarrow> 1 \<le> i \<and> i < MAX_CONN"
  by (auto simp: slots_def)

end
