(* ===== verification/Chat_Server.thy ===== *)
theory Chat_Server
  imports Np_World
begin

text \<open>
  Class \<open>chatServer\<close> of \<open>server/chatServer.cpp\<close> without the user pipes (theory \<open>User_Pipes\<close>):
  sending and broadcasting, adding and removing users, the commands \<open>who\<close>, \<open>tell\<close>, \<open>yell\<close> and
  \<open>name\<close>, and the per-user environment.  Each function takes the build configuration where the
  code has an \<open>#ifdef CONFIG_SHM\<close>.
\<close>

subsection \<open>Messages\<close>

definition quote :: string where "quote = [CHR 0x27]"
definition nl :: string where "nl = [newline]"

definition WELCOME_MSG :: string where
  "WELCOME_MSG = replicate 40 (CHR ''*'') @ nl @ ''** Welcome to the information server. **'' @ nl
                 @ replicate 40 (CHR ''*'') @ nl"

definition LOGIN_MSG :: "string \<Rightarrow> string \<Rightarrow> int \<Rightarrow> string" where
  "LOGIN_MSG n a p = ''*** User '' @ quote @ n @ quote @ '' entered from '' @ a @ '':''
                     @ to_string p @ ''. ***'' @ nl"

definition LOGOUT_MSG :: "string \<Rightarrow> string" where
  "LOGOUT_MSG n = ''*** User '' @ quote @ n @ quote @ '' left. ***'' @ nl"

definition TELL_MSG :: "string \<Rightarrow> string \<Rightarrow> string" where
  "TELL_MSG n msg = ''*** '' @ n @ '' told you ***: '' @ msg @ nl"

definition YELL_MSG :: "string \<Rightarrow> string \<Rightarrow> string" where
  "YELL_MSG n msg = ''*** '' @ n @ '' yelled ***: '' @ msg @ nl"

definition NAME_MSG :: "string \<Rightarrow> int \<Rightarrow> string \<Rightarrow> string" where
  "NAME_MSG a p n = ''*** User from '' @ a @ '':'' @ to_string p @ '' is named '' @ quote @ n
                    @ quote @ ''. ***'' @ nl"

definition FIFO_DIR :: "int \<Rightarrow> int \<Rightarrow> string" where
  "FIFO_DIR sender receiver = ''./user_pipe/'' @ to_string sender @ ''-'' @ to_string receiver"

definition no_user_msg :: "int \<Rightarrow> string" where
  "no_user_msg uid = ''*** Error: user #'' @ to_string uid @ '' does not exist yet. ***'' @ nl"

subsection \<open>Sending\<close>

definition sendRawMessage :: "config \<Rightarrow> int \<Rightarrow> string \<Rightarrow> world \<Rightarrow> world result" where
  "sendRawMessage cfg uidOrSock msg w =
     (case cfg of
        SHM \<Rightarrow> rbind (user_at w uidOrSock) (\<lambda>u.
                 Inr (emit (Signal (pid u))
                        (set_user uidOrSock (u\<lparr>inbox := snprintf_s USER_MSG_LEN (c_str msg)\<rparr>) w)))
      | No_SHM \<Rightarrow> Inr (emit (Send uidOrSock msg) w))"

definition broadcastMessage :: "config \<Rightarrow> string \<Rightarrow> world \<Rightarrow> world result" where
  "broadcastMessage cfg msg w =
     (case cfg of
        SHM \<Rightarrow> rfold (\<lambda>i w. rbind (user_at w i) (\<lambda>u.
                        if isConnected u then sendRawMessage SHM i msg w else Inr w)) slots w
      | No_SHM \<Rightarrow> rfold (\<lambda>e w. sendRawMessage No_SHM (sock (snd e)) msg w) (users w) w)"

text \<open>The handler of \<open>SIGUSR1\<close>: show the message in the own shared buffer and empty the buffer.\<close>

definition Kill :: "world \<Rightarrow> world result" where
  "Kill w = rbind (user_at w (cur_uid w)) (\<lambda>u.
     Inr (set_user (cur_uid w) (u\<lparr>inbox := []\<rparr>) (cout (inbox u) w)))"

subsection \<open>Start-up\<close>

text \<open>\<open>std::stoi\<close> throws without digits and outside \<open>int\<close>.\<close>

definition stoi :: "string \<Rightarrow> int result" where
  "stoi s = (let (sg, r) = split_sign (dropWhile isspace s); ds = takeWhile isdigit r;
                 v = sg * int (dec_val ds)
             in if ds = [] \<or> v < int_min \<or> int_max < v then Inl Invalid_Argument else Inr v)"

definition getPortFromArgs :: "string list \<Rightarrow> int result" where
  "getPortFromArgs argv = (if length argv < 2 then Inl Invalid_Argument else stoi (argv ! 1))"

text \<open>The constructor: three copies of the standard descriptors.\<close>

definition chatServer :: "world \<Rightarrow> world" where
  "chatServer w =
     (let (i, k1) = k_dup 0 (kern w); (o', k2) = k_dup 1 k1; (e, k3) = k_dup 2 k2
      in w\<lparr>users := [], env_table := [], sockID_table := [], cur_uid := 0,
           serverIn := i, serverOut := o', serverErr := e, kern := k3\<rparr>)"

text \<open>The shared user slots start as zeroed memory.\<close>

definition createSHMUser :: "world \<Rightarrow> world" where
  "createSHMUser w = fold (\<lambda>i. set_user i zero_user) slots w"

definition deleteSHMUserFifo :: "int \<Rightarrow> world \<Rightarrow> world" where
  "deleteSHMUserFifo self w =
     w\<lparr>kern := fold (\<lambda>i k. k_unlink (FIFO_DIR i self) (k_unlink (FIFO_DIR self i) k)) slots (kern w)\<rparr>"

subsection \<open>Adding and removing users\<close>

text \<open>
  The scan for the smallest free id, over the map in key order or over the shared slots.  \<open>addUser\<close> is
  the scan followed by the stores; nothing holds the shared slots between the two.
\<close>

fun min_key :: "int list \<Rightarrow> int \<Rightarrow> int" where
  "min_key [] minKey = minKey"
| "min_key (i # is) minKey = (if minKey < i then minKey else min_key is (minKey + 1))"

fun min_slot :: "world \<Rightarrow> int list \<Rightarrow> int \<Rightarrow> int result" where
  "min_slot w [] minKey = Inr minKey"
| "min_slot w (i # is) minKey =
     rbind (user_at w i) (\<lambda>u. if \<not> isConnected u then Inr minKey else min_slot w is (minKey + 1))"

text \<open>\<open>user->userPipes[i].closePipe()\<close> for all slots.\<close>

fun close_user_pipes :: "int list \<Rightarrow> user_info \<Rightarrow> kernel \<Rightarrow> user_info \<times> kernel" where
  "close_user_pipes [] u k = (u, k)"
| "close_user_pipes (i # is) u k =
     (case closePipe (userPipes u i) k of (p, k') \<Rightarrow> close_user_pipes is (set_user_pipe i p u) k')"

definition scan_id :: "config \<Rightarrow> world \<Rightarrow> int result" where
  "scan_id cfg w = (case cfg of SHM \<Rightarrow> min_slot w slots 1 | No_SHM \<Rightarrow> Inr (min_key (map fst (users w)) 1))"

definition store_user :: "config \<Rightarrow> string \<Rightarrow> int \<Rightarrow> int \<Rightarrow> int \<Rightarrow> int \<Rightarrow> world \<Rightarrow> world result" where
  "store_user cfg addr port' sock' pid' self w =
     (let w1 = cout (''add user '' @ to_string self @ nl)
                 (w\<lparr>sockID_table := sm_put sock' self (sockID_table w)\<rparr>);
          w2 = (case cfg of SHM \<Rightarrow> w1 | No_SHM \<Rightarrow> set_user self UserInfo w1)
      in rbind (user_at w2 self) (\<lambda>u.
         let u1 = u\<lparr>ip := snprintf_s IP_LEN addr,
                    name := snprintf_s MAX_USER_NAME_LEN ''(no name)'',
                    port := port', sock := sock', isConnected := True, pid := pid'\<rparr>;
             (u2, k) = (case cfg of SHM \<Rightarrow> close_user_pipes slots u1 (kern w2)
                                  | No_SHM \<Rightarrow> (u1, kern w2))
         in Inr ((set_user self u2 w2)\<lparr>cur_uid := self, kern := k\<rparr>)))"

definition addUser :: "config \<Rightarrow> string \<Rightarrow> int \<Rightarrow> int \<Rightarrow> int \<Rightarrow> world \<Rightarrow> world result" where
  "addUser cfg addr port' sock' pid' w0 =
     (let w1 = cout (''accept new connection from ip '' @ addr @ '', port '' @ to_string port' @ nl) w0
      in rbind (scan_id cfg w1) (\<lambda>self. store_user cfg addr port' sock' pid' self w1))"

definition removeUser :: "config \<Rightarrow> int \<Rightarrow> world \<Rightarrow> world result" where
  "removeUser cfg sock' w0 =
     (let w1 = w0\<lparr>kern := k_dup2 (serverErr w0) 2 (k_dup2 (serverOut w0) 1
                            (k_dup2 (serverIn w0) 0 (kern w0)))\<rparr>;
          (self, tab) = sm_index 0 (sockID_table w1) sock';
          w2 = w1\<lparr>sockID_table := tab\<rparr>
      in rbind (user_at w2 self) (\<lambda>u.
         let w3 = cout (name u @ '' close connection from ip '' @ ip u @ '', port ''
                        @ to_string (port u) @ nl) w2;
             w4 = deleteSHMUserFifo self (set_user self zero_user w3);
             w5 = (case cfg of SHM \<Rightarrow> w4 | No_SHM \<Rightarrow> w4\<lparr>users := sm_erase self (users w4)\<rparr>);
             w6 = w5\<lparr>sockID_table := sm_erase sock' (sockID_table w5)\<rparr>;
             w7 = cout (''remove user '' @ to_string self @ nl) w6
         in rbind (broadcastMessage cfg (LOGOUT_MSG (name u)) w7) (\<lambda>w8.
            let w9 = emit (Shutdown sock') w8
            in Inr (w9\<lparr>kern := k_close sock' (kern w9)\<rparr>))))"

subsection \<open>Commands of the chat\<close>

definition who_line :: "int \<Rightarrow> int \<Rightarrow> user_info \<Rightarrow> string" where
  "who_line self i u = to_string i @ [CHR 0x09] @ name u @ [CHR 0x09] @ ip u @ '':'' @ to_string (port u)
                     @ (if self = i then [CHR 0x09] @ ''<-me'' else []) @ nl"

definition Who :: "config \<Rightarrow> int \<Rightarrow> world \<Rightarrow> world result" where
  "Who cfg self w =
     (let w1 = cout (''<ID>'' @ [CHR 0x09] @ ''<nickname>'' @ [CHR 0x09] @ ''<IP:port>'' @ [CHR 0x09]
                     @ ''<indicate me>'' @ nl) w
      in case cfg of
           SHM \<Rightarrow> rfold (\<lambda>i w. rbind (user_at w i) (\<lambda>u.
                           Inr (if isConnected u then cout (who_line self i u) w else w))) slots w1
         | No_SHM \<Rightarrow> rfold (\<lambda>e w. Inr (cout (who_line self (fst e) (snd e)) w)) (users w1) w1)"

definition Tell :: "config \<Rightarrow> int \<Rightarrow> int \<Rightarrow> string \<Rightarrow> world \<Rightarrow> world result" where
  "Tell cfg self uid msg w =
     rbind (case cfg of SHM \<Rightarrow> rbind (user_at w uid) (\<lambda>u. Inr (isConnected u))
                      | No_SHM \<Rightarrow> Inr (sm_find (users w) uid \<noteq> None)) (\<lambda>exist.
     if \<not> exist then Inr (cout (no_user_msg uid) w)
     else rbind (user_at w self) (\<lambda>me.
          case cfg of
            SHM \<Rightarrow> sendRawMessage SHM uid (TELL_MSG (name me) msg) w
          | No_SHM \<Rightarrow> rbind (user_at w uid) (\<lambda>u.
                        sendRawMessage No_SHM (sock u) (TELL_MSG (name me) msg) w)))"

definition Yell :: "config \<Rightarrow> int \<Rightarrow> string \<Rightarrow> world \<Rightarrow> world result" where
  "Yell cfg self msg w =
     rbind (user_at w self) (\<lambda>me.
     let yell_msg = YELL_MSG (name me) msg
     in case cfg of
          SHM \<Rightarrow> rfold (\<lambda>i w. rbind (user_at w i) (\<lambda>u.
                          if isConnected u then sendRawMessage SHM i yell_msg w else Inr w)) slots w
        | No_SHM \<Rightarrow> rfold (\<lambda>e w. sendRawMessage No_SHM (sock (snd e)) yell_msg w) (users w) w)"

text \<open>The search for a connected user of that name stops at the first one.\<close>

fun name_taken :: "world \<Rightarrow> string \<Rightarrow> int list \<Rightarrow> bool result" where
  "name_taken w nm [] = Inr False"
| "name_taken w nm (i # is) =
     rbind (user_at w i) (\<lambda>u. if isConnected u \<and> name u = nm then Inr True else name_taken w nm is)"

definition Name :: "config \<Rightarrow> int \<Rightarrow> string \<Rightarrow> world \<Rightarrow> world result" where
  "Name cfg self nm w =
     rbind (name_taken w nm (case cfg of SHM \<Rightarrow> slots | No_SHM \<Rightarrow> map fst (users w))) (\<lambda>exist.
     if exist then Inr (cout (''*** User '' @ quote @ nm @ quote @ '' already exists. ***'' @ nl) w)
     else rbind (user_at w self) (\<lambda>u.
          rbind (strcpy_into MAX_USER_NAME_LEN nm) (\<lambda>n.
          broadcastMessage cfg (NAME_MSG (ip u) (port u) nm) (set_user self (u\<lparr>name := n\<rparr>) w))))"

subsection \<open>Tables\<close>

definition getServingUserID :: "int \<Rightarrow> world \<Rightarrow> int \<times> world" where
  "getServingUserID fd w =
     (case sm_index 0 (sockID_table w) fd of (self, t) \<Rightarrow> (self, w\<lparr>sockID_table := t\<rparr>))"

definition getServingUserName :: "int \<Rightarrow> world \<Rightarrow> (string \<times> world) result" where
  "getServingUserName fd w =
     (case getServingUserID fd w of (self, w') \<Rightarrow> rbind (user_at w' self) (\<lambda>u. Inr (name u, w')))"

definition getServingUserEnv :: "int \<Rightarrow> string \<Rightarrow> world \<Rightarrow> string \<times> world" where
  "getServingUserEnv self env w =
     (let (tab, t1) = sm_index [] (env_table w) self; (v, tab') = sm_index [] tab env
      in (v, w\<lparr>env_table := sm_put self tab' t1\<rparr>))"

definition setServingUserEnv :: "int \<Rightarrow> string \<Rightarrow> string \<Rightarrow> world \<Rightarrow> world" where
  "setServingUserEnv self env val w =
     (let (tab, t1) = sm_index [] (env_table w) self
      in w\<lparr>env_table := sm_put self (sm_put env val tab) t1\<rparr>)"

end
