(* ===== verification/User_Pipes.thy ===== *)
theory User_Pipes
  imports Chat_Server
begin

text \<open>
  The user pipes of \<open>server/chatServer.cpp\<close>: \<open>handleUserPipe\<close>, \<open>handleUserPipeError\<close>,
  \<open>writeUserPipe\<close>, \<open>readUserPipe\<close> and \<open>readFIFO_writePipe\<close>.  Without shared memory the pipe from
  user \<open>s\<close> to user \<open>r\<close> is the entry \<open>userPipes[s]\<close> of user \<open>r\<close>; with shared memory it is the
  FIFO \<open>./user_pipe/s-r\<close>.
\<close>

definition O_RDONLY :: int where "O_RDONLY = 0"
definition O_WRONLY :: int where "O_WRONLY = 1"

datatype UserPipeErr = USER_NOT_EXIST | PIPE_ERR

subsection \<open>Looking a pipe up\<close>

definition handleUserPipe ::
    "config \<Rightarrow> int \<Rightarrow> int \<Rightarrow> int \<Rightarrow> bool \<Rightarrow> bool \<Rightarrow> world \<Rightarrow> (bool \<times> bool \<times> world) result" where
  "handleUserPipe cfg self uid mode userExist pipeExist w =
     (if mode = O_WRONLY then
        (case cfg of
           SHM \<Rightarrow>
             if uid > MAX_CONN then Inr (False, pipeExist, w)
             else rbind (user_at w uid) (\<lambda>u.
                  if \<not> isConnected u then Inr (False, pipeExist, w)
                  else rbind (user_pipe u self) (\<lambda>p.
                       case openFIFO (FIFO_DIR self uid) WRITE p (kern w) of (ok, p', k) \<Rightarrow>
                         Inr (userExist, if ok then pipeExist else True,
                              (set_user uid (set_user_pipe self p' u) w)\<lparr>kern := k\<rparr>)))
         | No_SHM \<Rightarrow>
             if uid > MAX_CONN \<or> sm_find (users w) uid = None then Inr (False, pipeExist, w)
             else rbind (user_at w uid) (\<lambda>u.
                  rbind (user_pipe u self) (\<lambda>p.
                  Inr (userExist, if \<not> pipe_empty p then True else pipeExist, w))))
      else if mode = O_RDONLY then
        (case cfg of
           SHM \<Rightarrow>
             if uid > MAX_CONN then Inr (False, pipeExist, w)
             else rbind (user_at w uid) (\<lambda>u.
                  if \<not> isConnected u then Inr (False, pipeExist, w)
                  else rbind (user_at w self) (\<lambda>me.
                       rbind (user_pipe me uid) (\<lambda>p.
                       case openFIFO (FIFO_DIR uid self) READ p (kern w) of (ok, p', k) \<Rightarrow>
                         Inr (userExist, if ok then pipeExist else False,
                              (set_user self (set_user_pipe uid p' me) w)\<lparr>kern := k\<rparr>))))
         | No_SHM \<Rightarrow>
             if uid > MAX_CONN \<or> sm_find (users w) uid = None then Inr (False, pipeExist, w)
             else rbind (user_at w self) (\<lambda>me.
                  rbind (user_pipe me uid) (\<lambda>p.
                  Inr (userExist, if pipe_empty p then False else pipeExist, w))))
      else Inr (userExist, pipeExist, w))"

definition pipe_missing_msg :: "int \<Rightarrow> int \<Rightarrow> string" where
  "pipe_missing_msg self uid = ''*** Error: the pipe #'' @ to_string uid @ ''->#'' @ to_string self
                               @ '' does not exist yet. ***'' @ nl"

definition pipe_exists_msg :: "int \<Rightarrow> int \<Rightarrow> string" where
  "pipe_exists_msg self uid = ''*** Error: the pipe #'' @ to_string self @ ''->#'' @ to_string uid
                              @ '' already exists. ***'' @ nl"

definition handleUserPipeError :: "int \<Rightarrow> int \<Rightarrow> int \<Rightarrow> UserPipeErr \<Rightarrow> world \<Rightarrow> int \<times> world" where
  "handleUserPipeError self uid mode problem w =
     (let w1 = (case problem of
                  USER_NOT_EXIST \<Rightarrow> cout (no_user_msg uid) w
                | PIPE_ERR \<Rightarrow> if mode = O_RDONLY then cout (pipe_missing_msg self uid) w
                              else cout (pipe_exists_msg self uid) w);
          (f, k) = k_open DevNull False (kern w1)
      in (f, w1\<lparr>kern := k\<rparr>))"

subsection \<open>Writing\<close>

definition piped_msg :: "string \<Rightarrow> int \<Rightarrow> string \<Rightarrow> string \<Rightarrow> int \<Rightarrow> string" where
  "piped_msg sender self cmd receiver uid =
     ''*** '' @ sender @ '' (#'' @ to_string self @ '') just piped '' @ quote @ cmd @ quote @ '' to ''
     @ receiver @ '' (#'' @ to_string uid @ '') ***'' @ nl"

definition received_msg :: "string \<Rightarrow> int \<Rightarrow> string \<Rightarrow> string \<Rightarrow> int \<Rightarrow> string" where
  "received_msg receiver self cmd sender uid =
     ''*** '' @ receiver @ '' (#'' @ to_string self @ '') just received from '' @ sender @ '' (#''
     @ to_string uid @ '') by '' @ quote @ cmd @ quote @ '' ***'' @ nl"

definition writeUserPipe ::
    "config \<Rightarrow> int \<Rightarrow> int \<Rightarrow> string \<Rightarrow> int \<Rightarrow> world \<Rightarrow> (pipe \<times> world) result" where
  "writeUserPipe cfg self uid cmd rd w0 =
     rbind (handleUserPipe cfg self uid O_WRONLY True False w0) (\<lambda>(userExist, pipeExist, w).
     if \<not> userExist then
       (case handleUserPipeError self uid O_WRONLY USER_NOT_EXIST w of (f, w') \<Rightarrow>
          Inr (pipe_set (-1) f, w'))
     else if \<not> pipeExist then
       rbind (user_at w self) (\<lambda>me.
       rbind (user_at w uid) (\<lambda>u.
       rbind (case cfg of
                SHM \<Rightarrow> Inr w
              | No_SHM \<Rightarrow> rbind (user_pipe u self) (\<lambda>_. rbind (pipe_create (kern w)) (\<lambda>(p, k).
                            Inr ((set_user uid (set_user_pipe self p u) w)\<lparr>kern := k\<rparr>)))) (\<lambda>w1.
       rbind (if cfg = SHM \<and> rd \<noteq> 0 then Inr w1
              else broadcastMessage cfg (piped_msg (name me) self cmd (name u) uid) w1) (\<lambda>w2.
       rbind (user_at w2 uid) (\<lambda>u2.
       rbind (user_pipe u2 self) (\<lambda>p.
       case k_dup (fd_out p) (kern w2) of (f, k) \<Rightarrow> Inr (pipe_set (-1) f, w2\<lparr>kern := k\<rparr>)))))))
     else
       (case handleUserPipeError self uid O_WRONLY PIPE_ERR w of (f, w') \<Rightarrow>
          Inr (pipe_set (-1) f, w')))"

subsection \<open>Reading\<close>

text \<open>
  \<open>readFIFO_writePipe\<close> copies what the FIFO holds into a fresh pipe, 1024 bytes at a time, and puts
  the pipe's read end in the FIFO's place.  \<open>strlen\<close> runs past the buffer when a read fills it with
  no NUL byte among the 1024.  The loop ends when a read fails, which is the case on an empty FIFO
  that still has a writer; without a writer the reads return 0 for ever.
\<close>

function copy_chunks :: "string \<Rightarrow> string result" where
  "copy_chunks s =
     (if s = [] then Inr []
      else let c = take USER_MSG_LEN s
           in if length c = USER_MSG_LEN \<and> nul \<notin> set c then Inl Out_Of_Bounds
              else rbind (copy_chunks (drop USER_MSG_LEN s)) (\<lambda>r. Inr (c_str c @ r)))"
  by pat_completeness auto
termination
  by (relation "measure length") (auto simp: USER_MSG_LEN_def)

declare copy_chunks.simps [simp del]

definition readFIFO_writePipe :: "int \<Rightarrow> world \<Rightarrow> world result" where
  "readFIFO_writePipe fd w =
     (case k_pipe2 False (kern w) of
        None \<Rightarrow> Inl Uninitialised
      | Some (r, wr, k1) \<Rightarrow>
          rbind (case obj_at k1 fd of
                   Some (FifoR n) \<Rightarrow>
                     rbind (copy_chunks (fifo_data k1 n)) (\<lambda>s.
                     if fifo_writer k1 n then Inr (s, k1\<lparr>fifo_data := (fifo_data k1)(n := [])\<rparr>)
                     else Inl Blocked)
                 | _ \<Rightarrow> Inr ([], k1)) (\<lambda>(s, k2).
          let k3 = k_close wr k2; k4 = k_dup2 r fd k3; k5 = k_close r k4
          in Inr ((emit (Pipe_Data (next_pipe (kern w)) s) w)\<lparr>kern := k5\<rparr>)))"

definition readUserPipe ::
    "config \<Rightarrow> int \<Rightarrow> int \<Rightarrow> string \<Rightarrow> int \<Rightarrow> world \<Rightarrow> (pipe \<times> world) result" where
  "readUserPipe cfg self uid cmd wr w0 =
     rbind (handleUserPipe cfg self uid O_RDONLY True True w0) (\<lambda>(userExist, pipeExist, w).
     if \<not> userExist then
       (case handleUserPipeError self uid O_RDONLY USER_NOT_EXIST w of (f, w') \<Rightarrow>
          Inr (pipe_set f (-1), w'))
     else if pipeExist then
       rbind (user_at w uid) (\<lambda>u.
       rbind (user_at w self) (\<lambda>me.
       let msg = received_msg (name me) self cmd (name u) uid
       in rbind (case cfg of
                   No_SHM \<Rightarrow> Inr (msg, w)
                 | SHM \<Rightarrow>
                     rbind (if wr \<noteq> 0
                            then rbind (user_at w wr) (\<lambda>v.
                                 Inr (msg @ piped_msg (name me) self cmd (name v) wr))
                            else Inr msg) (\<lambda>m.
                     rbind (user_pipe me uid) (\<lambda>p.
                     rbind (readFIFO_writePipe (fd_in p) w) (\<lambda>w1.
                     Inr (m, w1\<lparr>kern := k_unlink (FIFO_DIR uid self) (kern w1)\<rparr>))))) (\<lambda>(m, w2).
       rbind (broadcastMessage cfg m w2) (\<lambda>w3.
       rbind (user_at w3 self) (\<lambda>me3.
       rbind (user_pipe me3 uid) (\<lambda>p.
       case k_dup (fd_in p) (kern w3) of (f, k) \<Rightarrow>
         (case cfg of
            SHM \<Rightarrow> Inr (pipe_set f (-1), w3\<lparr>kern := k\<rparr>)
          | No_SHM \<Rightarrow>
              (case closePipe p k of (p', k') \<Rightarrow>
                 Inr (pipe_set f (-1), (set_user self (set_user_pipe uid p' me3) w3)\<lparr>kern := k'\<rparr>)))))))))
     else
       (case handleUserPipeError self uid O_RDONLY PIPE_ERR w of (f, w') \<Rightarrow>
          Inr (pipe_set f (-1), w')))"

end
