(* ===== verification/Cmd_Parser.thy ===== *)
theory Cmd_Parser
  imports User_Pipes
begin

text \<open>
  \<open>CmdHandler::parseCommand\<close> of \<open>shell/cmdHandler.cpp\<close>: the token loop that executes the built-in
  commands as it meets them and collects the other tokens into command lines, which end at a
  numbered pipe.  The loop terminates because every round takes at least one character from the
  stream.
\<close>

record parse_state =
  iss :: istream
  queue :: "np_command_line list"
  cur :: np_command_line
  argv :: "string list"
  sh :: cmd_handler
  wd :: world

text \<open>\<open>setenv(3)\<close> refuses an empty name and a name with an equals sign.\<close>

definition k_setenv :: "string \<Rightarrow> string \<Rightarrow> world \<Rightarrow> world" where
  "k_setenv n v w =
     (if n = [] \<or> CHR ''='' \<in> set n then w else w\<lparr>environ := sm_put n v (environ w)\<rparr>)"

text \<open>\<open>std::make_unique<ExeCommand>(argv)\<close> moves the collected words out of \<open>argv\<close>.\<close>

definition push_exe :: "parse_state \<Rightarrow> parse_state" where
  "push_exe st = st\<lparr>cur := addCommand (ExeCommand (argv st)) (cur st), argv := []\<rparr>"

definition push :: "command \<Rightarrow> parse_state \<Rightarrow> parse_state" where
  "push c st = st\<lparr>cur := addCommand c (cur st)\<rparr>"

definition end_line :: "parse_state \<Rightarrow> parse_state" where
  "end_line st = st\<lparr>queue := queue st @ [cur st], cur := moved_from (cur st)\<rparr>"

definition parse_exit :: "parse_state \<Rightarrow> parse_state" where
  "parse_exit st =
     (let h = sh st; (e, k1) = closePipe (eol h) (kern (wd st)); (p, k2) = closePipe (prevPipe h) k1;
          (c, k3) = closePipe (currPipe h) k2
      in st\<lparr>sh := h\<lparr>running := False, eol := e, prevPipe := p, currPipe := c\<rparr>,
            wd := (wd st)\<lparr>kern := k3\<rparr>\<rparr>)"

definition parse_printenv :: "int \<Rightarrow> parse_state \<Rightarrow> parse_state" where
  "parse_printenv self st =
     (let (env, s) = get_word_or_empty (iss st); (v, w) = getServingUserEnv self env (wd st)
      in st\<lparr>iss := s, wd := (if v \<noteq> [] then cout (v @ nl) w else w)\<rparr>)"

definition parse_setenv :: "int \<Rightarrow> parse_state \<Rightarrow> parse_state" where
  "parse_setenv self st =
     (let (env, s1) = get_word_or_empty (iss st); (var, s2) = get_word_or_empty s1
      in st\<lparr>iss := s2, wd := k_setenv (c_str env) (c_str var) (setServingUserEnv self env var (wd st))\<rparr>)"

text \<open>\<open>tell\<close> without a number reads an \<open>int\<close> that was never written.\<close>

definition parse_tell :: "config \<Rightarrow> int \<Rightarrow> parse_state \<Rightarrow> parse_state result" where
  "parse_tell cfg self st =
     (case get_int (iss st) of
        (None, _) \<Rightarrow> Inl Uninitialised
      | (Some uid, s1) \<Rightarrow>
          (case get_rest_line s1 of (msg, s2) \<Rightarrow>
             rbind (Tell cfg self uid msg (wd st)) (\<lambda>w. Inr (st\<lparr>iss := s2, wd := w\<rparr>))))"

definition parse_yell :: "config \<Rightarrow> int \<Rightarrow> parse_state \<Rightarrow> parse_state result" where
  "parse_yell cfg self st =
     (case get_rest_line (iss st) of (msg, s) \<Rightarrow>
        rbind (Yell cfg self msg (wd st)) (\<lambda>w. Inr (st\<lparr>iss := s, wd := w\<rparr>)))"

definition parse_name :: "config \<Rightarrow> int \<Rightarrow> parse_state \<Rightarrow> parse_state result" where
  "parse_name cfg self st =
     (case get_rest_line (iss st) of (nm, s) \<Rightarrow>
        rbind (Name cfg self nm (wd st)) (\<lambda>w. Inr (st\<lparr>iss := s, wd := w\<rparr>)))"

definition parse_redirect :: "parse_state \<Rightarrow> parse_state" where
  "parse_redirect st =
     (case get_word_or_empty (iss st) of (f, s) \<Rightarrow> push (FileCommand f) (push_exe (st\<lparr>iss := s\<rparr>)))"

definition parse_numbered :: "string \<Rightarrow> parse_state \<Rightarrow> parse_state" where
  "parse_numbered tok st =
     end_line (push (NumberedPipeCommand (atoi (tl tok)) (hd tok = CHR ''!'')) (push_exe st))"

definition parse_write_user :: "string \<Rightarrow> parse_state \<Rightarrow> parse_state" where
  "parse_write_user tok st =
     push UserPipeCommand (push_exe (st\<lparr>cur := (cur st)\<lparr>writeUid := atoi (tl tok)\<rparr>\<rparr>))"

definition parse_read_user :: "string \<Rightarrow> parse_state \<Rightarrow> parse_state" where
  "parse_read_user tok st = st\<lparr>cur := (cur st)\<lparr>readUid := atoi (tl tok)\<rparr>\<rparr>"

definition parse_token :: "config \<Rightarrow> int \<Rightarrow> string \<Rightarrow> parse_state \<Rightarrow> parse_state result" where
  "parse_token cfg self tok st =
     (if tok = ''exit'' then Inr (parse_exit st)
      else if tok = ''printenv'' then Inr (parse_printenv self st)
      else if tok = ''setenv'' then Inr (parse_setenv self st)
      else if tok = ''who'' then rbind (Who cfg self (wd st)) (\<lambda>w. Inr (st\<lparr>wd := w\<rparr>))
      else if tok = ''tell'' then parse_tell cfg self st
      else if tok = ''yell'' then parse_yell cfg self st
      else if tok = ''name'' then parse_name cfg self st
      else if tok = ''|'' then Inr (push PipeCommand (push_exe st))
      else if tok = ''>'' then Inr (parse_redirect st)
      else if hd tok = CHR ''|'' \<or> hd tok = CHR ''!'' then Inr (parse_numbered tok st)
      else if hd tok = CHR ''>'' then Inr (parse_write_user tok st)
      else if hd tok = CHR ''<'' then Inr (parse_read_user tok st)
      else Inr (st\<lparr>argv := argv st @ [tok]\<rparr>))"

lemma push_sel [simp]:
  "iss (push_exe st) = iss st" "queue (push_exe st) = queue st" "sh (push_exe st) = sh st"
  "wd (push_exe st) = wd st" "argv (push_exe st) = []"
  "cur (push_exe st) = addCommand (ExeCommand (argv st)) (cur st)"
  "iss (push c st) = iss st" "queue (push c st) = queue st" "sh (push c st) = sh st"
  "wd (push c st) = wd st" "argv (push c st) = argv st" "cur (push c st) = addCommand c (cur st)"
  "iss (end_line st) = iss st" "queue (end_line st) = queue st @ [cur st]"
  "sh (end_line st) = sh st" "wd (end_line st) = wd st" "argv (end_line st) = argv st"
  "cur (end_line st) = moved_from (cur st)"
  by (simp_all add: push_exe_def push_def end_line_def)

lemma parse_token_unread:
  assumes "parse_token cfg self tok st = Inr st'"
  shows "length (unread (iss st')) \<le> length (unread (iss st))"
proof -
  have w: "get_word_or_empty s = (x, s') \<Longrightarrow> length (unread s') \<le> length (unread s)"
    and i: "get_int s = (y, s') \<Longrightarrow> length (unread s') \<le> length (unread s)"
    and l: "get_rest_line s = (x, s') \<Longrightarrow> length (unread s') \<le> length (unread s)" for s x y s'
    using unread_length_le(2-4) [of s] by auto
  show ?thesis
    using assms
    by (auto simp: parse_token_def parse_exit_def parse_printenv_def parse_setenv_def parse_tell_def
          parse_yell_def parse_name_def parse_redirect_def parse_numbered_def parse_write_user_def
          parse_read_user_def rbind_eq_Inr_iff Let_def
        split: if_splits prod.splits option.splits dest!: w i l)
qed

function parse_loop :: "config \<Rightarrow> int \<Rightarrow> parse_state \<Rightarrow> parse_state result" where
  "parse_loop cfg self st =
     (case get_word (iss st) of
        (None, s) \<Rightarrow> Inr (st\<lparr>iss := s\<rparr>)
      | (Some tok, s) \<Rightarrow> rbind (parse_token cfg self tok (st\<lparr>iss := s\<rparr>)) (\<lambda>st'. parse_loop cfg self st'))"
  by pat_completeness auto
termination
  by (relation "measure (\<lambda>(cfg, self, st). length (unread (iss st)))")
    (auto dest!: parse_token_unread get_word_Some(1) [OF sym])

declare parse_loop.simps [simp del]

definition parseCommand ::
    "config \<Rightarrow> string \<Rightarrow> cmd_handler \<Rightarrow> world \<Rightarrow> (np_command_line list \<times> cmd_handler \<times> world) result" where
  "parseCommand cfg command h w =
     (case getServingUserID (shell_fd h) w of (self, w1) \<Rightarrow>
        rbind (parse_loop cfg self \<lparr>iss = istringstream command, queue = [], cur = NpCommandLine,
                                     argv = [], sh = h, wd = w1\<rparr>) (\<lambda>st.
        let l = (if argv st \<noteq> [] then addCommand (ExeCommand (argv st)) (cur st) else cur st)
        in Inr (if npCommands l \<noteq> [] then queue st @ [l] else queue st, sh st, wd st)))"

end
