(* ===== verification/Shell_Run.thy ===== *)
theory Shell_Run
  imports Cmd_Parser
begin

text \<open>
  \<open>CmdHandler::runShell\<close> of \<open>shell/cmdHandler.cpp\<close> with the \<open>createPipe\<close> methods and
  \<open>ExeCommand::run\<close> of \<open>shell/cmdType.cpp\<close>.  A forked child is what it does to a copy of the
  descriptor table before it executes its program, recorded as one event of the trace; \<open>fork\<close>
  always succeeds and hands out fresh process ids.
\<close>

subsection \<open>Pipes between commands\<close>

fun createPipe :: "command \<Rightarrow> cmd_handler \<Rightarrow> kernel \<Rightarrow> (cmd_handler \<times> kernel) result" where
  "createPipe (ExeCommand _) h k = Inl Bad_Cast"
| "createPipe (FileCommand f) h k =
     (case openFile f WRITE (currPipe h) k of (p, k') \<Rightarrow> Inr (h\<lparr>currPipe := p\<rparr>, k'))"
| "createPipe (NumberedPipeCommand n _) h k =
     (let p = ring_get (size_t n) (numberPipeList h)
      in if pipe_empty p
         then rbind (pipe_create k) (\<lambda>(p', k').
              Inr (h\<lparr>currPipe := p', numberPipeList := ring_set (size_t n) p' (numberPipeList h)\<rparr>, k'))
         else Inr (h\<lparr>currPipe := p\<rparr>, k))"
| "createPipe _ h k = rbind (pipe_create k) (\<lambda>(p', k'). Inr (h\<lparr>currPipe := p'\<rparr>, k'))"

text \<open>What comes after the command at hand: \<open>dynamic_cast<PipeCommand&>\<close> throws for a command.\<close>

definition connect_next ::
    "config \<Rightarrow> int \<Rightarrow> string \<Rightarrow> int \<Rightarrow> int \<Rightarrow> command \<Rightarrow> cmd_handler \<Rightarrow> world
      \<Rightarrow> (bool \<times> cmd_handler \<times> world) result" where
  "connect_next cfg self line rd wr nxt h w =
     (if getType nxt = EXE then Inl Bad_Cast
      else if nxt = UserPipeCommand then
        (if wr > 0
         then rbind (writeUserPipe cfg self wr line rd w) (\<lambda>(p, w'). Inr (False, h\<lparr>currPipe := p\<rparr>, w'))
         else Inr (False, h, w))
      else rbind (createPipe nxt h (kern w)) (\<lambda>(h', k). Inr (pipeError nxt, h', w\<lparr>kern := k\<rparr>)))"

subsection \<open>Children\<close>

text \<open>\<open>ExeCommand::run\<close>: without words, \<open>execvp\<close> gets a null pointer and \<open>m_argv[0]\<close> is read.\<close>

definition exe_run :: "int \<Rightarrow> string list \<Rightarrow> kernel \<Rightarrow> event" where
  "exe_run p args k =
     (case args of
        [] \<Rightarrow> Child_Crash p
      | prog # _ \<Rightarrow>
          if executable k prog then Exec p args (exec_table k)
          else Exec_Failed p (obj_at k 2) (''Unknown command: ['' @ prog @ ''].'' @ nl))"

definition child :: "int \<Rightarrow> bool \<Rightarrow> string list \<Rightarrow> pipe \<Rightarrow> pipe \<Rightarrow> kernel \<Rightarrow> event" where
  "child p pipeErr args prv cu k =
     exe_run p args (snd (pipe_write pipeErr cu (snd (pipe_read prv k))))"

definition spawn :: "bool \<Rightarrow> string list \<Rightarrow> cmd_handler \<Rightarrow> world \<Rightarrow> cmd_handler \<times> world" where
  "spawn pipeErr args h w =
     (let p = next_pid (kern w);
          w1 = emit (child p pipeErr args (prevPipe h) (currPipe h) (kern w))
                 (w\<lparr>kern := (kern w)\<lparr>next_pid := p + 1\<rparr>\<rparr>);
          (p0, p1) = pipelineProcessor h;
          w2 = (if p0 \<noteq> 0 then emit (Wait p0) w1 else w1)
      in (h\<lparr>pipelineProcessor := (p1, p)\<rparr>, w2))"

subsection \<open>A command line\<close>

fun run_commands ::
    "config \<Rightarrow> int \<Rightarrow> string \<Rightarrow> int \<Rightarrow> int \<Rightarrow> command list \<Rightarrow> cmd_handler \<Rightarrow> world
      \<Rightarrow> (cmd_handler \<times> world) result" where
  "run_commands cfg self line rd wr [] h w = Inr (h, w)"
| "run_commands cfg self line rd wr (ExeCommand args # rest) h w =
     (let h1 = h\<lparr>prevPipe := currPipe h\<rparr>; w1 = w\<lparr>kern := snd (closePipe (prevPipe h) (kern w))\<rparr>
      in rbind (case rest of
                  [] \<Rightarrow> Inr (False, h1, w1)
                | nxt # _ \<Rightarrow> connect_next cfg self line rd wr nxt h1 w1) (\<lambda>(pipeErr, h2, w2).
         case spawn pipeErr args h2 w2 of (h3, w3) \<Rightarrow> run_commands cfg self line rd wr rest h3 w3))"
| "run_commands cfg self line rd wr (_ # rest) h w = run_commands cfg self line rd wr rest h w"

definition finish_line :: "command list \<Rightarrow> cmd_handler \<Rightarrow> world \<Rightarrow> (cmd_handler \<times> world) result" where
  "finish_line cmds h w =
     (let (p, k1) = closePipe (prevPipe h) (kern w); h1 = h\<lparr>prevPipe := p\<rparr>; w1 = w\<lparr>kern := k1\<rparr>
      in if cmds = [] then Inl Out_Of_Bounds
         else if getType (last cmds) \<noteq> NUMBERED_PIPE then
           (let w2 = emit (Wait (snd (pipelineProcessor h1))) w1;
                (c, k2) = closePipe (currPipe h1) (kern w2)
            in Inr (h1\<lparr>currPipe := c\<rparr>, w2\<lparr>kern := k2\<rparr>))
         else Inr (h1, emit Await_EOF (w1\<lparr>kern := readEOF (eol h1) (kern w1)\<rparr>)))"

definition run_line ::
    "config \<Rightarrow> int \<Rightarrow> string \<Rightarrow> np_command_line \<Rightarrow> cmd_handler \<Rightarrow> world \<Rightarrow> (cmd_handler \<times> world) result" where
  "run_line cfg self line l h w =
     rbind (pipe_create (kern w)) (\<lambda>(e, k).
     let ring' = ring_next (numberPipeList h);
         h1 = h\<lparr>eol := e, numberPipeList := ring', currPipe := ring_front ring'\<rparr>;
         w1 = w\<lparr>kern := k\<rparr>
     in rbind (if readUid l > 0
               then rbind (readUserPipe cfg self (readUid l) line (writeUid l) w1) (\<lambda>(p, w').
                    Inr (h1\<lparr>currPipe := p\<rparr>, w'))
               else Inr (h1, w1)) (\<lambda>(h2, w2).
        rbind (run_commands cfg self line (readUid l) (writeUid l) (npCommands l) h2 w2) (\<lambda>(h3, w3).
        finish_line (npCommands l) h3 w3)))"

fun run_lines ::
    "config \<Rightarrow> int \<Rightarrow> string \<Rightarrow> np_command_line list \<Rightarrow> cmd_handler \<Rightarrow> world
      \<Rightarrow> (cmd_handler \<times> world) result" where
  "run_lines cfg self line [] h w = Inr (h, w)"
| "run_lines cfg self line (l # ls) h w =
     rbind (run_line cfg self line l h w) (\<lambda>(h', w'). run_lines cfg self line ls h' w')"

subsection \<open>One turn of the shell\<close>

definition runShell :: "config \<Rightarrow> int \<Rightarrow> cmd_handler \<Rightarrow> world \<Rightarrow> (cmd_handler \<times> world) result" where
  "runShell cfg fd h w =
     (case getServingUserID fd w of (self, w1) \<Rightarrow>
        rbind (getline_cin w1) (\<lambda>(line, w2).
        rbind (parseCommand cfg line (h\<lparr>shell_fd := fd\<rparr>) w2) (\<lambda>(ls, h1, w3).
        rbind (run_lines cfg self line ls h1 w3) (\<lambda>(h2, w4).
        Inr (h2, if running h2 \<and> fd = 0 then cout ''% '' w4 else w4)))))"

end
