(* ===== verification/Parser_Facts.thy ===== *)
theory Parser_Facts
  imports Cmd_Parser
begin

text \<open>
  What \<open>parseCommand\<close> guarantees to \<open>runShell\<close>: the shape of the command lines it hands over, and
  that it reads back any sequence of command lines from its textual form.
\<close>

subsection \<open>Shape of the command lines\<close>

text \<open>Commands and connectors alternate, and a numbered pipe only stands at the end.\<close>

fun wf_commands :: "command list \<Rightarrow> bool" where
  "wf_commands [] \<longleftrightarrow> True"
| "wf_commands [c] \<longleftrightarrow> getType c = EXE"
| "wf_commands (c # d # cs) \<longleftrightarrow>
     getType c = EXE \<and> getType d \<noteq> EXE \<and> (getType d = NUMBERED_PIPE \<longrightarrow> cs = []) \<and> wf_commands cs"

definition wf_line :: "np_command_line \<Rightarrow> bool" where
  "wf_line l \<longleftrightarrow> npCommands l \<noteq> [] \<and> wf_commands (npCommands l)"

text \<open>An unfinished line: pairs of a command and a connector that is not a numbered pipe.\<close>

fun paired :: "command list \<Rightarrow> bool" where
  "paired [] \<longleftrightarrow> True"
| "paired [c] \<longleftrightarrow> False"
| "paired (c # d # cs) \<longleftrightarrow>
     getType c = EXE \<and> getType d \<noteq> EXE \<and> getType d \<noteq> NUMBERED_PIPE \<and> paired cs"

lemma getType_EXE: "getType c = EXE \<longleftrightarrow> (\<exists>args. c = ExeCommand args)"
  by (cases c) auto

lemma paired_append_wf: "paired cs \<Longrightarrow> wf_commands ds \<Longrightarrow> wf_commands (cs @ ds)"
  by (induction cs rule: paired.induct) auto

lemma paired_append: "paired cs \<Longrightarrow> paired ds \<Longrightarrow> paired (cs @ ds)"
  by (induction cs rule: paired.induct) auto

definition parse_ok :: "parse_state \<Rightarrow> bool" where
  "parse_ok st \<longleftrightarrow>
     (\<forall>l \<in> set (queue st). wf_line l \<and> getType (last (npCommands l)) = NUMBERED_PIPE) \<and>
     paired (npCommands (cur st))"

lemma npCommands_add [simp]: "npCommands (addCommand c l) = npCommands l @ [c]"
  by (simp add: addCommand_def)

lemma npCommands_moved [simp]: "npCommands (moved_from l) = []"
  by (simp add: moved_from_def)

lemma parse_ok_push_pair:
  assumes "parse_ok st" and "getType c \<noteq> EXE" and "getType c \<noteq> NUMBERED_PIPE"
  shows "parse_ok (push c (push_exe st))"
  using assms by (auto simp: parse_ok_def intro!: paired_append)

lemma parse_ok_numbered: "parse_ok st \<Longrightarrow> parse_ok (end_line (push (NumberedPipeCommand n e) (push_exe st)))"
  by (auto simp: parse_ok_def wf_line_def intro!: paired_append_wf)

lemma parse_token_ok:
  assumes "parse_ok st" and "parse_token cfg self tok st = Inr st'"
  shows "parse_ok st'"
proof -
  have upd: "parse_ok (st\<lparr>iss := s\<rparr>) = parse_ok st" "parse_ok (st\<lparr>wd := w\<rparr>) = parse_ok st"
    "parse_ok (st\<lparr>sh := h, wd := w\<rparr>) = parse_ok st" "parse_ok (st\<lparr>iss := s, wd := w\<rparr>) = parse_ok st"
    "parse_ok (st\<lparr>argv := a\<rparr>) = parse_ok st"
    "parse_ok (st\<lparr>cur := (cur st)\<lparr>writeUid := i\<rparr>\<rparr>) = parse_ok st"
    "parse_ok (st\<lparr>cur := (cur st)\<lparr>readUid := i\<rparr>\<rparr>) = parse_ok st" for s w h a i
    by (simp_all add: parse_ok_def)
  show ?thesis
    using assms
    by (auto simp: upd parse_token_def parse_exit_def parse_printenv_def parse_setenv_def
          parse_tell_def parse_yell_def parse_name_def parse_redirect_def parse_numbered_def
          parse_write_user_def parse_read_user_def rbind_eq_Inr_iff Let_def
        split: if_splits prod.splits option.splits
        intro!: parse_ok_push_pair parse_ok_numbered)
qed

lemma parse_loop_ok: "parse_loop cfg self st = Inr st' \<Longrightarrow> parse_ok st \<Longrightarrow> parse_ok st'"
proof (induction cfg self st rule: parse_loop.induct)
  case (1 cfg self st)
  show ?case
  proof (cases "get_word (iss st)")
    case (Pair o' s)
    show ?thesis
    proof (cases o')
      case None
      with Pair 1 show ?thesis by (auto simp: parse_loop.simps [of cfg self st] parse_ok_def)
    next
      case (Some tok)
      with Pair "1.prems"(1) obtain st1 where
        st1: "parse_token cfg self tok (st\<lparr>iss := s\<rparr>) = Inr st1" "parse_loop cfg self st1 = Inr st'"
        by (auto simp: parse_loop.simps [of cfg self st])
      have "parse_ok (st\<lparr>iss := s\<rparr>)" using "1.prems"(2) by (simp add: parse_ok_def)
      then have "parse_ok st1" using st1(1) by (rule parse_token_ok)
      with Some Pair st1 "1.IH" show ?thesis by auto
    qed
  qed
qed

lemma parseCommand_wf:
  assumes "parseCommand cfg command h w = Inr (ls, h', w')"
  shows "\<forall>l \<in> set ls. wf_line l"
    and "\<forall>l \<in> set (butlast ls). getType (last (npCommands l)) = NUMBERED_PIPE"
proof -
  obtain self w1 where id: "getServingUserID (shell_fd h) w = (self, w1)" by force
  let ?st = "\<lparr>iss = istringstream command, queue = [], cur = NpCommandLine, argv = [],
              sh = h, wd = w1\<rparr>"
  let ?l = "\<lambda>st. if argv st \<noteq> [] then addCommand (ExeCommand (argv st)) (cur st) else cur st"
  from assms id obtain st where st: "parse_loop cfg self ?st = Inr st"
    and ls: "ls = (if npCommands (?l st) \<noteq> [] then queue st @ [?l st] else queue st)"
    by (auto simp: parseCommand_def Let_def rbind_eq_Inr_iff split: if_splits)
  have "parse_ok ?st" by (simp add: parse_ok_def NpCommandLine_def)
  then have ok: "parse_ok st" using st parse_loop_ok by blast
  moreover have "wf_commands (npCommands (?l st))"
  proof (cases "argv st = []")
    case True
    then show ?thesis
      using ok paired_append_wf [of "npCommands (cur st)" "[]"] by (simp add: parse_ok_def)
  next
    case False
    then show ?thesis
      using ok by (auto simp: parse_ok_def intro!: paired_append_wf)
  qed
  ultimately show "\<forall>l \<in> set ls. wf_line l"
    using ls by (auto simp: parse_ok_def wf_line_def)
  show "\<forall>l \<in> set (butlast ls). getType (last (npCommands l)) = NUMBERED_PIPE"
    using ls ok by (auto simp: parse_ok_def dest: in_set_butlastD)
qed

subsection \<open>Reading tokens\<close>

definition spaced :: "string list \<Rightarrow> string" where
  "spaced ts = concat (map (\<lambda>t. CHR '' '' # t) ts)"

lemma spaced_Nil [simp]: "spaced [] = []"
  by (simp add: spaced_def)

lemma spaced_Cons: "spaced (t # ts) = CHR '' '' # t @ spaced ts"
  by (simp add: spaced_def)

abbreviation stream :: "string list \<Rightarrow> istream" where
  "stream ts \<equiv> \<lparr>unread = spaced ts, failed = False\<rparr>"

lemma get_word_spaced: "is_word t \<Longrightarrow> get_word (stream (t # ts)) = (Some t, stream ts)"
proof -
  assume t: "is_word t"
  have "spaced ts = [] \<or> isspace (hd (spaced ts))"
    by (cases ts) (simp_all add: spaced_Cons isspace_def code_def)
  then show ?thesis
    using t by (simp add: spaced_Cons get_word_skip isspace_def code_def get_word_prefix)
qed

lemma parse_loop_end: "iss st = stream [] \<Longrightarrow> parse_loop cfg self st = Inr (st\<lparr>iss := at_end\<rparr>)"
  by (subst parse_loop.simps) simp

lemma parse_loop_token:
  "iss st = stream (t # ts) \<Longrightarrow> is_word t \<Longrightarrow>
     parse_loop cfg self st = rbind (parse_token cfg self t (st\<lparr>iss := stream ts\<rparr>)) (parse_loop cfg self)"
  by (subst parse_loop.simps) (simp add: get_word_spaced)

subsection \<open>The textual form of command lines\<close>

definition builtins :: "string list" where
  "builtins = [''exit'', ''printenv'', ''setenv'', ''who'', ''tell'', ''yell'', ''name'']"

text \<open>A word the parser takes as part of a command.\<close>

definition plain :: "string \<Rightarrow> bool" where
  "plain t \<longleftrightarrow> is_word t \<and> t \<notin> set builtins \<and> hd t \<notin> {CHR ''|'', CHR ''!'', CHR ''>'', CHR ''<''}"

fun command_text :: "command \<Rightarrow> string list" where
  "command_text (ExeCommand args) = args"
| "command_text PipeCommand = [''|'']"
| "command_text (FileCommand f) = [''>'', f]"
| "command_text (NumberedPipeCommand n e) = [(if e then CHR ''!'' else CHR ''|'') # nat_text (nat n)]"
| "command_text UserPipeCommand = []"

fun printable :: "command \<Rightarrow> bool" where
  "printable (ExeCommand args) \<longleftrightarrow> args \<noteq> [] \<and> (\<forall>a \<in> set args. plain a)"
| "printable PipeCommand \<longleftrightarrow> True"
| "printable (FileCommand f) \<longleftrightarrow> is_word f"
| "printable (NumberedPipeCommand n e) \<longleftrightarrow> 0 \<le> n \<and> n \<le> int_max"
| "printable UserPipeCommand \<longleftrightarrow> False"

definition commands_text :: "command list \<Rightarrow> string list" where
  "commands_text cs = concat (map command_text cs)"

lemma plain_token:
  assumes "plain t"
  shows "parse_token cfg self t st = Inr (st\<lparr>argv := argv st @ [t]\<rparr>)"
proof -
  have "t \<noteq> ''|''" "t \<noteq> ''>''" using assms by (auto simp: plain_def)
  with assms show ?thesis by (simp add: plain_def builtins_def parse_token_def)
qed

lemma parse_plain_words:
  "iss st = stream (as @ ts) \<Longrightarrow> (\<forall>a \<in> set as. plain a) \<Longrightarrow>
     parse_loop cfg self st = parse_loop cfg self (st\<lparr>iss := stream ts, argv := argv st @ as\<rparr>)"
proof (induction as arbitrary: st)
  case Nil
  then have "st = st\<lparr>iss := stream ts, argv := argv st @ []\<rparr>" by simp
  then show ?case by (rule arg_cong)
next
  case (Cons a as)
  let ?st = "st\<lparr>iss := stream (as @ ts), argv := argv st @ [a]\<rparr>"
  have "is_word a" using Cons.prems by (simp add: plain_def)
  then have "parse_loop cfg self st = parse_loop cfg self ?st"
    using Cons.prems plain_token [of a cfg self "st\<lparr>iss := stream (as @ ts)\<rparr>"]
    by (simp add: parse_loop_token [of st a "as @ ts"])
  also have "\<dots> = parse_loop cfg self (?st\<lparr>iss := stream ts, argv := argv ?st @ as\<rparr>)"
    using Cons.prems by (intro Cons.IH) auto
  finally show ?case by simp
qed

lemma isdigit_facts:
  assumes "isdigit c"
  shows "c \<noteq> CHR ''|''" "c \<noteq> CHR ''!''" "c \<noteq> CHR ''>''" "c \<noteq> CHR ''<''" "\<not> isspace c"
  using assms by (auto simp: isdigit_def isspace_def code_def)

lemma is_word_prefixed_number:
  "\<not> isspace c \<Longrightarrow> is_word (c # nat_text n)"
  by (auto simp: is_word_def dest: nat_text_digits isdigit_not_space)

lemma number_token_not_builtin: "c # nat_text n \<notin> set builtins"
proof
  assume "c # nat_text n \<in> set builtins"
  then have "isdigit (hd (nat_text n))" "nat_text n \<in> set (map tl builtins)"
    by (auto simp: nat_text_hd_digit builtins_def)
  then show False by (auto simp: builtins_def isdigit_def code_def)
qed

lemma numbered_token:
  assumes "0 \<le> n" "n \<le> int_max"
  shows "parse_token cfg self ((if e then CHR ''!'' else CHR ''|'') # nat_text (nat n)) st =
     Inr (end_line (push (NumberedPipeCommand n e) (push_exe st)))"
proof -
  let ?t = "(if e then CHR ''!'' else CHR ''|'') # nat_text (nat n)"
  have "atoi (nat_text (nat n)) = n" using assms by (simp add: atoi_nat_text)
  moreover have "?t \<noteq> ''|''" "?t \<noteq> ''>''" by auto
  ultimately show ?thesis
    using number_token_not_builtin [of "if e then CHR ''!'' else CHR ''|''" "nat n"]
    by (auto simp: parse_token_def parse_numbered_def builtins_def)
qed

lemma parse_loop_numbered:
  assumes "iss st = stream (command_text (NumberedPipeCommand n e) @ ts)" "0 \<le> n" "n \<le> int_max"
  shows "parse_loop cfg self st =
     parse_loop cfg self (end_line (push (NumberedPipeCommand n e) (push_exe (st\<lparr>iss := stream ts\<rparr>))))"
proof -
  have "\<not> isspace (if e then CHR ''!'' else CHR ''|'')" by (simp add: isspace_def code_def)
  from is_word_prefixed_number [OF this, of "nat n"] show ?thesis
    using assms(1) numbered_token [OF assms(2,3), of cfg self e "st\<lparr>iss := stream ts\<rparr>"]
    by (simp add: parse_loop_token)
qed

lemma parse_loop_connector:
  assumes "iss st = stream (command_text c @ ts)" "printable c" "getType c \<noteq> EXE"
    and "getType c \<noteq> NUMBERED_PIPE"
  shows "parse_loop cfg self st = parse_loop cfg self (push c (push_exe (st\<lparr>iss := stream ts\<rparr>)))"
proof (cases c)
  case PipeCommand
  have "is_word ''|''" by (simp add: is_word_def isspace_def code_def)
  then show ?thesis using assms(1) by (simp add: PipeCommand parse_loop_token parse_token_def)
next
  case (FileCommand f)
  have w: "is_word ''>''" by (simp add: is_word_def isspace_def code_def)
  have f: "get_word_or_empty (stream (f # ts)) = (f, stream ts)"
    using assms(2) FileCommand by (simp add: get_word_or_empty_def get_word_spaced)
  show ?thesis
    using assms(1)
    by (simp add: FileCommand parse_loop_token [OF _ w] parse_token_def parse_redirect_def f)
qed (use assms in auto)

text \<open>Reading the pairs at the start of a line appends them to the current line.\<close>

lemma parse_pairs:
  "iss st = stream (commands_text cs @ ts) \<Longrightarrow> paired cs \<Longrightarrow> (\<forall>c \<in> set cs. printable c) \<Longrightarrow>
     argv st = [] \<Longrightarrow>
     parse_loop cfg self st =
     parse_loop cfg self (st\<lparr>iss := stream ts, cur := (cur st)\<lparr>npCommands := npCommands (cur st) @ cs\<rparr>\<rparr>)"
proof (induction cs arbitrary: st rule: paired.induct)
  case 1
  then have "st = st\<lparr>iss := stream ts, cur := (cur st)\<lparr>npCommands := npCommands (cur st) @ []\<rparr>\<rparr>"
    by (simp add: commands_text_def)
  then show ?case by (rule arg_cong)
next
  case (2 c)
  then show ?case by simp
next
  case (3 c d cs)
  then obtain args where c: "c = ExeCommand args" "\<forall>a \<in> set args. plain a"
    by (auto simp: getType_EXE)
  let ?ts = "commands_text cs @ ts"
  let ?st1 = "st\<lparr>iss := stream (command_text d @ ?ts), argv := args\<rparr>"
  let ?st2 = "st\<lparr>iss := stream ?ts, cur := (cur st)\<lparr>npCommands := npCommands (cur st) @ [c, d]\<rparr>\<rparr>"
  have "parse_loop cfg self st = parse_loop cfg self ?st1"
    using c 3(2,5) parse_plain_words [of st args "command_text d @ ?ts" cfg self]
    by (simp add: commands_text_def)
  also have "\<dots> = parse_loop cfg self (push d (push_exe (?st1\<lparr>iss := stream ?ts\<rparr>)))"
    using 3 by (intro parse_loop_connector) auto
  also have "push d (push_exe (?st1\<lparr>iss := stream ?ts\<rparr>)) = ?st2"
    using 3(5) c by (cases st) (simp add: push_def push_exe_def addCommand_def)
  also have "parse_loop cfg self ?st2 = parse_loop cfg self (?st2\<lparr>iss := stream ts,
      cur := (cur ?st2)\<lparr>npCommands := npCommands (cur ?st2) @ cs\<rparr>\<rparr>)"
    using 3 by (intro "3.IH") auto
  finally show ?case by simp
qed

subsection \<open>Printing and reading back\<close>

lemma wf_commands_split:
  "wf_commands cs \<Longrightarrow>
     paired cs \<or> (\<exists>ps args. cs = ps @ [ExeCommand args] \<and> paired ps) \<or>
     (\<exists>ps args n e. cs = ps @ [ExeCommand args, NumberedPipeCommand n e] \<and> paired ps)"
proof (induction cs rule: wf_commands.induct)
  case (2 c)
  then show ?case by (auto simp: getType_EXE intro: exI [of _ "[]"])
next
  case (3 c d cs)
  then obtain args where c: "c = ExeCommand args" by (auto simp: getType_EXE)
  show ?case
  proof (cases "getType d = NUMBERED_PIPE")
    case True
    then obtain n e where "d = NumberedPipeCommand n e" by (cases d) auto
    with True c 3(2) have "c # d # cs = [] @ [ExeCommand args, NumberedPipeCommand n e]" by simp
    then show ?thesis by (metis paired.simps(1))
  next
    case False
    with 3 have p: "paired (c # d # ps) \<longleftrightarrow> paired ps" for ps by simp
    from 3 consider "paired cs" | ps args' where "cs = ps @ [ExeCommand args']" "paired ps"
      | ps args' n e where "cs = ps @ [ExeCommand args', NumberedPipeCommand n e]" "paired ps"
      by auto
    then show ?thesis
      by cases (metis p append_Cons)+
  qed
qed simp

lemma numbered_split:
  assumes "wf_commands cs" "cs \<noteq> []" "getType (last cs) = NUMBERED_PIPE"
  obtains ps args n e where "cs = ps @ [ExeCommand args, NumberedPipeCommand n e]" "paired ps"
proof -
  have "paired cs \<Longrightarrow> cs \<noteq> [] \<Longrightarrow> getType (last cs) \<noteq> NUMBERED_PIPE" for cs
    by (induction cs rule: paired.induct) auto
  with assms wf_commands_split [OF assms(1)] that show ?thesis by fastforce
qed

definition plain_line :: "command list \<Rightarrow> np_command_line" where
  "plain_line cs = NpCommandLine\<lparr>npCommands := cs\<rparr>"

lemma plain_line_sel [simp]:
  "npCommands (plain_line cs) = cs" "readUid (plain_line cs) = 0" "writeUid (plain_line cs) = 0"
  by (simp_all add: plain_line_def NpCommandLine_def)

lemma plain_line_Nil: "plain_line [] = NpCommandLine"
  by (simp add: plain_line_def NpCommandLine_def)

lemma plain_line_ops [simp]:
  "addCommand c (plain_line cs) = plain_line (cs @ [c])" "moved_from (plain_line cs) = plain_line []"
  "(plain_line cs)\<lparr>npCommands := ds\<rparr> = plain_line ds"
  by (simp_all add: plain_line_def addCommand_def moved_from_def NpCommandLine_def)

text \<open>The end of \<open>parseCommand\<close>: what is left becomes the last command line.\<close>

definition collected :: "parse_state \<Rightarrow> np_command_line list" where
  "collected st =
     (let l = (if argv st \<noteq> [] then addCommand (ExeCommand (argv st)) (cur st) else cur st)
      in if npCommands l \<noteq> [] then queue st @ [l] else queue st)"

lemma parse_numbered_line:
  assumes "iss st = stream (commands_text cs @ ts)" "wf_commands cs" "cs \<noteq> []"
    and "getType (last cs) = NUMBERED_PIPE" "\<forall>c \<in> set cs. printable c"
    and "argv st = []" "cur st = plain_line []"
  shows "parse_loop cfg self st =
     parse_loop cfg self (st\<lparr>iss := stream ts, queue := queue st @ [plain_line cs]\<rparr>)"
proof -
  obtain ps args n e where cs: "cs = ps @ [ExeCommand args, NumberedPipeCommand n e]" "paired ps"
    using numbered_split assms(2-4) by metis
  let ?num = "command_text (NumberedPipeCommand n e) @ ts"
  let ?st1 = "st\<lparr>iss := stream (args @ ?num), cur := plain_line ps\<rparr>"
  let ?st2 = "?st1\<lparr>iss := stream ?num, argv := args\<rparr>"
  have "parse_loop cfg self st = parse_loop cfg self ?st1"
    using parse_pairs [of st ps "args @ ?num"] assms cs by (simp add: commands_text_def)
  also have "\<dots> = parse_loop cfg self ?st2"
    using parse_plain_words [of ?st1 args ?num] assms cs by simp
  also have "\<dots> = parse_loop cfg self
      (end_line (push (NumberedPipeCommand n e) (push_exe (?st2\<lparr>iss := stream ts\<rparr>))))"
    using assms(5) cs by (intro parse_loop_numbered) auto
  also have "end_line (push (NumberedPipeCommand n e) (push_exe (?st2\<lparr>iss := stream ts\<rparr>))) =
      st\<lparr>iss := stream ts, queue := queue st @ [plain_line cs]\<rparr>"
    using assms(6,7) cs(1) by (cases st) (simp add: end_line_def push_def push_exe_def)
  finally show ?thesis .
qed

lemma parse_last_line:
  assumes "iss st = stream (commands_text cs)" "wf_commands cs" "cs \<noteq> []"
    and "\<forall>c \<in> set cs. printable c" "argv st = []" "cur st = plain_line []"
  shows "rbind (parse_loop cfg self st) (\<lambda>st'. Inr (collected st', sh st', wd st')) =
     Inr (queue st @ [plain_line cs], sh st, wd st)"
proof (cases "getType (last cs) = NUMBERED_PIPE")
  case True
  then show ?thesis
    using parse_numbered_line [of st cs "[]"] assms
    by (simp add: parse_loop_end collected_def)
next
  case False
  consider "paired cs" | ps args where "cs = ps @ [ExeCommand args]" "paired ps"
    using wf_commands_split [OF assms(2)] False by fastforce
  then show ?thesis
  proof cases
    case 1
    then show ?thesis
      using parse_pairs [of st cs "[]"] assms by (simp add: parse_loop_end collected_def)
  next
    case 2
    let ?st1 = "st\<lparr>iss := stream (args @ []), cur := plain_line ps\<rparr>"
    have "parse_loop cfg self st = parse_loop cfg self ?st1"
      using parse_pairs [of st ps args] assms 2 by (simp add: commands_text_def)
    also have "\<dots> = parse_loop cfg self (?st1\<lparr>iss := stream [], argv := args\<rparr>)"
      using parse_plain_words [of ?st1 args "[]"] assms 2 by simp
    finally show ?thesis
      using 2 assms(4) by (simp add: parse_loop_end collected_def)
  qed
qed

lemma parse_lines:
  "iss st = stream (concat (map commands_text css)) \<Longrightarrow>
     (\<forall>cs \<in> set css. cs \<noteq> [] \<and> wf_commands cs \<and> (\<forall>c \<in> set cs. printable c)) \<Longrightarrow>
     (\<forall>cs \<in> set (butlast css). getType (last cs) = NUMBERED_PIPE) \<Longrightarrow>
     argv st = [] \<Longrightarrow> cur st = plain_line [] \<Longrightarrow>
     rbind (parse_loop cfg self st) (\<lambda>st'. Inr (collected st', sh st', wd st')) =
     Inr (queue st @ map plain_line css, sh st, wd st)"
proof (induction css arbitrary: st)
  case Nil
  then show ?case by (simp add: parse_loop_end collected_def)
next
  case (Cons cs css)
  show ?case
  proof (cases "css = []")
    case True
    with Cons.prems show ?thesis using parse_last_line [of st cs] by simp
  next
    case False
    let ?st = "st\<lparr>iss := stream (concat (map commands_text css)), queue := queue st @ [plain_line cs]\<rparr>"
    have "parse_loop cfg self st = parse_loop cfg self ?st"
      using Cons.prems False by (intro parse_numbered_line) auto
    moreover have "rbind (parse_loop cfg self ?st) (\<lambda>st'. Inr (collected st', sh st', wd st')) =
        Inr (queue ?st @ map plain_line css, sh ?st, wd ?st)"
      using Cons.prems False by (intro Cons.IH) auto
    ultimately show ?thesis by simp
  qed
qed

definition registered :: "int \<Rightarrow> world \<Rightarrow> bool" where
  "registered fd w \<longleftrightarrow> sm_find (sockID_table w) fd \<noteq> None"

lemma getServingUserID_hit:
  "sm_find (sockID_table w) fd = Some i \<Longrightarrow> getServingUserID fd w = (i, w)"
  by (simp add: getServingUserID_def sm_index_def)

lemma getServingUserID_registered: "registered fd w \<Longrightarrow> \<exists>i. getServingUserID fd w = (i, w)"
  by (auto simp: registered_def getServingUserID_hit)

lemma parseCommand_collected:
  assumes "getServingUserID (shell_fd h) w = (self, w1)"
  shows "parseCommand cfg command h w =
     rbind (parse_loop cfg self \<lparr>iss = istringstream command, queue = [], cur = plain_line [],
                                 argv = [], sh = h, wd = w1\<rparr>)
       (\<lambda>st. Inr (collected st, sh st, wd st))"
  by (simp add: parseCommand_def assms collected_def plain_line_Nil Let_def)

lemma parse_printed:
  assumes "registered (shell_fd h) w"
    and "\<forall>cs \<in> set css. cs \<noteq> [] \<and> wf_commands cs \<and> (\<forall>c \<in> set cs. printable c)"
    and "\<forall>cs \<in> set (butlast css). getType (last cs) = NUMBERED_PIPE"
  shows "parseCommand cfg (spaced (concat (map commands_text css))) h w =
           Inr (map plain_line css, h, w)"
proof -
  obtain i where i: "getServingUserID (shell_fd h) w = (i, w)"
    using getServingUserID_registered [OF assms(1)] by blast
  show ?thesis
    unfolding parseCommand_collected [OF i] istringstream_def
    by (subst parse_lines [where css = css]) (use assms(2,3) in auto)
qed

end
