(* ===== verification/Shell_Facts.thy ===== *)
theory Shell_Facts
  imports Shell_Run Parser_Facts
begin

text \<open>
  What \<open>runShell\<close> does with a pipeline: which descriptors every command gets, what remains open in
  the shell afterwards, and how a numbered pipe reaches the command line it is meant for.
  Descriptor tables are written as a base table with the pipes currently held on top of it.
\<close>

subsection \<open>Tables with pipes\<close>

type_synonym held = "(pipe \<times> nat) option"

fun with_pipe :: "(int \<Rightarrow> (fobj \<times> bool) option) \<Rightarrow> held \<Rightarrow> int \<Rightarrow> (fobj \<times> bool) option" where
  "with_pipe B None = B"
| "with_pipe B (Some (p, q)) = B(fd_in p \<mapsto> (PipeR q, True), fd_out p \<mapsto> (PipeW q, True))"

fun pipe_of :: "held \<Rightarrow> pipe" where
  "pipe_of None = Pipe"
| "pipe_of (Some (p, _)) = p"

fun fresh_in :: "(int \<Rightarrow> (fobj \<times> bool) option) \<Rightarrow> held \<Rightarrow> bool" where
  "fresh_in B None \<longleftrightarrow> True"
| "fresh_in B (Some (p, _)) \<longleftrightarrow>
     0 \<le> fd_in p \<and> 0 \<le> fd_out p \<and> fd_in p \<noteq> fd_out p \<and> B (fd_in p) = None \<and> B (fd_out p) = None"

text \<open>The base: standard descriptors open and kept over \<open>exec\<close>, nothing below 0.\<close>

definition base_ok :: "(int \<Rightarrow> (fobj \<times> bool) option) \<Rightarrow> bool" where
  "base_ok B \<longleftrightarrow> (\<forall>i < 0. B i = None) \<and> (\<forall>i \<in> {0, 1, 2}. \<exists>ob. B i = Some (ob, False))"

definition kept :: "(int \<Rightarrow> (fobj \<times> bool) option) \<Rightarrow> int \<Rightarrow> fobj option" where
  "kept B i = (case B i of Some (ob, False) \<Rightarrow> Some ob | _ \<Rightarrow> None)"

lemma exec_table_kept: "exec_table k = kept (fds k)"
  by (rule ext) (simp add: exec_table_def kept_def)

lemma base_ok_with_pipe: "base_ok B \<Longrightarrow> fresh_in B y \<Longrightarrow> base_ok (with_pipe B y)"
  by (cases y) (auto simp: base_ok_def)

lemma fresh_swap:
  assumes "fresh_in B x" "fresh_in (with_pipe B x) y"
  shows "fresh_in B y" "fresh_in (with_pipe B y) x"
  using assms by (cases x; cases y; force split: if_splits)+

lemma kept_with_pipe: "fresh_in B y \<Longrightarrow> kept (with_pipe B y) = kept B"
  by (cases y) (auto simp: kept_def fun_eq_iff)

lemma close_held:
  assumes "base_ok B" "fresh_in B x"
  shows "(\<lambda>i. if i \<noteq> -1 \<and> (i = fd_in (pipe_of x) \<or> i = fd_out (pipe_of x)) then None
              else with_pipe B x i) = B"
  using assms by (cases x) (auto simp: fun_eq_iff Pipe_def)

lemma fds_close_held:
  assumes "base_ok B" "fresh_in B x" "fds k = with_pipe B x"
  shows "fds (snd (closePipe (pipe_of x) k)) = B"
proof -
  have "fds (snd (closePipe (pipe_of x) k)) =
      (\<lambda>i. if i \<noteq> -1 \<and> (i = fd_in (pipe_of x) \<or> i = fd_out (pipe_of x)) then None
           else with_pipe B x i)"
    unfolding assms(3) [symmetric] by (simp add: closePipe_kernel)
  then show ?thesis using close_held [OF assms(1,2)] by simp
qed

lemma with_pipe_swap:
  "fresh_in B x \<Longrightarrow> fresh_in (with_pipe B x) y \<Longrightarrow>
     with_pipe (with_pipe B x) y = with_pipe (with_pipe B y) x"
  by (cases x; cases y) (auto simp: fun_eq_iff split: if_splits)

lemma fds_close_under:
  assumes "base_ok B" "fresh_in B x" "fresh_in (with_pipe B x) y"
    and "fds k = with_pipe (with_pipe B x) y"
  shows "fds (snd (closePipe (pipe_of x) k)) = with_pipe B y"
  using assms fresh_swap [OF assms(2,3)]
  by (intro fds_close_held) (auto simp: with_pipe_swap base_ok_with_pipe)

lemma closePipe_absent:
  assumes "\<And>i. i \<noteq> -1 \<Longrightarrow> i = fd_in p \<or> i = fd_out p \<Longrightarrow> fds k i = None"
  shows "snd (closePipe p k) = k"
  using assms by (cases k) (auto simp: closePipe_kernel fun_eq_iff)

lemma closePipe_frame [frame_simps]:
  "next_pipe (snd (closePipe p k)) = next_pipe k" "nofile (snd (closePipe p k)) = nofile k"
  "next_pid (snd (closePipe p k)) = next_pid k" "executable (snd (closePipe p k)) = executable k"
  by (simp_all add: closePipe_kernel)

definition room_in :: "nat \<Rightarrow> (int \<Rightarrow> (fobj \<times> bool) option) \<Rightarrow> int set" where
  "room_in n B = {i. 0 \<le> i \<and> i < int n \<and> B i = None}"

lemma room_of_in: "room_of k = room_in (nofile k) (fds k)"
  by (simp add: room_of_def room_in_def)

lemma finite_room_in [simp]: "finite (room_in n B)"
  by (rule finite_subset [of _ "{0..<int n}"]) (auto simp: room_in_def)

lemma card_room_with_pipe: "card (room_in n B) \<le> card (room_in n (with_pipe B y)) + 2"
proof (cases y)
  case (Some pq)
  then obtain p q where y: "y = Some (p, q)" by force
  have "room_in n B - {fd_in p, fd_out p} \<subseteq> room_in n (with_pipe B y)"
    by (auto simp: y room_in_def)
  then have "card (room_in n B - {fd_in p, fd_out p}) \<le> card (room_in n (with_pipe B y))"
    by (rule card_mono [rotated]) simp
  moreover have "card (room_in n B) - card {fd_in p, fd_out p} \<le> card (room_in n B - {fd_in p, fd_out p})"
    by (rule diff_card_le_card_Diff) simp
  moreover have "card {fd_in p, fd_out p} \<le> 2" by (simp add: card_insert_if)
  ultimately show ?thesis by linarith
qed simp

text \<open>Creating a pipe on top of a table.\<close>

lemma create_held:
  assumes "fds k = B" "2 \<le> card (room_in (nofile k) B)"
  obtains p k' where "pipe_create k = Inr (p, k')" and "fresh_in B (Some (p, next_pipe k))"
    and "fds k' = with_pipe B (Some (p, next_pipe k))" and "next_pipe k' = Suc (next_pipe k)"
    and "nofile k' = nofile k" and "executable k' = executable k"
    and "fd_in p \<in> room_in (nofile k) B" and "fd_out p \<in> room_in (nofile k) B"
proof -
  from assms have "2 \<le> card (room_of k)" by (simp add: room_of_in)
  then obtain r w k' where *: "pipe_create k = Inr (\<lparr>fd_in = r, fd_out = w\<rparr>, k')"
    "r \<in> room_of k" "w \<in> room_of k" "r \<noteq> w"
    "fds k' = (fds k)(r \<mapsto> (PipeR (next_pipe k), True), w \<mapsto> (PipeW (next_pipe k), True))"
    and k': "k' = k\<lparr>fds := fds k', next_pipe := Suc (next_pipe k)\<rparr>"
    by (rule pipe_create_ok)
  have "next_pipe k' = Suc (next_pipe k)" "nofile k' = nofile k" "executable k' = executable k"
    by (subst k', simp)+
  with * assms(1) show ?thesis
    by (intro that [of "\<lparr>fd_in = r, fd_out = w\<rparr>" k']) (auto simp: room_of_def room_in_def)
qed

subsection \<open>What a child sees\<close>

fun input_of :: "(int \<Rightarrow> (fobj \<times> bool) option) \<Rightarrow> held \<Rightarrow> fobj option" where
  "input_of B None = kept B 0"
| "input_of B (Some (_, q)) = Some (PipeR q)"

fun output_of :: "(int \<Rightarrow> (fobj \<times> bool) option) \<Rightarrow> held \<Rightarrow> fobj option" where
  "output_of B None = kept B 1"
| "output_of B (Some (_, q)) = Some (PipeW q)"

lemma fds_dup2:
  "fds (k_dup2 i j k) = (case fds k i of None \<Rightarrow> fds k
     | Some (ob, _) \<Rightarrow> if i = j \<or> j < 0 \<or> int (nofile k) \<le> j then fds k else (fds k)(j \<mapsto> (ob, False)))"
  by (simp add: k_dup2_def split: option.splits)

text \<open>After \<open>Pipe::read\<close>: the input is in place and the input pipe is gone.\<close>

definition put :: "int \<Rightarrow> fobj option \<Rightarrow> (int \<Rightarrow> (fobj \<times> bool) option) \<Rightarrow> int \<Rightarrow> (fobj \<times> bool) option" where
  "put j ob B = (case ob of None \<Rightarrow> B | Some x \<Rightarrow> B(j \<mapsto> (x, False)))"

lemma base_kept: "base_ok B \<Longrightarrow> i \<in> {0, 1, 2} \<Longrightarrow> \<exists>ob. kept B i = Some ob \<and> B i = Some (ob, False)"
  by (fastforce simp: base_ok_def kept_def)

lemma put_kept_same: "kept B j = Some ob \<Longrightarrow> put j (Some ob) B = B"
  by (auto simp: put_def kept_def fun_eq_iff split: option.splits bool.splits prod.splits)

lemma kept_put: "kept (put j ob B) = (case ob of None \<Rightarrow> kept B | Some x \<Rightarrow> (kept B)(j \<mapsto> x))"
  by (auto simp: put_def kept_def fun_eq_iff split: option.splits)

lemma base_ok_put: "base_ok B \<Longrightarrow> 0 \<le> j \<Longrightarrow> base_ok (put j ob B)"
  by (auto simp: put_def base_ok_def split: option.split)

lemma fresh_put: "base_ok B \<Longrightarrow> j \<in> {0, 1, 2} \<Longrightarrow> fresh_in B z \<Longrightarrow> fresh_in (put j ob B) z"
  by (cases z) (fastforce simp: put_def base_ok_def split: option.split)+

lemma with_pipe_put:
  "base_ok B \<Longrightarrow> j \<in> {0, 1, 2} \<Longrightarrow> fresh_in B z \<Longrightarrow> put j ob (with_pipe B z) = with_pipe (put j ob B) z"
  by (cases z) (fastforce simp: put_def base_ok_def fun_eq_iff split: option.split)+

lemma dup2_from_held:
  assumes "base_ok B" "fresh_in B (Some (p, q))" "fds k = with_pipe B (Some (p, q))"
    and "j \<in> {0, 1, 2}" "3 \<le> nofile k"
  shows "fds (k_dup2 (fd_in p) j k) = with_pipe (put j (Some (PipeR q)) B) (Some (p, q))"
    and "fds (k_dup2 (fd_out p) j k) = with_pipe (put j (Some (PipeW q)) B) (Some (p, q))"
proof -
  have "fd_in p \<noteq> j" "fd_out p \<noteq> j"
    using assms(1,2,4) by (auto simp: base_ok_def)
  moreover have "0 \<le> j" "j < int (nofile k)" using assms(4,5) by auto
  ultimately show "fds (k_dup2 (fd_in p) j k) = with_pipe (put j (Some (PipeR q)) B) (Some (p, q))"
      "fds (k_dup2 (fd_out p) j k) = with_pipe (put j (Some (PipeW q)) B) (Some (p, q))"
    using assms(2) by (auto simp: fds_dup2 assms(3) put_def fun_eq_iff)
qed

lemma read_held:
  assumes "base_ok B" "fresh_in B y" "fds k = with_pipe B y" "3 \<le> nofile k"
  shows "fds (snd (pipe_read (pipe_of y) k)) = put 0 (input_of B y) B"
proof (cases y)
  case None
  have "B (-1) = None" using assms(1) by (simp add: base_ok_def)
  moreover obtain ob where "kept B 0 = Some ob" using base_kept [OF assms(1)] by blast
  ultimately show ?thesis
    using None assms(3) put_kept_same [of B 0 ob] by (simp add: pipe_read_def fds_dup2 Pipe_def [symmetric])
      (simp add: Pipe_def fds_dup2)
next
  case (Some pq)
  then obtain p q where y: "y = Some (p, q)" by force
  have "fds (k_dup2 (fd_in p) 0 k) = with_pipe (put 0 (Some (PipeR q)) B) y"
    using dup2_from_held(1) [of B p q k 0] assms y by simp
  then show ?thesis
    using fds_close_held [of "put 0 (Some (PipeR q)) B" y "k_dup2 (fd_in p) 0 k"] assms y
      base_ok_put fresh_put [of B 0 y] by (simp add: pipe_read_def)
qed

lemma input_of_with_pipe: "fresh_in B z \<Longrightarrow> input_of (with_pipe B z) y = input_of B y"
  by (cases y) (auto simp: kept_with_pipe)

lemma input_of_Some: "base_ok B \<Longrightarrow> \<exists>ob. input_of B y = Some ob"
  using base_kept [of B 0] by (cases y) auto

lemma pipe_read_frame [frame_simps]:
  "nofile (snd (pipe_read p k)) = nofile k" "executable (snd (pipe_read p k)) = executable k"
  by (simp_all add: pipe_read_def frame_simps)

lemma pipe_write_frame [frame_simps]:
  "nofile (snd (pipe_write e p k)) = nofile k" "executable (snd (pipe_write e p k)) = executable k"
  by (simp_all add: pipe_write_def frame_simps Let_def)

text \<open>A command between two pipes (or before the last pipe of a numbered line).\<close>

lemma child_between:
  assumes B: "base_ok B" and y: "fresh_in B y" and z: "fresh_in (with_pipe B y) (Some (p, q))"
    and k: "fds k = with_pipe (with_pipe B y) (Some (p, q))" and n: "3 \<le> nofile k"
  shows "exec_table (snd (pipe_write err p (snd (pipe_read (pipe_of y) k)))) =
     (kept B)(0 := input_of B y, 1 := Some (PipeW q), 2 := if err then Some (PipeW q) else kept B 2)"
proof -
  let ?z = "Some (p, q)"
  let ?k1 = "snd (pipe_read (pipe_of y) k)"
  let ?B1 = "put 0 (input_of B y) B"
  let ?B2 = "put 1 (Some (PipeW q)) ?B1"
  let ?B3 = "if err then put 2 (Some (PipeW q)) ?B2 else ?B2"
  let ?k2 = "k_dup2 (fd_out p) 1 ?k1"
  let ?k3 = "if err then k_dup2 (fd_out p) 2 ?k2 else ?k2"
  note zy = fresh_swap [OF y z]
  have k': "fds k = with_pipe (with_pipe B ?z) y" using k with_pipe_swap [OF y z] by simp
  have "fds ?k1 = put 0 (input_of (with_pipe B ?z) y) (with_pipe B ?z)"
    using B zy k' n by (intro read_held) (auto intro: base_ok_with_pipe simp del: with_pipe.simps)
  then have 1: "fds ?k1 = with_pipe ?B1 ?z"
    using B zy(1) by (simp only: with_pipe_put input_of_with_pipe insertI1)
  have B1: "base_ok ?B1" "fresh_in ?B1 ?z"
    using base_ok_put [OF B] fresh_put [OF B _ zy(1)] by (simp_all del: fresh_in.simps)
  have n1: "3 \<le> nofile ?k1" using n by (simp add: frame_simps)
  have 2: "fds ?k2 = with_pipe ?B2 ?z"
    using dup2_from_held(2) [OF B1 1, of 1] n1 by simp
  have B2: "base_ok ?B2" "fresh_in ?B2 ?z"
    using base_ok_put [OF B1(1)] fresh_put [OF B1(1) _ B1(2)] by (simp_all del: fresh_in.simps)
  have n2: "3 \<le> nofile ?k2" using n1 by (simp add: frame_simps)
  have 3: "fds ?k3 = with_pipe ?B3 ?z"
    using 2 dup2_from_held(2) [OF B2 2, of 2] n2 by (simp del: with_pipe.simps)
  have B3: "base_ok ?B3" "fresh_in ?B3 ?z"
    using B2 base_ok_put [OF B2(1)] fresh_put [OF B2(1) _ B2(2)] by (simp_all del: fresh_in.simps)
  have "fds (snd (pipe_write err p ?k1)) = ?B3"
    using fds_close_held [OF B3 3] by (simp add: pipe_write_def Let_def)
  then have "exec_table (snd (pipe_write err p ?k1)) = kept ?B3"
    by (simp only: exec_table_kept)
  moreover obtain ob where "input_of B y = Some ob" using input_of_Some [OF B] by blast
  ultimately show ?thesis
    by (auto simp: kept_put fun_eq_iff)
qed

text \<open>The last command of a line: its output pipe is its input pipe, which \<open>read\<close> has closed.\<close>

lemma child_last:
  assumes B: "base_ok B" and y: "fresh_in B y" and k: "fds k = with_pipe B y" and n: "3 \<le> nofile k"
  shows "exec_table (snd (pipe_write err (pipe_of y) (snd (pipe_read (pipe_of y) k)))) =
     (kept B)(0 := input_of B y)"
proof -
  let ?k1 = "snd (pipe_read (pipe_of y) k)"
  let ?B1 = "put 0 (input_of B y) B"
  have 1: "fds ?k1 = ?B1" by (rule read_held [OF B y k n])
  have B1: "base_ok ?B1" "fresh_in ?B1 y"
    using base_ok_put [OF B] fresh_put [OF B _ y] by simp_all
  have gone: "i = fd_in (pipe_of y) \<or> i = fd_out (pipe_of y) \<Longrightarrow> fds ?k1 i = None" for i
    using B1 unfolding 1 by (cases y) (auto simp: base_ok_def Pipe_def)
  then have "k_dup2 (fd_out (pipe_of y)) j ?k1 = ?k1" for j
    using gone [of "fd_out (pipe_of y)"] by (simp add: k_dup2_def)
  then have "snd (pipe_write err (pipe_of y) ?k1) = ?k1"
    using closePipe_absent [OF gone] by (simp add: pipe_write_def Let_def)
  moreover obtain ob where "input_of B y = Some ob" using input_of_Some [OF B] by blast
  ultimately show ?thesis by (simp add: exec_table_kept 1 kept_put)
qed

subsection \<open>The programs a trace runs\<close>

fun spawned :: "event list \<Rightarrow> (string list \<times> (int \<Rightarrow> fobj option)) list" where
  "spawned [] = []"
| "spawned (Exec p args t # es) = (args, t) # spawned es"
| "spawned (_ # es) = spawned es"

lemma spawned_append [simp]: "spawned (es @ fs) = spawned es @ spawned fs"
  by (induction es rule: spawned.induct) auto

definition can_run :: "kernel \<Rightarrow> string list \<Rightarrow> bool" where
  "can_run k args \<longleftrightarrow> args \<noteq> [] \<and> executable k (hd args)"

lemma child_exec:
  "can_run k args \<Longrightarrow>
     child p err args prv cu k = Exec p args (exec_table (snd (pipe_write err cu (snd (pipe_read prv k)))))"
  by (cases args) (auto simp: can_run_def child_def exe_run_def frame_simps)

text \<open>What a shell step leaves alone.\<close>

definition shell_frame :: "cmd_handler \<Rightarrow> world \<Rightarrow> cmd_handler \<Rightarrow> world \<Rightarrow> bool" where
  "shell_frame h w h' w' \<longleftrightarrow>
     eol h' = eol h \<and> running h' = running h \<and> shell_fd h' = shell_fd h \<and>
     nofile (kern w') = nofile (kern w) \<and> executable (kern w') = executable (kern w) \<and>
     users w' = users w \<and> sockID_table w' = sockID_table w \<and> env_table w' = env_table w \<and>
     serverIn w' = serverIn w \<and> serverOut w' = serverOut w \<and> serverErr w' = serverErr w \<and>
     cin_good w' = cin_good w \<and> stdin_buf w' = stdin_buf w \<and> incoming w' = incoming w"

lemma shell_frame_refl [simp]: "shell_frame h w h w"
  by (simp add: shell_frame_def)

lemma shell_frame_cout: "shell_frame h w h' w' \<Longrightarrow> shell_frame h w h' (cout s w')"
  by (simp add: shell_frame_def)

lemma shell_frame_trans: "shell_frame h w h1 w1 \<Longrightarrow> shell_frame h1 w1 h2 w2 \<Longrightarrow> shell_frame h w h2 w2"
  by (simp add: shell_frame_def)

lemma spawn_props:
  assumes "can_run (kern w) args" "spawn err args h w = (h', w')"
  shows "spawned (trace w') = spawned (trace w) @
      [(args, exec_table (snd (pipe_write err (currPipe h) (snd (pipe_read (prevPipe h) (kern w))))))]"
    and "fds (kern w') = fds (kern w)" "next_pipe (kern w') = next_pipe (kern w)"
    and "prevPipe h' = prevPipe h" "currPipe h' = currPipe h" "numberPipeList h' = numberPipeList h"
    and "shell_frame h w h' w'"
  using assms child_exec [OF assms(1)]
  by (auto simp: spawn_def Let_def shell_frame_def split: prod.splits if_splits)

subsection \<open>One round of the loop\<close>

definition in_loop ::
    "(int \<Rightarrow> (fobj \<times> bool) option) \<Rightarrow> held \<Rightarrow> held \<Rightarrow> cmd_handler \<Rightarrow> world \<Rightarrow> bool" where
  "in_loop B x y h w \<longleftrightarrow>
     base_ok B \<and> fresh_in B x \<and> fresh_in (with_pipe B x) y \<and> 3 \<le> nofile (kern w) \<and>
     fds (kern w) = with_pipe (with_pipe B x) y \<and> prevPipe h = pipe_of x \<and> currPipe h = pipe_of y"

text \<open>The pipe of the command before last is closed and the current pipe becomes the input.\<close>

lemma shift_pipes:
  assumes "in_loop B x y h w"
  defines "h1 \<equiv> h\<lparr>prevPipe := currPipe h\<rparr>"
    and "w1 \<equiv> w\<lparr>kern := snd (closePipe (prevPipe h) (kern w))\<rparr>"
  shows "fds (kern w1) = with_pipe B y" "prevPipe h1 = pipe_of y" "currPipe h1 = pipe_of y"
    and "shell_frame h w h1 w1" "trace w1 = trace w" "next_pipe (kern w1) = next_pipe (kern w)"
    and "numberPipeList h1 = numberPipeList h" "fresh_in B y" "3 \<le> nofile (kern w1)"
  using assms fds_close_under [of B x y "kern w"] fresh_swap [of B x y]
  by (auto simp: in_loop_def shell_frame_def frame_simps)

lemma can_run_frame: "shell_frame h w h' w' \<Longrightarrow> can_run (kern w') args = can_run (kern w) args"
  by (simp add: shell_frame_def can_run_def)

lemma run_piped_command:
  assumes loop: "in_loop B x y h w" and run: "can_run (kern w) args"
    and room: "4 \<le> card (room_in (nofile (kern w)) B)"
  obtains p h' w' where
    "run_commands cfg self line rd wr (ExeCommand args # PipeCommand # rest) h w =
       run_commands cfg self line rd wr rest h' w'"
    and "in_loop B y (Some (p, next_pipe (kern w))) h' w'" and "shell_frame h w h' w'"
    and "numberPipeList h' = numberPipeList h" and "next_pipe (kern w') = Suc (next_pipe (kern w))"
    and "spawned (trace w') = spawned (trace w) @
       [(args, (kept B)(0 := input_of B y, 1 := Some (PipeW (next_pipe (kern w)))))]"
proof -
  let ?h1 = "h\<lparr>prevPipe := currPipe h\<rparr>"
  let ?w1 = "w\<lparr>kern := snd (closePipe (prevPipe h) (kern w))\<rparr>"
  note shift = shift_pipes [OF loop]
  have B: "base_ok B" using loop by (simp add: in_loop_def)
  have nf: "nofile (kern ?w1) = nofile (kern w)" using shift(4) by (simp add: shell_frame_def)
  have "2 \<le> card (room_in (nofile (kern ?w1)) (with_pipe B y))"
    using room card_room_with_pipe [of "nofile (kern w)" B y] nf by simp
  then obtain p k2 where p: "pipe_create (kern ?w1) = Inr (p, k2)"
      "fresh_in (with_pipe B y) (Some (p, next_pipe (kern w)))"
      "fds k2 = with_pipe (with_pipe B y) (Some (p, next_pipe (kern w)))"
      "next_pipe k2 = Suc (next_pipe (kern w))" "nofile k2 = nofile (kern ?w1)"
      "executable k2 = executable (kern ?w1)"
    using create_held [OF shift(1)] shift(6) by metis
  let ?h2 = "?h1\<lparr>currPipe := p\<rparr>" and ?w2 = "?w1\<lparr>kern := k2\<rparr>"
  obtain h3 w3 where sp: "spawn False args ?h2 ?w2 = (h3, w3)" by force
  have nf2: "nofile k2 = nofile (kern w)" "executable k2 = executable (kern w)"
      "next_pipe k2 = Suc (next_pipe (kern w))"
    using p(4-6) shift(4) by (simp_all add: shell_frame_def)
  have run2: "can_run (kern ?w2) args" using run nf2 by (simp add: can_run_def)
  note spd = spawn_props [OF run2 sp]
  have "run_commands cfg self line rd wr (ExeCommand args # PipeCommand # rest) h w =
      run_commands cfg self line rd wr rest h3 w3"
    using p(1) sp by (simp add: connect_next_def Let_def)
  moreover have "in_loop B y (Some (p, next_pipe (kern w))) h3 w3"
    using B shift spd p nf2 loop by (simp add: in_loop_def shell_frame_def del: with_pipe.simps fresh_in.simps)
  moreover have "shell_frame h w h3 w3"
    using spd(7) nf2 shift(4) by (simp add: shell_frame_def)
  moreover have "exec_table (snd (pipe_write False p (snd (pipe_read (pipe_of y) k2)))) =
      (kept B)(0 := input_of B y, 1 := Some (PipeW (next_pipe (kern w))))"
    using child_between [OF B shift(8) p(2,3), of False] nf2(1) loop
    by (auto simp: in_loop_def fun_eq_iff)
  ultimately show ?thesis
    using spd shift p nf2 by (intro that [of h3 w3 p]) simp_all
qed

lemma run_last_command:
  assumes loop: "in_loop B x y h w" and run: "can_run (kern w) args"
  obtains h' w' where
    "run_commands cfg self line rd wr [ExeCommand args] h w = Inr (h', w')"
    and "fds (kern w') = with_pipe B y" and "fresh_in B y"
    and "prevPipe h' = pipe_of y" and "currPipe h' = pipe_of y"
    and "shell_frame h w h' w'" and "numberPipeList h' = numberPipeList h"
    and "next_pipe (kern w') = next_pipe (kern w)"
    and "spawned (trace w') = spawned (trace w) @ [(args, (kept B)(0 := input_of B y))]"
proof -
  let ?h1 = "h\<lparr>prevPipe := currPipe h\<rparr>"
  let ?w1 = "w\<lparr>kern := snd (closePipe (prevPipe h) (kern w))\<rparr>"
  note shift = shift_pipes [OF loop]
  have B: "base_ok B" using loop by (simp add: in_loop_def)
  obtain h3 w3 where sp: "spawn False args ?h1 ?w1 = (h3, w3)" by force
  have run1: "can_run (kern ?w1) args" using run can_run_frame [OF shift(4)] by simp
  note spd = spawn_props [OF run1 sp]
  have "run_commands cfg self line rd wr [ExeCommand args] h w = Inr (h3, w3)"
    using sp by (simp add: Let_def)
  then show ?thesis
    using spd shift child_last [OF B shift(8,1,9), of False] shell_frame_trans [OF shift(4) spd(7)]
    by (intro that [of h3 w3]) simp_all
qed

text \<open>A command before a numbered pipe whose cell is still empty.\<close>

lemma run_numbered_command:
  assumes loop: "in_loop B x y h w" and run: "can_run (kern w) args"
    and room: "4 \<le> card (room_in (nofile (kern w)) B)"
    and cell: "ring_get (size_t n) (numberPipeList h) = Pipe"
  obtains p h' w' where
    "run_commands cfg self line rd wr [ExeCommand args, NumberedPipeCommand n e] h w = Inr (h', w')"
    and "in_loop B y (Some (p, next_pipe (kern w))) h' w'" and "shell_frame h w h' w'"
    and "numberPipeList h' = ring_set (size_t n) p (numberPipeList h)"
    and "next_pipe (kern w') = Suc (next_pipe (kern w))"
    and "spawned (trace w') = spawned (trace w) @
       [(args, (kept B)(0 := input_of B y, 1 := Some (PipeW (next_pipe (kern w))),
                        2 := if e then Some (PipeW (next_pipe (kern w))) else kept B 2))]"
proof -
  let ?h1 = "h\<lparr>prevPipe := currPipe h\<rparr>"
  let ?w1 = "w\<lparr>kern := snd (closePipe (prevPipe h) (kern w))\<rparr>"
  note shift = shift_pipes [OF loop]
  have B: "base_ok B" using loop by (simp add: in_loop_def)
  have nf: "nofile (kern ?w1) = nofile (kern w)" using shift(4) by (simp add: shell_frame_def)
  have "2 \<le> card (room_in (nofile (kern ?w1)) (with_pipe B y))"
    using room card_room_with_pipe [of "nofile (kern w)" B y] nf by simp
  then obtain p k2 where p: "pipe_create (kern ?w1) = Inr (p, k2)"
      "fresh_in (with_pipe B y) (Some (p, next_pipe (kern w)))"
      "fds k2 = with_pipe (with_pipe B y) (Some (p, next_pipe (kern w)))"
      "next_pipe k2 = Suc (next_pipe (kern w))" "nofile k2 = nofile (kern ?w1)"
      "executable k2 = executable (kern ?w1)"
    using create_held [OF shift(1)] shift(6) by metis
  let ?h2 = "?h1\<lparr>currPipe := p, numberPipeList := ring_set (size_t n) p (numberPipeList h)\<rparr>"
  let ?w2 = "?w1\<lparr>kern := k2\<rparr>"
  obtain h3 w3 where sp: "spawn e args ?h2 ?w2 = (h3, w3)" by force
  have nf2: "nofile k2 = nofile (kern w)" "executable k2 = executable (kern w)"
      "next_pipe k2 = Suc (next_pipe (kern w))"
    using p(4-6) shift(4) by (simp_all add: shell_frame_def)
  have run2: "can_run (kern ?w2) args" using run nf2 by (simp add: can_run_def)
  note spd = spawn_props [OF run2 sp]
  have "run_commands cfg self line rd wr [ExeCommand args, NumberedPipeCommand n e] h w = Inr (h3, w3)"
    using p(1) sp cell by (simp add: connect_next_def Let_def)
  moreover have "in_loop B y (Some (p, next_pipe (kern w))) h3 w3"
    using B shift spd p nf2 loop by (simp add: in_loop_def shell_frame_def del: with_pipe.simps fresh_in.simps)
  moreover have "shell_frame h w h3 w3"
    using spd(7) nf2 shift(4) by (simp add: shell_frame_def)
  moreover have "exec_table (snd (pipe_write e p (snd (pipe_read (pipe_of y) k2)))) =
      (kept B)(0 := input_of B y, 1 := Some (PipeW (next_pipe (kern w))),
               2 := if e then Some (PipeW (next_pipe (kern w))) else kept B 2)"
    using child_between [OF B shift(8) p(2,3), of e] nf2(1) loop by (simp add: in_loop_def)
  ultimately show ?thesis
    using spd shift p nf2 by (intro that [of h3 w3 p]) simp_all
qed

subsection \<open>Pipelines\<close>

fun pipeline :: "string list list \<Rightarrow> command list" where
  "pipeline [] = []"
| "pipeline [a] = [ExeCommand a]"
| "pipeline (a # b # as) = ExeCommand a # PipeCommand # pipeline (b # as)"

text \<open>
  The intended plumbing: every program keeps the shell's table \<open>T\<close> with its standard input taken
  from the program before it and its standard output going to the program after it.
\<close>

fun plumbing :: "(int \<Rightarrow> fobj option) \<Rightarrow> nat \<Rightarrow> fobj option \<Rightarrow> string list list
    \<Rightarrow> (string list \<times> (int \<Rightarrow> fobj option)) list" where
  "plumbing T n inp [] = []"
| "plumbing T n inp [a] = [(a, T(0 := inp))]"
| "plumbing T n inp (a # b # as) =
     (a, T(0 := inp, 1 := Some (PipeW n))) # plumbing T (Suc n) (Some (PipeR n)) (b # as)"

lemma run_pipeline:
  assumes "in_loop B x y h w" "as \<noteq> []" "\<forall>a \<in> set as. can_run (kern w) a"
    and "4 \<le> card (room_in (nofile (kern w)) B)"
  shows "\<exists>h' w' y'. run_commands cfg self line rd wr (pipeline as) h w = Inr (h', w') \<and>
     fds (kern w') = with_pipe B y' \<and> fresh_in B y' \<and>
     prevPipe h' = pipe_of y' \<and> currPipe h' = pipe_of y' \<and>
     shell_frame h w h' w' \<and> numberPipeList h' = numberPipeList h \<and>
     next_pipe (kern w') = next_pipe (kern w) + length as - 1 \<and>
     spawned (trace w') = spawned (trace w) @ plumbing (kept B) (next_pipe (kern w)) (input_of B y) as"
  using assms
proof (induction as arbitrary: x y h w rule: pipeline.induct)
  case 1
  then show ?case by simp
next
  case (2 a)
  then show ?case
    using run_last_command [OF 2(1), of a cfg self line rd wr] by simp metis
next
  case (3 a b as)
  from 3 have "can_run (kern w) a" by simp
  then obtain p h1 w1 where
    1: "run_commands cfg self line rd wr (ExeCommand a # PipeCommand # pipeline (b # as)) h w =
        run_commands cfg self line rd wr (pipeline (b # as)) h1 w1"
    and 2: "in_loop B y (Some (p, next_pipe (kern w))) h1 w1" "shell_frame h w h1 w1"
      "numberPipeList h1 = numberPipeList h" "next_pipe (kern w1) = Suc (next_pipe (kern w))"
      "spawned (trace w1) = spawned (trace w) @
        [(a, (kept B)(0 := input_of B y, 1 := Some (PipeW (next_pipe (kern w)))))]"
    using run_piped_command [OF 3(2) _ 3(5)] by metis
  have "\<forall>c \<in> set (b # as). can_run (kern w1) c"
    using 3(4) can_run_frame [OF 2(2)] by simp
  moreover have "4 \<le> card (room_in (nofile (kern w1)) B)"
    using 3(5) 2(2) by (simp add: shell_frame_def)
  ultimately obtain h' w' y' where
    3: "run_commands cfg self line rd wr (pipeline (b # as)) h1 w1 = Inr (h', w')"
      "fds (kern w') = with_pipe B y'" "fresh_in B y'"
      "prevPipe h' = pipe_of y'" "currPipe h' = pipe_of y'"
      "shell_frame h1 w1 h' w'" "numberPipeList h' = numberPipeList h1"
      "next_pipe (kern w') = next_pipe (kern w1) + length (b # as) - 1"
      "spawned (trace w') = spawned (trace w1) @ plumbing (kept B) (next_pipe (kern w1))
         (input_of B (Some (p, next_pipe (kern w)))) (b # as)"
    using "3.IH" [OF 2(1)] by blast
  have "shell_frame h w h' w'" using 2(2) 3(6) by (rule shell_frame_trans)
  then show ?case
    using 1 2 3 by (intro exI [of _ h'] exI [of _ w'] exI [of _ y']) simp
qed

subsection \<open>A whole command line\<close>

text \<open>Like \<open>run_pipeline\<close>, for a pipeline that ends in a numbered pipe whose cell is empty.\<close>

fun plumbing_into :: "(int \<Rightarrow> fobj option) \<Rightarrow> nat \<Rightarrow> fobj option \<Rightarrow> bool \<Rightarrow> string list list
    \<Rightarrow> (string list \<times> (int \<Rightarrow> fobj option)) list" where
  "plumbing_into T n inp e [] = []"
| "plumbing_into T n inp e [a] =
     [(a, T(0 := inp, 1 := Some (PipeW n), 2 := if e then Some (PipeW n) else T 2))]"
| "plumbing_into T n inp e (a # b # as) =
     (a, T(0 := inp, 1 := Some (PipeW n))) # plumbing_into T (Suc n) (Some (PipeR n)) e (b # as)"

lemma run_numbered_pipeline:
  assumes "in_loop B x y h w" "as \<noteq> []" "\<forall>a \<in> set as. can_run (kern w) a"
    and "4 \<le> card (room_in (nofile (kern w)) B)"
    and "ring_get (size_t n) (numberPipeList h) = Pipe"
  shows "\<exists>p h' w' y'.
     run_commands cfg self line rd wr (pipeline as @ [NumberedPipeCommand n e]) h w = Inr (h', w') \<and>
     in_loop B y' (Some (p, next_pipe (kern w) + length as - 1)) h' w' \<and> shell_frame h w h' w' \<and>
     numberPipeList h' = ring_set (size_t n) p (numberPipeList h) \<and>
     next_pipe (kern w') = next_pipe (kern w) + length as \<and>
     spawned (trace w') = spawned (trace w) @
       plumbing_into (kept B) (next_pipe (kern w)) (input_of B y) e as"
  using assms
proof (induction as arbitrary: x y h w rule: pipeline.induct)
  case 1
  then show ?case by simp
next
  case (2 a)
  from 2 have "can_run (kern w) a" by simp
  then obtain p h' w' where
    "run_commands cfg self line rd wr [ExeCommand a, NumberedPipeCommand n e] h w = Inr (h', w')"
    "in_loop B y (Some (p, next_pipe (kern w))) h' w'" "shell_frame h w h' w'"
    "numberPipeList h' = ring_set (size_t n) p (numberPipeList h)"
    "next_pipe (kern w') = Suc (next_pipe (kern w))"
    "spawned (trace w') = spawned (trace w) @
       [(a, (kept B)(0 := input_of B y, 1 := Some (PipeW (next_pipe (kern w))),
                     2 := if e then Some (PipeW (next_pipe (kern w))) else kept B 2))]"
    by (rule run_numbered_command [OF 2(1) _ 2(4,5)])
  then show ?case
    by (intro exI [of _ p] exI [of _ h'] exI [of _ w'] exI [of _ y]) simp
next
  case (3 a b as)
  from 3 have "can_run (kern w) a" by simp
  then obtain p h1 w1 where
    1: "run_commands cfg self line rd wr
          (ExeCommand a # PipeCommand # pipeline (b # as) @ [NumberedPipeCommand n e]) h w =
        run_commands cfg self line rd wr (pipeline (b # as) @ [NumberedPipeCommand n e]) h1 w1"
    and 2: "in_loop B y (Some (p, next_pipe (kern w))) h1 w1" "shell_frame h w h1 w1"
      "numberPipeList h1 = numberPipeList h" "next_pipe (kern w1) = Suc (next_pipe (kern w))"
      "spawned (trace w1) = spawned (trace w) @
        [(a, (kept B)(0 := input_of B y, 1 := Some (PipeW (next_pipe (kern w)))))]"
    using run_piped_command [OF 3(2) _ 3(5)] by metis
  have "\<forall>c \<in> set (b # as). can_run (kern w1) c"
    using 3(4) can_run_frame [OF 2(2)] by simp
  moreover have "4 \<le> card (room_in (nofile (kern w1)) B)"
    using 3(5) 2(2) by (simp add: shell_frame_def)
  moreover have "ring_get (size_t n) (numberPipeList h1) = Pipe"
    using 3(6) 2(3) by simp
  ultimately obtain p' h' w' y' where
    3: "run_commands cfg self line rd wr (pipeline (b # as) @ [NumberedPipeCommand n e]) h1 w1 = Inr (h', w')"
      "in_loop B y' (Some (p', next_pipe (kern w1) + length (b # as) - 1)) h' w'"
      "shell_frame h1 w1 h' w'" "numberPipeList h' = ring_set (size_t n) p' (numberPipeList h1)"
      "next_pipe (kern w') = next_pipe (kern w1) + length (b # as)"
      "spawned (trace w') = spawned (trace w1) @ plumbing_into (kept B) (next_pipe (kern w1))
         (input_of B (Some (p, next_pipe (kern w)))) e (b # as)"
    using "3.IH" [OF 2(1)] by blast
  have "shell_frame h w h' w'" using 2(2) 3(3) by (rule shell_frame_trans)
  then show ?case
    using 1 2 3 by (intro exI [of _ p'] exI [of _ h'] exI [of _ w'] exI [of _ y']) simp
qed

lemma close_again:
  assumes "base_ok B" "fresh_in B y" "fds k = B"
  shows "snd (closePipe (pipe_of y) k) = k"
proof (rule closePipe_absent)
  fix i :: int
  assume "i \<noteq> -1" "i = fd_in (pipe_of y) \<or> i = fd_out (pipe_of y)"
  then show "fds k i = None" using assms by (cases y) (auto simp: Pipe_def)
qed

lemma pipeline_last: "as \<noteq> [] \<Longrightarrow> pipeline as \<noteq> [] \<and> getType (last (pipeline as)) = EXE"
  by (induction as rule: pipeline.induct) auto

text \<open>The start of a line: the pipe \<open>eol\<close> is created on top of what the shell holds.\<close>

lemma enter_line:
  assumes "base_ok B" "fresh_in B y" "3 \<le> nofile (kern w)" "fds (kern w) = with_pipe B y"
    and "prevPipe h = Pipe" "ring_front (ring_next (numberPipeList h)) = pipe_of y"
    and "2 \<le> card (room_in (nofile (kern w)) (with_pipe B y))" "readUid l \<le> 0"
  obtains e h1 w1 where
    "run_line cfg self line l h w =
       rbind (run_commands cfg self line (readUid l) (writeUid l) (npCommands l) h1 w1)
         (\<lambda>(h2, w2). finish_line (npCommands l) h2 w2)"
    and "in_loop (with_pipe B (Some (e, next_pipe (kern w)))) None y h1 w1"
    and "fresh_in B (Some (e, next_pipe (kern w)))" and "eol h1 = e"
    and "shell_frame (h\<lparr>eol := e\<rparr>) w h1 w1"
    and "fresh_in (with_pipe B y) (Some (e, next_pipe (kern w)))"
    and "numberPipeList h1 = ring_next (numberPipeList h)" and "trace w1 = trace w"
    and "next_pipe (kern w1) = Suc (next_pipe (kern w))"
    and "fd_in e \<in> room_in (nofile (kern w)) (with_pipe B y)"
    and "fd_out e \<in> room_in (nofile (kern w)) (with_pipe B y)"
proof -
  let ?n = "next_pipe (kern w)"
  obtain e k where e: "pipe_create (kern w) = Inr (e, k)" "fresh_in (with_pipe B y) (Some (e, ?n))"
      "fds k = with_pipe (with_pipe B y) (Some (e, ?n))" "next_pipe k = Suc ?n"
      "nofile k = nofile (kern w)" "executable k = executable (kern w)"
      "fd_in e \<in> room_in (nofile (kern w)) (with_pipe B y)"
      "fd_out e \<in> room_in (nofile (kern w)) (with_pipe B y)"
    using create_held [OF assms(4,7)] by metis
  note sw = fresh_swap [OF assms(2) e(2)]
  let ?h1 = "h\<lparr>eol := e, numberPipeList := ring_next (numberPipeList h), currPipe := pipe_of y\<rparr>"
  let ?w1 = "w\<lparr>kern := k\<rparr>"
  have "base_ok (with_pipe B (Some (e, ?n)))"
    using base_ok_with_pipe [OF assms(1) sw(1)] .
  moreover have "fds k = with_pipe (with_pipe B (Some (e, ?n))) y"
    using e(3) with_pipe_swap [OF assms(2) e(2)] by simp
  ultimately have "in_loop (with_pipe B (Some (e, ?n))) None y ?h1 ?w1"
    using assms(3,5) sw e(5) by (simp add: in_loop_def del: with_pipe.simps(2) fresh_in.simps(2))
  moreover have "run_line cfg self line l h w =
       rbind (run_commands cfg self line (readUid l) (writeUid l) (npCommands l) ?h1 ?w1)
         (\<lambda>(h2, w2). finish_line (npCommands l) h2 w2)"
    using e(1) assms(6,8) by (simp add: run_line_def Let_def)
  ultimately show ?thesis
    using sw e by (intro that [of ?h1 ?w1 e]) (simp_all add: shell_frame_def del: with_pipe.simps(2) fresh_in.simps(2))
qed

text \<open>An ordinary line: everything is closed at its end except its own \<open>eol\<close>.\<close>

lemma run_line_pipeline:
  assumes "base_ok B" "fresh_in B y" "3 \<le> nofile (kern w)" "fds (kern w) = with_pipe B y"
    and "prevPipe h = Pipe" "ring_front (ring_next (numberPipeList h)) = pipe_of y"
    and "6 \<le> card (room_in (nofile (kern w)) B)"
    and "as \<noteq> []" "\<forall>a \<in> set as. can_run (kern w) a"
  shows "\<exists>h' w' e.
     run_line cfg self line (plain_line (pipeline as)) h w = Inr (h', w') \<and>
     fds (kern w') = with_pipe B (Some (e, next_pipe (kern w))) \<and>
     fresh_in B (Some (e, next_pipe (kern w))) \<and>
     fresh_in (with_pipe B y) (Some (e, next_pipe (kern w))) \<and>
     prevPipe h' = Pipe \<and> currPipe h' = Pipe \<and> shell_frame (h\<lparr>eol := e\<rparr>) w h' w' \<and>
     numberPipeList h' = ring_next (numberPipeList h) \<and>
     next_pipe (kern w') = next_pipe (kern w) + length as \<and>
     spawned (trace w') = spawned (trace w) @
       plumbing (kept B) (Suc (next_pipe (kern w))) (input_of B y) as"
proof -
  let ?n = "next_pipe (kern w)"
  have room: "2 \<le> card (room_in (nofile (kern w)) (with_pipe B y))"
    using assms(7) card_room_with_pipe [of "nofile (kern w)" B y] by linarith
  obtain e h1 w1 where 1:
    "run_line cfg self line (plain_line (pipeline as)) h w =
       rbind (run_commands cfg self line 0 0 (pipeline as) h1 w1)
         (\<lambda>(h2, w2). finish_line (pipeline as) h2 w2)"
    "in_loop (with_pipe B (Some (e, ?n))) None y h1 w1" "fresh_in B (Some (e, ?n))"
    "shell_frame (h\<lparr>eol := e\<rparr>) w h1 w1" "fresh_in (with_pipe B y) (Some (e, ?n))"
    "numberPipeList h1 = ring_next (numberPipeList h)" "trace w1 = trace w"
    "next_pipe (kern w1) = Suc ?n"
    using enter_line [OF assms(1-6) room, of "plain_line (pipeline as)" cfg self line thesis] by auto
  have "nofile (kern w1) = nofile (kern w)" using 1(4) by (simp add: shell_frame_def)
  then have 4: "4 \<le> card (room_in (nofile (kern w1)) (with_pipe B (Some (e, ?n))))"
    using assms(7) card_room_with_pipe [of "nofile (kern w)" B "Some (e, ?n)"] by simp
  let ?B = "with_pipe B (Some (e, ?n))"
  have "\<forall>a \<in> set as. can_run (kern w1) a" using assms(9) can_run_frame [OF 1(4)] by simp
  then obtain h2 w2 y' where 2: "run_commands cfg self line 0 0 (pipeline as) h1 w1 = Inr (h2, w2)"
     "fds (kern w2) = with_pipe ?B y'" "fresh_in ?B y'"
     "prevPipe h2 = pipe_of y'" "currPipe h2 = pipe_of y'"
     "shell_frame h1 w1 h2 w2" "numberPipeList h2 = numberPipeList h1"
     "next_pipe (kern w2) = next_pipe (kern w1) + length as - 1"
     "spawned (trace w2) = spawned (trace w1) @ plumbing (kept ?B) (next_pipe (kern w1)) (input_of ?B y) as"
    using run_pipeline [OF 1(2) assms(8) _ 4] by blast
  have B: "base_ok ?B" using 1(2) by (simp add: in_loop_def)
  obtain k3 where k3: "k3 = snd (closePipe (pipe_of y') (kern w2))" by simp
  have 3: "fds k3 = ?B" unfolding k3 using fds_close_held [OF B 2(3,2)] .
  have frame: "nofile k3 = nofile (kern w2)" "executable k3 = executable (kern w2)"
      "next_pipe k3 = next_pipe (kern w2)"
    by (simp_all add: k3 frame_simps)
  have "snd (closePipe (pipe_of y') k3) = k3" by (rule close_again [OF B 2(3) 3])
  then have c: "closePipe (pipe_of y') (kern w2) = (Pipe, k3)" "closePipe (pipe_of y') k3 = (Pipe, k3)"
    using closePipe_eq [of "pipe_of y'"] k3 by metis+
  let ?w3 = "emit (Wait (snd (pipelineProcessor h2))) (w2\<lparr>kern := k3\<rparr>)\<lparr>kern := k3\<rparr>"
  let ?h3 = "h2\<lparr>prevPipe := Pipe, currPipe := Pipe\<rparr>"
  have "finish_line (pipeline as) h2 w2 = Inr (?h3, ?w3)"
    using pipeline_last [OF assms(8)] c 2(4,5) by (simp add: finish_line_def Let_def emit_def)
  then have "run_line cfg self line (plain_line (pipeline as)) h w = Inr (?h3, ?w3)"
    using 1(1) 2(1) by simp
  moreover have "shell_frame (h\<lparr>eol := e\<rparr>) w ?h3 ?w3"
    using shell_frame_trans [OF 1(4) 2(6)] by (simp add: shell_frame_def frame)
  ultimately show ?thesis
    using 1 2 3 frame(3) kept_with_pipe [OF 1(3)] input_of_with_pipe [OF 1(3)]
    by (intro exI [of _ ?h3] exI [of _ ?w3] exI [of _ e]) (simp del: with_pipe.simps fresh_in.simps)
qed

end
