(* ===== verification/Line_Facts.thy ===== *)
theory Line_Facts
  imports Shell_Facts
begin

text \<open>
  A command line that ends in a numbered pipe, whether the cell it is put in is empty or already holds the
  pipe of an earlier line: what the programs are connected to, and what the shell holds afterwards.
\<close>

subsection \<open>The last command of the line\<close>

text \<open>The cell holds a pipe: it takes the output of this command too.\<close>

lemma run_shared_command:
  assumes loop: "in_loop (with_pipe B (Some (p, q))) x y h w" and B: "base_ok B" and z: "fresh_in B (Some (p, q))"
    and run: "can_run (kern w) args" and cell: "ring_get (size_t n) (numberPipeList h) = p"
  obtains h' w' where
    "run_commands cfg self line rd wr [ExeCommand args, NumberedPipeCommand n e] h w = Inr (h', w')"
    and "in_loop B y (Some (p, q)) h' w'" and "shell_frame h w h' w'"
    and "numberPipeList h' = numberPipeList h" and "next_pipe (kern w') = next_pipe (kern w)"
    and "spawned (trace w') = spawned (trace w) @
       [(args, (kept B)(0 := input_of B y, 1 := Some (PipeW q), 2 := if e then Some (PipeW q) else kept B 2))]"
proof -
  let ?z = "Some (p, q)"
  let ?h1 = "h\<lparr>prevPipe := currPipe h\<rparr>"
  let ?w1 = "w\<lparr>kern := snd (closePipe (prevPipe h) (kern w))\<rparr>"
  note shift = shift_pipes [OF loop]
  note sw = fresh_swap [OF z shift(8)]
  have k: "fds (kern ?w1) = with_pipe (with_pipe B y) ?z"
    using shift(1) with_pipe_swap [OF z shift(8)] by simp
  have "\<not> pipe_empty p" using z by (auto simp: pipe_empty_def)
  let ?h2 = "?h1\<lparr>currPipe := p\<rparr>"
  obtain h3 w3 where sp: "spawn e args ?h2 ?w1 = (h3, w3)" by force
  have run1: "can_run (kern ?w1) args" using run can_run_frame [OF shift(4)] by simp
  note spd = spawn_props [OF run1 sp]
  have nf: "nofile (kern w3) = nofile (kern ?w1)" using spd(7) by (simp add: shell_frame_def)
  have "run_commands cfg self line rd wr [ExeCommand args, NumberedPipeCommand n e] h w = Inr (h3, w3)"
    using sp cell \<open>\<not> pipe_empty p\<close> by (simp add: connect_next_def Let_def)
  moreover have "in_loop B y ?z h3 w3"
    unfolding in_loop_def nf using B sw spd(2,4,5) k shift(2,9) by simp
  moreover have "shell_frame h w h3 w3"
    using spd(7) shift(4) by (simp add: shell_frame_def)
  moreover have "exec_table (snd (pipe_write e p (snd (pipe_read (pipe_of y) (kern ?w1))))) =
      (kept B)(0 := input_of B y, 1 := Some (PipeW q), 2 := if e then Some (PipeW q) else kept B 2)"
    by (rule child_between [OF B sw k shift(9)])
  ultimately show ?thesis
    using spd(1,3,6) shift by (intro that [of h3 w3]) simp_all
qed

subsection \<open>The commands of the line\<close>

text \<open>The plumbing of a pipeline whose last output (and error output) goes to the pipe \<open>q\<close>.\<close>

fun plumbing_to :: "(int \<Rightarrow> fobj option) \<Rightarrow> nat \<Rightarrow> fobj option \<Rightarrow> nat \<Rightarrow> bool \<Rightarrow> string list list
    \<Rightarrow> (string list \<times> (int \<Rightarrow> fobj option)) list" where
  "plumbing_to T n inp q e [] = []"
| "plumbing_to T n inp q e [a] =
     [(a, T(0 := inp, 1 := Some (PipeW q), 2 := if e then Some (PipeW q) else T 2))]"
| "plumbing_to T n inp q e (a # b # as) =
     (a, T(0 := inp, 1 := Some (PipeW n))) # plumbing_to T (Suc n) (Some (PipeR n)) q e (b # as)"

lemma plumbing_into_to: "plumbing_into T n inp e as = plumbing_to T n inp (n + length as - 1) e as"
  by (induction T n inp e as rule: plumbing_into.induct) auto

lemma run_shared_pipeline:
  assumes "in_loop (with_pipe B (Some (p, q))) x y h w" "base_ok B" "fresh_in B (Some (p, q))"
    and "as \<noteq> []" "\<forall>a \<in> set as. can_run (kern w) a"
    and "4 \<le> card (room_in (nofile (kern w)) (with_pipe B (Some (p, q))))"
    and "ring_get (size_t n) (numberPipeList h) = p"
  shows "\<exists>h' w' y'.
     run_commands cfg self line rd wr (pipeline as @ [NumberedPipeCommand n e]) h w = Inr (h', w') \<and>
     in_loop B y' (Some (p, q)) h' w' \<and> shell_frame h w h' w' \<and> numberPipeList h' = numberPipeList h \<and>
     next_pipe (kern w') = next_pipe (kern w) + length as - 1 \<and>
     spawned (trace w') = spawned (trace w) @
       plumbing_to (kept B) (next_pipe (kern w)) (input_of (with_pipe B (Some (p, q))) y) q e as"
  using assms
proof (induction as arbitrary: x y h w rule: pipeline.induct)
  case 1
  then show ?case by simp
next
  case (2 a)
  from 2 have "can_run (kern w) a" by simp
  then obtain h' w' where
    "run_commands cfg self line rd wr [ExeCommand a, NumberedPipeCommand n e] h w = Inr (h', w')"
    "in_loop B y (Some (p, q)) h' w'" "shell_frame h w h' w'"
    "numberPipeList h' = numberPipeList h" "next_pipe (kern w') = next_pipe (kern w)"
    "spawned (trace w') = spawned (trace w) @
       [(a, (kept B)(0 := input_of B y, 1 := Some (PipeW q), 2 := if e then Some (PipeW q) else kept B 2))]"
    by (rule run_shared_command [OF 2(1-3) _ 2(7)])
  then show ?case
    using input_of_with_pipe [OF 2(3)]
    by (intro exI [of _ h'] exI [of _ w'] exI [of _ y]) (simp del: with_pipe.simps)
next
  case (3 a b as)
  let ?B = "with_pipe B (Some (p, q))"
  from 3 have "can_run (kern w) a" by simp
  then obtain p' h1 w1 where
    1: "run_commands cfg self line rd wr
          (ExeCommand a # PipeCommand # pipeline (b # as) @ [NumberedPipeCommand n e]) h w =
        run_commands cfg self line rd wr (pipeline (b # as) @ [NumberedPipeCommand n e]) h1 w1"
    and 2: "in_loop ?B y (Some (p', next_pipe (kern w))) h1 w1" "shell_frame h w h1 w1"
      "numberPipeList h1 = numberPipeList h" "next_pipe (kern w1) = Suc (next_pipe (kern w))"
      "spawned (trace w1) = spawned (trace w) @
        [(a, (kept ?B)(0 := input_of ?B y, 1 := Some (PipeW (next_pipe (kern w)))))]"
    using run_piped_command [OF 3(2) _ 3(7)] by metis
  have "\<forall>c \<in> set (b # as). can_run (kern w1) c"
    using 3(6) can_run_frame [OF 2(2)] by simp
  moreover have "4 \<le> card (room_in (nofile (kern w1)) ?B)"
    using 3(7) 2(2) by (simp add: shell_frame_def del: with_pipe.simps)
  moreover have "ring_get (size_t n) (numberPipeList h1) = p"
    using 3(8) 2(3) by simp
  ultimately obtain h' w' y' where
    r: "run_commands cfg self line rd wr (pipeline (b # as) @ [NumberedPipeCommand n e]) h1 w1 = Inr (h', w')"
      "in_loop B y' (Some (p, q)) h' w'" "shell_frame h1 w1 h' w'" "numberPipeList h' = numberPipeList h1"
      "next_pipe (kern w') = next_pipe (kern w1) + length (b # as) - 1"
      "spawned (trace w') = spawned (trace w1) @ plumbing_to (kept B) (next_pipe (kern w1))
         (input_of ?B (Some (p', next_pipe (kern w)))) q e (b # as)"
    using "3.IH" [OF 2(1) 3(3,4)] by blast
  have "shell_frame h w h' w'" using 2(2) r(3) by (rule shell_frame_trans)
  then show ?case
    using 1 2 r kept_with_pipe [OF 3(4)]
    by (intro exI [of _ h'] exI [of _ w'] exI [of _ y']) (simp del: with_pipe.simps)
qed

text \<open>Both cases: the pipe \<open>z\<close> the cell holds, if any, or else a new one.\<close>

lemma run_target_pipeline:
  assumes loop: "in_loop (with_pipe B z) x y h w" and B: "base_ok B" and z: "fresh_in B z"
    and as: "as \<noteq> []" "\<forall>a \<in> set as. can_run (kern w) a"
    and room: "4 \<le> card (room_in (nofile (kern w)) (with_pipe B z))"
    and cell: "ring_get (size_t n) (numberPipeList h) = pipe_of z"
  defines "q \<equiv> case z of None \<Rightarrow> next_pipe (kern w) + length as - 1 | Some (_, q) \<Rightarrow> q"
  shows "\<exists>p h' w' y'.
     run_commands cfg self line rd wr (pipeline as @ [NumberedPipeCommand n e]) h w = Inr (h', w') \<and>
     in_loop B y' (Some (p, q)) h' w' \<and> shell_frame h w h' w' \<and>
     numberPipeList h' = (if z = None then ring_set (size_t n) p (numberPipeList h) else numberPipeList h) \<and>
     (z = None \<or> z = Some (p, q)) \<and>
     next_pipe (kern w') = next_pipe (kern w) + length as - (if z = None then 0 else 1) \<and>
     spawned (trace w') = spawned (trace w) @
       plumbing_to (kept B) (next_pipe (kern w)) (input_of (with_pipe B z) y) q e as"
proof (cases z)
  case None
  then show ?thesis
    using run_numbered_pipeline [of B x y h w as n cfg self line rd wr e] loop as room cell
    by (simp add: q_def plumbing_into_to)
next
  case (Some pq)
  then obtain p r where p: "z = Some (p, r)" by force
  then have q: "q = r" by (simp add: q_def)
  show ?thesis
    using run_shared_pipeline [of B p r x y h w as n cfg self line rd wr e] loop B z as room cell
    unfolding p q by simp
qed

subsection \<open>The whole line\<close>

text \<open>At its end the parent waits for the end of its own pipe \<open>eol\<close> and closes it.\<close>

lemma fds_readEOF:
  assumes "base_ok B" "fresh_in B (Some (e, m))" "fresh_in (with_pipe B (Some (e, m))) x"
    and "fds k = with_pipe (with_pipe B (Some (e, m))) x"
  shows "fds (readEOF e k) = with_pipe B x"
proof -
  from assms(2) have nn: "fd_in e \<noteq> -1" "fd_out e \<noteq> -1" by auto
  then have "fds (readEOF e k) = fds (snd (closePipe (pipe_of (Some (e, m))) k))"
    by (auto simp: readEOF_def k_close_def closePipe_kernel fun_eq_iff)
  also have "\<dots> = with_pipe B x"
    by (rule fds_close_under [OF assms])
  finally show ?thesis .
qed

lemma readEOF_frame [frame_simps]:
  "nofile (readEOF e k) = nofile k" "executable (readEOF e k) = executable k"
  "next_pipe (readEOF e k) = next_pipe k"
  by (simp_all add: readEOF_def k_close_def)

text \<open>
  Before the line the shell holds \<open>z\<close>, the pipe the cell \<open>n\<close> lines ahead holds if any, and \<open>y\<close>, the
  pipe that is due; after it the pipe \<open>p\<close> of that cell alone.
\<close>

lemma run_line_into:
  assumes B: "base_ok B" and z: "fresh_in B z" and y: "fresh_in (with_pipe B z) y"
    and nf: "3 \<le> nofile (kern w)" and k: "fds (kern w) = with_pipe (with_pipe B z) y"
    and h: "prevPipe h = Pipe" "ring_front (ring_next (numberPipeList h)) = pipe_of y"
      "ring_get (size_t n) (ring_next (numberPipeList h)) = pipe_of z"
    and room: "6 \<le> card (room_in (nofile (kern w)) (with_pipe B z))"
    and as: "as \<noteq> []" "\<forall>a \<in> set as. can_run (kern w) a"
  defines "q \<equiv> case z of None \<Rightarrow> next_pipe (kern w) + length as | Some (_, q) \<Rightarrow> q"
  shows "\<exists>h' w' p e.
     run_line cfg self line (plain_line (pipeline as @ [NumberedPipeCommand n err])) h w = Inr (h', w') \<and>
     fds (kern w') = with_pipe B (Some (p, q)) \<and> fresh_in B (Some (p, q)) \<and> prevPipe h' = Pipe \<and>
     numberPipeList h' = (if z = None then ring_set (size_t n) p (ring_next (numberPipeList h))
                          else ring_next (numberPipeList h)) \<and>
     (z = None \<or> z = Some (p, q)) \<and> shell_frame (h\<lparr>eol := e\<rparr>) w h' w' \<and>
     next_pipe (kern w') = next_pipe (kern w) + length as + (if z = None then 1 else 0) \<and>
     spawned (trace w') = spawned (trace w) @
       plumbing_to (kept B) (Suc (next_pipe (kern w))) (input_of B y) q err as"
proof -
  let ?m = "next_pipe (kern w)"
  let ?cs = "pipeline as @ [NumberedPipeCommand n err]"
  have Bz: "base_ok (with_pipe B z)" by (rule base_ok_with_pipe [OF B z])
  have room2: "2 \<le> card (room_in (nofile (kern w)) (with_pipe (with_pipe B z) y))"
    using room card_room_with_pipe [of "nofile (kern w)" "with_pipe B z" y] by linarith
  obtain e h1 w1 where 1:
    "run_line cfg self line (plain_line ?cs) h w =
       rbind (run_commands cfg self line 0 0 ?cs h1 w1) (\<lambda>(h2, w2). finish_line ?cs h2 w2)"
    "in_loop (with_pipe (with_pipe B z) (Some (e, ?m))) None y h1 w1" "fresh_in (with_pipe B z) (Some (e, ?m))"
    "eol h1 = e" "shell_frame (h\<lparr>eol := e\<rparr>) w h1 w1"
    "numberPipeList h1 = ring_next (numberPipeList h)" "trace w1 = trace w" "next_pipe (kern w1) = Suc ?m"
    using enter_line [OF Bz y nf k h(1,2) room2, of "plain_line ?cs" cfg self line thesis] by auto
  let ?E = "Some (e, ?m)" and ?B = "with_pipe B (Some (e, ?m))"
  note sw = fresh_swap [OF z 1(3)]
  have swap: "with_pipe (with_pipe B z) ?E = with_pipe ?B z" by (rule with_pipe_swap [OF z 1(3)])
  have nf1: "nofile (kern w1) = nofile (kern w)" using 1(5) by (simp add: shell_frame_def)
  have 4: "4 \<le> card (room_in (nofile (kern w1)) (with_pipe ?B z))"
    unfolding swap [symmetric] nf1 using room card_room_with_pipe [of "nofile (kern w)" "with_pipe B z" ?E] by linarith
  have run1: "\<forall>a \<in> set as. can_run (kern w1) a" using as(2) can_run_frame [OF 1(5)] by simp
  have B': "base_ok ?B" by (rule base_ok_with_pipe [OF B sw(1)])
  have cell: "ring_get (size_t n) (numberPipeList h1) = pipe_of z" using h(3) by (simp add: 1(6))
  have q: "(case z of None \<Rightarrow> next_pipe (kern w1) + length as - 1 | Some (_, q) \<Rightarrow> q) = q"
    by (simp add: q_def 1(8) split: option.split)
  obtain p h2 w2 y' where 2: "run_commands cfg self line 0 0 ?cs h1 w1 = Inr (h2, w2)"
     "in_loop ?B y' (Some (p, q)) h2 w2" "shell_frame h1 w1 h2 w2"
     "numberPipeList h2 = (if z = None then ring_set (size_t n) p (numberPipeList h1) else numberPipeList h1)"
     "z = None \<or> z = Some (p, q)"
     "next_pipe (kern w2) = next_pipe (kern w1) + length as - (if z = None then 0 else 1)"
     "spawned (trace w2) = spawned (trace w1) @
        plumbing_to (kept ?B) (next_pipe (kern w1)) (input_of (with_pipe ?B z) y) q err as"
    using run_target_pipeline [OF 1(2) [unfolded swap] B' sw(2) as(1) run1 4 cell] unfolding q by blast
  let ?x = "Some (p, q)"
  obtain k3 where k3: "k3 = snd (closePipe (pipe_of y') (kern w2))" by simp
  have loop: "fresh_in ?B y'" "fresh_in (with_pipe ?B y') ?x"
      "fds (kern w2) = with_pipe (with_pipe ?B y') ?x" "prevPipe h2 = pipe_of y'"
    using 2(2) unfolding in_loop_def by blast+
  have 3: "fds k3 = with_pipe ?B ?x"
    unfolding k3 by (rule fds_close_under [OF B' loop(1-3)])
  have xB: "fresh_in ?B ?x" by (rule fresh_swap(1) [OF loop(1,2)])
  have frame: "nofile k3 = nofile (kern w2)" "executable k3 = executable (kern w2)"
      "next_pipe k3 = next_pipe (kern w2)"
    by (simp_all add: k3 frame_simps)
  have c: "closePipe (pipe_of y') (kern w2) = (Pipe, k3)"
    using closePipe_eq [of "pipe_of y'"] k3 by metis
  let ?k4 = "readEOF e k3"
  let ?w3 = "emit Await_EOF (w2\<lparr>kern := ?k4\<rparr>)" and ?h3 = "h2\<lparr>prevPipe := Pipe\<rparr>"
  have eol: "eol h2 = e" using 1(4) 2(3) by (simp add: shell_frame_def)
  have "finish_line ?cs h2 w2 = Inr (?h3, ?w3)"
    using c loop(4) eol by (simp add: finish_line_def Let_def emit_def)
  then have "run_line cfg self line (plain_line ?cs) h w = Inr (?h3, ?w3)"
    using 1(1) 2(1) by simp
  moreover have "shell_frame (h\<lparr>eol := e\<rparr>) w ?h3 ?w3"
    using shell_frame_trans [OF 1(5) 2(3)] by (simp add: shell_frame_def frame frame_simps)
  moreover have "fds ?k4 = with_pipe B ?x" by (rule fds_readEOF [OF B sw(1) xB 3])
  moreover have "fresh_in B ?x" by (rule fresh_swap(1) [OF sw(1) xB])
  moreover have "next_pipe ?k4 = ?m + length as + (if z = None then 1 else 0)"
    using as(1) by (simp add: frame frame_simps 2(6) 1(8))
  ultimately show ?thesis
    using 1(6,7,8) 2(4,5,7) kept_with_pipe [OF sw(1)] input_of_with_pipe [OF sw(2)] input_of_with_pipe [OF sw(1)]
    by (intro exI [of _ ?h3] exI [of _ ?w3] exI [of _ p] exI [of _ e])
      (simp del: with_pipe.simps fresh_in.simps add: frame_simps)
qed

subsection \<open>From the text of a line to its run\<close>

lemma pipeline_shape:
  assumes "\<forall>a \<in> set as. a \<noteq> [] \<and> (\<forall>t \<in> set a. plain t)"
  shows "wf_commands (pipeline as) \<and> (\<forall>c \<in> set (pipeline as). printable c)"
  using assms by (induction as rule: pipeline.induct) auto

text \<open>A turn of the shell for the text of a single command line.\<close>

lemma runShell_printed:
  assumes "getServingUserID fd w = (i, w)" and "registered fd w"
    and "getline_cin w = Inr (spaced (commands_text cs), w1)"
    and "cs \<noteq> []" "wf_commands cs" "\<forall>c \<in> set cs. printable c"
    and "run_line cfg i (spaced (commands_text cs)) (plain_line cs) (h\<lparr>shell_fd := fd\<rparr>) w1 = Inr (h', w')"
  shows "runShell cfg fd h w = Inr (h', if running h' \<and> fd = 0 then cout ''% '' w' else w')"
proof -
  let ?h = "h\<lparr>shell_fd := fd\<rparr>"
  have "registered (shell_fd ?h) w1"
    using assms(2) getline_cin_frame(2) [OF assms(3)] by (simp add: registered_def)
  then have "parseCommand cfg (spaced (concat (map commands_text [cs]))) ?h w1 = Inr (map plain_line [cs], ?h, w1)"
    using assms(4-6) by (intro parse_printed) auto
  then show ?thesis using assms(1,3,7) by (simp add: runShell_def)
qed

end
