(* ===== verification/Numbered_Facts.thy ===== *)
theory Numbered_Facts
  imports Line_Facts
begin

text \<open>
  The life of a numbered pipe: the line that creates it, the lines that pass while it waits, and the
  line that reads from it.  Between lines the shell holds at most the pending pipe and what earlier
  lines left open; \<open>waiting B x n h w\<close> says that the pipe \<open>x\<close> (or none) is due in \<open>n\<close> lines.
\<close>

definition waiting ::
    "(int \<Rightarrow> (fobj \<times> bool) option) \<Rightarrow> held \<Rightarrow> int \<Rightarrow> cmd_handler \<Rightarrow> world \<Rightarrow> bool" where
  "waiting B x n h w \<longleftrightarrow>
     base_ok B \<and> fresh_in B x \<and> 3 \<le> nofile (kern w) \<and> fds (kern w) = with_pipe B x \<and>
     prevPipe h = Pipe \<and>
     (\<forall>m. ring_get (size_t m) (numberPipeList h) = (if m mod 1024 = n mod 1024 then pipe_of x else Pipe))"

lemma ring_front_next: "ring_front (ring_next b) = ring_get (size_t 1) b"
  using ring.at_advance [of 0 b] by (simp add: ring_front_get)

text \<open>A numbered line of a shell with nothing pending stores its last pipe \<open>n\<close> lines ahead.\<close>

lemma run_line_numbered:
  assumes wait: "waiting B None n0 h w"
    and room: "6 \<le> card (room_in (nofile (kern w)) B)"
    and as: "as \<noteq> []" "\<forall>a \<in> set as. can_run (kern w) a"
  shows "\<exists>h' w' p e.
     run_line cfg self line (plain_line (pipeline as @ [NumberedPipeCommand n err])) h w = Inr (h', w') \<and>
     waiting B (Some (p, next_pipe (kern w) + length as)) n h' w' \<and>
     shell_frame (h\<lparr>eol := e\<rparr>) w h' w' \<and>
     next_pipe (kern w') = Suc (next_pipe (kern w) + length as) \<and>
     spawned (trace w') = spawned (trace w) @
       plumbing_into (kept B) (Suc (next_pipe (kern w))) (kept B 0) err as"
proof -
  let ?q = "next_pipe (kern w) + length as"
  have w: "base_ok B" "3 \<le> nofile (kern w)" "fds (kern w) = with_pipe (with_pipe B None) None" "prevPipe h = Pipe"
      and empty: "\<And>m. ring_get (size_t m) (numberPipeList h) = Pipe"
    using wait by (simp_all add: waiting_def)
  obtain h' w' p e where 1:
     "run_line cfg self line (plain_line (pipeline as @ [NumberedPipeCommand n err])) h w = Inr (h', w')"
     "fds (kern w') = with_pipe B (Some (p, ?q))" "fresh_in B (Some (p, ?q))" "prevPipe h' = Pipe"
     "numberPipeList h' = ring_set (size_t n) p (ring_next (numberPipeList h))"
     "shell_frame (h\<lparr>eol := e\<rparr>) w h' w'" "next_pipe (kern w') = Suc ?q"
     "spawned (trace w') = spawned (trace w) @
       plumbing_to (kept B) (Suc (next_pipe (kern w))) (kept B 0) ?q err as"
    using run_line_into [of B None None w h n as cfg self line err] w room as empty
    by (auto simp: ring_front_next ring.at_advance)
  have "ring_get (size_t m) (numberPipeList h') = (if m mod 1024 = n mod 1024 then p else Pipe)" for m
    using empty ring.at_store [of m n p "ring_next (numberPipeList h)"] by (auto simp: 1(5) ring.at_advance)
  then have "waiting B (Some (p, ?q)) n h' w'"
    using w 1 by (simp add: waiting_def shell_frame_def)
  then show ?thesis using 1 by (auto simp: plumbing_into_to)
qed

text \<open>An ordinary line while a pipe waits that is not due yet.\<close>

lemma run_line_waiting:
  assumes wait: "waiting B x n h w" and n: "n mod 1024 \<noteq> 1"
    and room: "8 \<le> card (room_in (nofile (kern w)) B)"
    and as: "as \<noteq> []" "\<forall>a \<in> set as. can_run (kern w) a"
  shows "\<exists>h' w' e.
     run_line cfg self line (plain_line (pipeline as)) h w = Inr (h', w') \<and>
     waiting (with_pipe B (Some (e, next_pipe (kern w)))) x (n - 1) h' w' \<and>
     fresh_in B (Some (e, next_pipe (kern w))) \<and> shell_frame (h\<lparr>eol := e\<rparr>) w h' w' \<and>
     next_pipe (kern w') = next_pipe (kern w) + length as \<and>
     spawned (trace w') = spawned (trace w) @
       plumbing (kept B) (Suc (next_pipe (kern w))) (kept B 0) as"
proof -
  let ?n = "next_pipe (kern w)"
  let ?B = "with_pipe B x"
  have w: "base_ok B" "fresh_in B x" "3 \<le> nofile (kern w)" "fds (kern w) = ?B" "prevPipe h = Pipe"
      and cells: "\<And>m. ring_get (size_t m) (numberPipeList h) =
        (if m mod 1024 = n mod 1024 then pipe_of x else Pipe)"
    using wait by (simp_all add: waiting_def)
  have B: "base_ok ?B" "fresh_in ?B None" "fds (kern w) = with_pipe ?B None"
    using base_ok_with_pipe [OF w(1,2)] w(4) by simp_all
  have front: "ring_front (ring_next (numberPipeList h)) = pipe_of None"
    using n by (simp add: ring_front_next cells)
  have "6 \<le> card (room_in (nofile (kern w)) ?B)"
    using room card_room_with_pipe [of "nofile (kern w)" B x] by linarith
  from run_line_pipeline [OF B(1,2) w(3) B(3) w(5) front this as, of cfg self line]
  obtain h' w' e where 1:
     "run_line cfg self line (plain_line (pipeline as)) h w = Inr (h', w')"
     "fds (kern w') = with_pipe ?B (Some (e, ?n))" "fresh_in ?B (Some (e, ?n))"
     "prevPipe h' = Pipe" "shell_frame (h\<lparr>eol := e\<rparr>) w h' w'"
     "numberPipeList h' = ring_next (numberPipeList h)"
     "next_pipe (kern w') = next_pipe (kern w) + length as"
     "spawned (trace w') = spawned (trace w) @ plumbing (kept ?B) (Suc ?n) (input_of ?B None) as"
    by blast
  note sw = fresh_swap [OF w(2) 1(3)]
  have "(m + 1) mod 1024 = n mod 1024 \<longleftrightarrow> m mod 1024 = (n - 1) mod 1024" for m :: int
    by (simp add: mod_eq_dvd_iff algebra_simps)
  then have "ring_get (size_t m) (numberPipeList h') =
      (if m mod 1024 = (n - 1) mod 1024 then pipe_of x else Pipe)" for m
    by (simp add: 1(6) ring.at_advance cells)
  then have "waiting (with_pipe B (Some (e, ?n))) x (n - 1) h' w'"
    using 1(2,4,5) w(3) base_ok_with_pipe [OF w(1) sw(1)] sw(2) with_pipe_swap [OF w(2) 1(3)]
    by (simp add: waiting_def shell_frame_def del: with_pipe.simps fresh_in.simps)
  then show ?thesis
    using 1 sw(1) kept_with_pipe [OF w(2)]
    by (intro exI [of _ h'] exI [of _ w'] exI [of _ e]) (simp del: with_pipe.simps fresh_in.simps)
qed

subsection \<open>Sequences of lines\<close>

fun plumb_lines :: "(int \<Rightarrow> fobj option) \<Rightarrow> nat \<Rightarrow> string list list list
    \<Rightarrow> (string list \<times> (int \<Rightarrow> fobj option)) list" where
  "plumb_lines T n [] = []"
| "plumb_lines T n (as # ass) = plumbing T (Suc n) (T 0) as @ plumb_lines T (n + length as) ass"

lemma run_lines_append:
  "run_lines cfg self line (xs @ ys) h w =
     rbind (run_lines cfg self line xs h w) (\<lambda>(h', w'). run_lines cfg self line ys h' w')"
proof (induction xs arbitrary: h w)
  case (Cons x xs)
  then show ?case by (cases "run_line cfg self line x h w") auto
qed simp

lemma run_lines_waiting:
  assumes "waiting B x n h w" "\<And>k. k < length ass \<Longrightarrow> (n - int k) mod 1024 \<noteq> 1"
    and "6 + 2 * length ass \<le> card (room_in (nofile (kern w)) B)"
    and "\<forall>as \<in> set ass. as \<noteq> [] \<and> (\<forall>a \<in> set as. can_run (kern w) a)"
  shows "\<exists>h' w' B'.
     run_lines cfg self line (map (\<lambda>as. plain_line (pipeline as)) ass) h w = Inr (h', w') \<and>
     waiting B' x (n - int (length ass)) h' w' \<and> kept B' = kept B \<and>
     card (room_in (nofile (kern w)) B) \<le> card (room_in (nofile (kern w)) B') + 2 * length ass \<and>
     nofile (kern w') = nofile (kern w) \<and> executable (kern w') = executable (kern w) \<and>
     next_pipe (kern w') = next_pipe (kern w) + sum_list (map length ass) \<and>
     spawned (trace w') = spawned (trace w) @ plumb_lines (kept B) (next_pipe (kern w)) ass"
  using assms
proof (induction ass arbitrary: B n h w)
  case Nil
  then show ?case by (intro exI [of _ h] exI [of _ w] exI [of _ B]) simp
next
  case (Cons as ass)
  let ?E = "\<lambda>e. Some (e, next_pipe (kern w))"
  have "n mod 1024 \<noteq> 1" using Cons.prems(2) [of 0] by simp
  moreover have "8 \<le> card (room_in (nofile (kern w)) B)" using Cons.prems(3) by simp
  ultimately obtain h1 w1 e where 1:
     "run_line cfg self line (plain_line (pipeline as)) h w = Inr (h1, w1)"
     "waiting (with_pipe B (?E e)) x (n - 1) h1 w1" "fresh_in B (?E e)"
     "shell_frame (h\<lparr>eol := e\<rparr>) w h1 w1" "next_pipe (kern w1) = next_pipe (kern w) + length as"
     "spawned (trace w1) = spawned (trace w) @
        plumbing (kept B) (Suc (next_pipe (kern w))) (kept B 0) as"
    using run_line_waiting [OF Cons.prems(1), of as cfg self line] Cons.prems(4)
    by (metis list.set_intros(1))
  let ?B = "with_pipe B (?E e)"
  have frame: "nofile (kern w1) = nofile (kern w)" "executable (kern w1) = executable (kern w)"
    using 1(4) by (simp_all add: shell_frame_def)
  have B: "kept ?B = kept B" by (rule kept_with_pipe [OF 1(3)])
  have room: "card (room_in (nofile (kern w)) B) \<le> card (room_in (nofile (kern w)) ?B) + 2"
    by (rule card_room_with_pipe)
  have arith: "6 + 2 * Suc a \<le> c \<Longrightarrow> c \<le> d + 2 \<Longrightarrow> 6 + 2 * a \<le> d"
      "c \<le> d + 2 \<Longrightarrow> d \<le> c' + 2 * a \<Longrightarrow> c \<le> c' + 2 * Suc a" for a c c' d :: nat
    by simp_all
  have "(n - 1 - int k) mod 1024 \<noteq> 1" if "k < length ass" for k
    using Cons.prems(2) [of "Suc k"] that by (simp add: algebra_simps)
  moreover have "6 + 2 * length ass \<le> card (room_in (nofile (kern w1)) ?B)"
    unfolding frame using Cons.prems(3) room by (auto simp only: length_Cons intro: arith)
  moreover have "\<forall>as \<in> set ass. as \<noteq> [] \<and> (\<forall>a \<in> set as. can_run (kern w1) a)"
    using Cons.prems(4) can_run_frame [OF 1(4)] by simp
  ultimately obtain h' w' B' where 2:
     "run_lines cfg self line (map (\<lambda>as. plain_line (pipeline as)) ass) h1 w1 = Inr (h', w')"
     "waiting B' x (n - 1 - int (length ass)) h' w'" "kept B' = kept ?B"
     "card (room_in (nofile (kern w1)) ?B) \<le> card (room_in (nofile (kern w1)) B') + 2 * length ass"
     "nofile (kern w') = nofile (kern w1)" "executable (kern w') = executable (kern w1)"
     "next_pipe (kern w') = next_pipe (kern w1) + sum_list (map length ass)"
     "spawned (trace w') = spawned (trace w1) @ plumb_lines (kept ?B) (next_pipe (kern w1)) ass"
    using Cons.IH [OF 1(2)] by blast
  have "waiting B' x (n - int (length (as # ass))) h' w'"
    using 2(2) by (simp add: algebra_simps)
  moreover have "card (room_in (nofile (kern w)) B) \<le>
      card (room_in (nofile (kern w)) B') + 2 * length (as # ass)"
    using room 2(4) unfolding frame by (auto simp only: length_Cons intro: arith)
  ultimately show ?case
    using 1(1,5,6) 2(1,3,5-) B frame by (intro exI [of _ h'] exI [of _ w'] exI [of _ B']) simp
qed

text \<open>The line that is due reads from the pipe; the cell keeps the closed descriptors.\<close>

lemma run_line_due:
  assumes wait: "waiting B (Some (p, q)) n h w" and n: "n mod 1024 = 1"
    and room: "6 \<le> card (room_in (nofile (kern w)) B)"
    and as: "as \<noteq> []" "\<forall>a \<in> set as. can_run (kern w) a"
  shows "\<exists>h' w' e.
     run_line cfg self line (plain_line (pipeline as)) h w = Inr (h', w') \<and>
     fds (kern w') = with_pipe B (Some (e, next_pipe (kern w))) \<and>
     fresh_in B (Some (e, next_pipe (kern w))) \<and>
     fresh_in (with_pipe B (Some (p, q))) (Some (e, next_pipe (kern w))) \<and>
     prevPipe h' = Pipe \<and> ring_front (numberPipeList h') = p \<and>
     spawned (trace w') = spawned (trace w) @
       plumbing (kept B) (Suc (next_pipe (kern w))) (Some (PipeR q)) as"
proof -
  have w: "base_ok B" "fresh_in B (Some (p, q))" "3 \<le> nofile (kern w)"
      "fds (kern w) = with_pipe B (Some (p, q))" "prevPipe h = Pipe"
      and front: "ring_front (ring_next (numberPipeList h)) = pipe_of (Some (p, q))"
    using wait n by (simp_all add: waiting_def ring_front_next)
  from run_line_pipeline [OF w front room as, of cfg self line] front
  show ?thesis by (simp del: with_pipe.simps fresh_in.simps) metis
qed

subsection \<open>Running out of descriptors\<close>

lemma run_line_single:
  assumes wait: "waiting B None n h w" and room: "2 \<le> card (room_in (nofile (kern w)) B)"
    and run: "can_run (kern w) a"
  shows "\<exists>h' w' e.
     run_line cfg self line (plain_line [ExeCommand a]) h w = Inr (h', w') \<and>
     waiting (with_pipe B (Some (e, next_pipe (kern w)))) None n h' w' \<and>
     card (room_in (nofile (kern w)) (with_pipe B (Some (e, next_pipe (kern w))))) + 2 =
       card (room_in (nofile (kern w)) B) \<and>
     fresh_in B (Some (e, next_pipe (kern w))) \<and> shell_frame (h\<lparr>eol := e\<rparr>) w h' w'"
proof -
  let ?n = "next_pipe (kern w)" and ?l = "plain_line [ExeCommand a]"
  have w: "base_ok B" "fresh_in B None" "3 \<le> nofile (kern w)" "fds (kern w) = with_pipe B None"
      "prevPipe h = Pipe" "ring_front (ring_next (numberPipeList h)) = pipe_of None"
      "2 \<le> card (room_in (nofile (kern w)) (with_pipe B None))"
      and empty: "\<And>m. ring_get (size_t m) (numberPipeList h) = Pipe"
    using wait room by (simp_all add: waiting_def ring_front_next)
  obtain e h1 w1 where 1:
    "run_line cfg self line ?l h w =
       rbind (run_commands cfg self line 0 0 [ExeCommand a] h1 w1)
         (\<lambda>(h2, w2). finish_line [ExeCommand a] h2 w2)"
    "in_loop (with_pipe B (Some (e, ?n))) None None h1 w1" "fresh_in B (Some (e, ?n))"
    "shell_frame (h\<lparr>eol := e\<rparr>) w h1 w1" "numberPipeList h1 = ring_next (numberPipeList h)"
    "fd_in e \<in> room_in (nofile (kern w)) B" "fd_out e \<in> room_in (nofile (kern w)) B"
    using enter_line [OF w, of ?l cfg self line thesis] by auto
  let ?B = "with_pipe B (Some (e, ?n))"
  have "can_run (kern w1) a" using run can_run_frame [OF 1(4)] by simp
  then obtain h2 w2 where 2: "run_commands cfg self line 0 0 [ExeCommand a] h1 w1 = Inr (h2, w2)"
      "fds (kern w2) = with_pipe ?B None" "prevPipe h2 = pipe_of None" "currPipe h2 = pipe_of None"
      "shell_frame h1 w1 h2 w2" "numberPipeList h2 = numberPipeList h1"
    using run_last_command [OF 1(2)] by metis
  let ?w3 = "emit (Wait (snd (pipelineProcessor h2))) w2"
  have "finish_line [ExeCommand a] h2 w2 = Inr (h2, ?w3)"
    using 2(3,4) by (cases h2) (simp add: finish_line_def Let_def emit_def)
  then have "run_line cfg self line ?l h w = Inr (h2, ?w3)"
    using 1(1) 2(1) by simp
  moreover have sf: "shell_frame (h\<lparr>eol := e\<rparr>) w h2 ?w3"
    using shell_frame_trans [OF 1(4) 2(5)] by (simp add: shell_frame_def)
  moreover have "waiting ?B None n h2 ?w3"
    using 1(2) 2 sf w(3) empty
    by (simp add: waiting_def in_loop_def shell_frame_def 1(5) ring.at_advance del: with_pipe.simps(2))
  moreover have "room_in (nofile (kern w)) ?B = room_in (nofile (kern w)) B - {fd_in e, fd_out e}"
    by (auto simp: room_in_def)
  then have "card (room_in (nofile (kern w)) ?B) + 2 = card (room_in (nofile (kern w)) B)"
    using 1(3,6,7) room card_Diff_subset [of "{fd_in e, fd_out e}" "room_in (nofile (kern w)) B"] by simp
  ultimately show ?thesis
    using 1(3) by blast
qed

lemma run_lines_single:
  assumes "waiting B None n h w" "can_run (kern w) a"
    and "2 * k \<le> card (room_in (nofile (kern w)) B)"
  shows "\<exists>h' w' B'.
     run_lines cfg self line (replicate k (plain_line [ExeCommand a])) h w = Inr (h', w') \<and>
     waiting B' None n h' w' \<and> nofile (kern w') = nofile (kern w) \<and>
     card (room_in (nofile (kern w)) B') + 2 * k = card (room_in (nofile (kern w)) B)"
  using assms
proof (induction k arbitrary: B h w)
  case 0
  then show ?case by (intro exI [of _ h] exI [of _ w] exI [of _ B]) simp
next
  case (Suc k)
  let ?l = "plain_line [ExeCommand a]"
  from Suc.prems(3) have "2 \<le> card (room_in (nofile (kern w)) B)" by simp
  then obtain h1 w1 e where 1: "run_line cfg self line ?l h w = Inr (h1, w1)"
     "waiting (with_pipe B (Some (e, next_pipe (kern w)))) None n h1 w1"
     "card (room_in (nofile (kern w)) (with_pipe B (Some (e, next_pipe (kern w))))) + 2 =
       card (room_in (nofile (kern w)) B)" "shell_frame (h\<lparr>eol := e\<rparr>) w h1 w1"
    using run_line_single [OF Suc.prems(1) _ Suc.prems(2), of cfg self line] by blast
  let ?B = "with_pipe B (Some (e, next_pipe (kern w)))"
  have nf: "nofile (kern w1) = nofile (kern w)" using 1(4) by (simp add: shell_frame_def)
  have run: "can_run (kern w1) a" using Suc.prems(2) can_run_frame [OF 1(4)] by simp
  have "2 * k \<le> card (room_in (nofile (kern w1)) ?B)"
    unfolding nf using Suc.prems(3) 1(3) by (simp only: mult_Suc_right)
  from Suc.IH [OF 1(2) run this] obtain h' w' B' where 2:
     "run_lines cfg self line (replicate k ?l) h1 w1 = Inr (h', w')" "waiting B' None n h' w'"
     "nofile (kern w') = nofile (kern w1)"
     "card (room_in (nofile (kern w1)) B') + 2 * k = card (room_in (nofile (kern w1)) ?B)"
    by blast
  have "card (room_in (nofile (kern w)) B') + 2 * Suc k = card (room_in (nofile (kern w)) B)"
    using 2(4) 1(3) unfolding nf by (simp only: mult_Suc_right)
  then show ?case
    using 1(1) 2 nf by (intro exI [of _ h'] exI [of _ w'] exI [of _ B']) simp
qed

lemma run_line_no_room:
  "card (room_of (kern w)) \<le> 1 \<Longrightarrow> run_line cfg self line l h w = Inl Exit_Failure"
  by (simp add: run_line_def pipe_create_full)

end
