(* ===== verification/Cast_Safety.thy ===== *)
theory Cast_Safety
  imports Shell_Run Parser_Facts
begin

text \<open>
  No reachable cast in \<open>runShell\<close> throws.  \<open>runShell\<close> casts the element after a command to
  \<open>PipeCommand&\<close>, which throws \<open>std::bad_cast\<close> for an \<open>ExeCommand\<close>; the shape \<open>wf_commands\<close> of what
  the parser produces excludes it.  The other operations cannot fail this way, which the lemmas of
  the first part collect, one per function, in \<open>no_cast\<close>.
\<close>

named_theorems no_cast \<open>operations that never fail with \<open>Bad_Cast\<close>\<close>

definition safe_cast :: "'a result \<Rightarrow> bool" where
  "safe_cast r \<longleftrightarrow> r \<noteq> Inl Bad_Cast"

lemma safe_cast_simps [simp]: "safe_cast (Inr x)" "safe_cast (Inl e) \<longleftrightarrow> e \<noteq> Bad_Cast"
  by (simp_all add: safe_cast_def)

lemma safe_rbind [intro]: "safe_cast r \<Longrightarrow> (\<And>x. r = Inr x \<Longrightarrow> safe_cast (f x)) \<Longrightarrow> safe_cast (rbind r f)"
  by (cases r) auto

lemma safe_rfold [intro]: "(\<And>x s. safe_cast (f x s)) \<Longrightarrow> safe_cast (rfold f xs s)"
  by (induction xs arbitrary: s) auto

subsection \<open>Server operations\<close>

lemma user_at_no_cast [no_cast]: "safe_cast (user_at w i)"
  by (simp add: user_at_def split: option.split)

lemma user_pipe_no_cast [no_cast]: "safe_cast (user_pipe u i)"
  by (simp add: user_pipe_def)

lemma strcpy_no_cast [no_cast]: "safe_cast (strcpy_into n s)"
  by (simp add: strcpy_into_def)

lemma sendRawMessage_no_cast [no_cast]: "safe_cast (sendRawMessage cfg i msg w)"
  by (cases cfg) (auto simp: sendRawMessage_def intro!: safe_rbind no_cast)

lemma broadcastMessage_no_cast [no_cast]: "safe_cast (broadcastMessage cfg msg w)"
  by (cases cfg) (auto simp: broadcastMessage_def intro!: no_cast safe_rbind safe_rfold)

lemma Who_no_cast [no_cast]: "safe_cast (Who cfg self w)"
  by (cases cfg) (auto simp: Who_def Let_def intro!: no_cast safe_rbind safe_rfold)

lemma Tell_no_cast [no_cast]: "safe_cast (Tell cfg self uid msg w)"
  by (cases cfg) (auto simp: Tell_def intro!: safe_rbind no_cast)

lemma Yell_no_cast [no_cast]: "safe_cast (Yell cfg self msg w)"
  by (cases cfg) (auto simp: Yell_def Let_def intro!: no_cast safe_rbind safe_rfold)

lemma name_taken_no_cast [no_cast]: "safe_cast (name_taken w nm is)"
  by (induction "is") (auto intro!: safe_rbind no_cast)

lemma Name_no_cast [no_cast]: "safe_cast (Name cfg self nm w)"
  by (cases cfg) (auto simp: Name_def intro!: safe_rbind no_cast)

lemma pipe_create_no_cast [no_cast]: "safe_cast (pipe_create k)"
  by (simp add: pipe_create_def split: option.split prod.split)

lemma handleUserPipe_no_cast [no_cast]: "safe_cast (handleUserPipe cfg self uid mode ue pe w)"
  by (cases cfg) (auto simp: handleUserPipe_def intro!: safe_rbind no_cast split: prod.split)

lemma writeUserPipe_no_cast [no_cast]: "safe_cast (writeUserPipe cfg self uid cmd rd w)"
  by (cases cfg) (auto simp: writeUserPipe_def intro!: safe_rbind no_cast split: prod.split)

lemma copy_chunks_no_cast [no_cast]: "safe_cast (copy_chunks s)"
proof (induction s rule: copy_chunks.induct)
  case (1 s)
  then show ?case
    by (subst copy_chunks.simps) (auto simp: Let_def intro!: safe_rbind)
qed

lemma readFIFO_no_cast [no_cast]: "safe_cast (readFIFO_writePipe fd w)"
  by (auto simp: readFIFO_writePipe_def Let_def intro!: safe_rbind no_cast
      split: prod.split option.split fobj.split)

lemma readUserPipe_no_cast [no_cast]: "safe_cast (readUserPipe cfg self uid cmd wr w)"
  by (cases cfg)
    (auto simp: readUserPipe_def Let_def intro!: safe_rbind no_cast split: prod.split)

subsection \<open>The parser\<close>

lemma safe_if: "safe_cast x \<Longrightarrow> safe_cast y \<Longrightarrow> safe_cast (if b then x else y)"
  by simp

lemma parse_chat_no_cast [no_cast]:
  "safe_cast (parse_tell cfg self st)" "safe_cast (parse_yell cfg self st)"
  "safe_cast (parse_name cfg self st)"
  by (auto simp: parse_tell_def parse_yell_def parse_name_def
      intro!: safe_rbind no_cast split: prod.split option.split)

lemma parse_token_no_cast [no_cast]: "safe_cast (parse_token cfg self tok st)"
  unfolding parse_token_def by (intro safe_if no_cast safe_rbind safe_cast_simps(1))

lemma parse_loop_no_cast [no_cast]: "safe_cast (parse_loop cfg self st)"
proof (induction cfg self st rule: parse_loop.induct)
  case (1 cfg self st)
  show ?case
    by (subst parse_loop.simps) (auto intro!: safe_rbind no_cast 1 split: prod.split option.split)
qed

lemma parseCommand_no_cast [no_cast]: "safe_cast (parseCommand cfg command h w)"
  by (auto simp: parseCommand_def Let_def intro!: safe_rbind no_cast split: prod.split)

lemma getline_cin_no_cast [no_cast]: "safe_cast (getline_cin w)"
  by (auto simp: getline_cin_def split: option.split)

subsection \<open>Running a parsed line\<close>

lemma createPipe_no_cast: "getType c \<noteq> EXE \<Longrightarrow> safe_cast (createPipe c h k)"
  by (cases c) (auto simp: Let_def intro!: safe_rbind no_cast split: prod.split)

lemma connect_next_no_cast:
  "getType nxt \<noteq> EXE \<Longrightarrow> safe_cast (connect_next cfg self line rd wr nxt h w)"
  by (auto simp: connect_next_def intro!: safe_rbind no_cast createPipe_no_cast)

lemma run_commands_no_cast:
  "wf_commands cs \<Longrightarrow> safe_cast (run_commands cfg self line rd wr cs h w)"
proof (induction cs arbitrary: h w rule: wf_commands.induct)
  case (2 c)
  then show ?case by (auto simp: getType_EXE Let_def split: prod.split)
next
  case (3 c d cs)
  then obtain args where c: "c = ExeCommand args" by (auto simp: getType_EXE)
  have rest: "run_commands cfg self line rd wr (d # cs) h w = run_commands cfg self line rd wr cs h w" for h w
    using 3(2) by (cases d) auto
  have "getType d \<noteq> EXE" "wf_commands cs" using 3(2) by auto
  then show ?case
    using 3(1) connect_next_no_cast [of d cfg self line rd wr]
    by (auto simp: c Let_def rest intro!: safe_rbind split: prod.split)
qed simp

lemma run_line_no_cast: "wf_line l \<Longrightarrow> safe_cast (run_line cfg self line l h w)"
  using run_commands_no_cast [of "npCommands l"]
  by (auto simp: run_line_def wf_line_def finish_line_def Let_def intro!: safe_rbind no_cast
      split: prod.split)

lemma run_lines_no_cast: "\<forall>l \<in> set ls. wf_line l \<Longrightarrow> safe_cast (run_lines cfg self line ls h w)"
  by (induction ls arbitrary: h w) (auto intro!: safe_rbind run_line_no_cast)

end
