(* ===== verification/Sample_World.thy ===== *)
theory Sample_World
  imports Shell_Run
begin

text \<open>
  Concrete states on which the properties are applied: a process with its three standard descriptors
  open, a limit of \<open>n\<close> descriptors, and every program executable except those whose name starts
  with \<open>x\<close>.
\<close>

definition sample_table :: "int \<Rightarrow> (fobj \<times> bool) option" where
  "sample_table i = (if i = 0 \<or> i = 1 \<or> i = 2 then Some (Terminal 0, False) else None)"

definition sample_kernel :: "nat \<Rightarrow> kernel" where
  "sample_kernel n =
     \<lparr>fds = sample_table, nofile = n, next_pipe = 0, next_pid = 100, openable = (\<lambda>_. True),
      executable = (\<lambda>p. p = [] \<or> hd p \<noteq> CHR ''x''), fifo_dir = True, fifos = (\<lambda>_. False),
      fifo_data = (\<lambda>_. []), fifo_writer = (\<lambda>_. False)\<rparr>"

definition sample_user :: "int \<Rightarrow> string \<Rightarrow> user_info" where
  "sample_user s n = UserInfo\<lparr>sock := s, name := n, ip := ''1.2.3.4'', port := 50000,
                              isConnected := True, pid := 700 + s\<rparr>"

definition sample_world :: "nat \<Rightarrow> (int, user_info) smap \<Rightarrow> (int, int) smap \<Rightarrow> string \<Rightarrow> world" where
  "sample_world n us tab input =
     \<lparr>users = us, env_table = [], sockID_table = tab, cur_uid = 1, serverIn = 0, serverOut = 1,
      serverErr = 2, kern = sample_kernel n, environ = [], stdin_buf = input, cin_good = True,
      incoming = (\<lambda>_. []), trace = []\<rparr>"

lemma sample_world_sel [simp]:
  "users (sample_world n us tab s) = us" "sockID_table (sample_world n us tab s) = tab"
  "kern (sample_world n us tab s) = sample_kernel n" "stdin_buf (sample_world n us tab s) = s"
  "cin_good (sample_world n us tab s)" "trace (sample_world n us tab s) = []"
  "env_table (sample_world n us tab s) = []" "incoming (sample_world n us tab s) ob = []"
  by (simp_all add: sample_world_def)

lemma sample_kernel_sel [simp]:
  "fds (sample_kernel n) = sample_table" "nofile (sample_kernel n) = n"
  "next_pipe (sample_kernel n) = 0" "executable (sample_kernel n) p = (p = [] \<or> hd p \<noteq> CHR ''x'')"
  "fifo_dir (sample_kernel n)" "\<not> fifos (sample_kernel n) f"
  by (simp_all add: sample_kernel_def)

lemma sample_user_sel [simp]:
  "sock (sample_user s n) = s" "name (sample_user s n) = n" "isConnected (sample_user s n)"
  "userPipes (sample_user s n) i = Pipe" "pid (sample_user s n) = 700 + s"
  by (simp_all add: sample_user_def UserInfo_def)

lemma sample_room: "{i. 0 \<le> i \<and> i < int n \<and> sample_table i = None} = {3..<int n}"
  by (auto simp: sample_table_def)

lemma card_sample_room [simp]: "card {i. 0 \<le> i \<and> i < int n \<and> sample_table i = None} = n - 3"
  by (simp add: sample_room)

lemma free_from_numeral [simp]:
  "free_from t i (numeral n) = (if t i = None then Some i else free_from t (i + 1) (pred_numeral n))"
  by (simp add: numeral_eq_Suc)

lemma sample_getline:
  assumes "newline \<notin> set l"
  shows "getline_cin (sample_world n us tab (l @ [newline])) = Inr (l, sample_world n us tab [])"
proof -
  have "takeWhile (\<lambda>c. c \<noteq> newline) (l @ [newline]) = l" "dropWhile (\<lambda>c. c \<noteq> newline) (l @ [newline]) = [newline]"
    using assms by (auto intro!: takeWhile_append_stop dropWhile_append_stop)
  then show ?thesis
    by (simp add: getline_cin_def obj_at_def sample_table_def fill_line.simps sample_world_def sample_kernel_def fun_eq_iff)
qed

end
