(* ===== verification/Shell_Properties.thy ===== *)
theory Shell_Properties
  imports Numbered_Facts Cast_Safety Sample_World
begin

text \<open>
  The properties of the shell: what the parser hands over, what every program of a pipeline is
  connected to, when a numbered pipe is delivered, and how descriptors are used up.
\<close>

subsection \<open>Concrete states\<close>

lemma sample_waiting: "3 \<le> n \<Longrightarrow> waiting sample_table None i CmdHandler (sample_world n us tab s)"
  by (simp add: waiting_def base_ok_def sample_table_def CmdHandler_def ring_get_def ring_new_def)

lemma sample_room_in [simp]: "card (room_in n sample_table) = n - 3"
  by (simp add: room_in_def)

lemma sample_can_run: "can_run (sample_kernel n) a \<longleftrightarrow> a \<noteq> [] \<and> (hd a = [] \<or> hd (hd a) \<noteq> CHR ''x'')"
  by (simp add: can_run_def)

lemma sample_registered: "registered 4 (sample_world n us [(4, 1)] s)"
  by (simp add: registered_def)

subsection \<open>The parser\<close>

text \<open>C15. Every command line that \<open>parseCommand\<close> queues is well formed (it is not empty, commands
  and connectors alternate, a numbered pipe only stands at its end), and every line but the last
  ends in a numbered pipe, whatever the input line was.\<close>

theorem parse_wellformed:
  assumes "parseCommand cfg command h w = Inr (ls, h', w')"
  shows "(\<forall>l \<in> set ls. wf_line l) \<and> (\<forall>l \<in> set (butlast ls). getType (last (npCommands l)) = NUMBERED_PIPE)"
  using parseCommand_wf [OF assms] by blast

theorem parse_wellformed_witness:
  "\<exists>l1 l2. parseCommand No_SHM (spaced [''ls'', ''|2'', ''cat'']) (CmdHandler\<lparr>shell_fd := 4\<rparr>)
     (sample_world 64 [] [(4, 1)] []) =
       Inr ([l1, l2], CmdHandler\<lparr>shell_fd := 4\<rparr>, sample_world 64 [] [(4, 1)] []) \<and>
     getType (last (npCommands l1)) = NUMBERED_PIPE"
proof -
  let ?h = "CmdHandler\<lparr>shell_fd := 4\<rparr>" and ?w = "sample_world 64 [] [(4, 1)] []"
  let ?css = "[[ExeCommand [''ls''], NumberedPipeCommand 2 False], [ExeCommand [''cat'']]]"
  have "spaced (concat (map commands_text ?css)) = spaced [''ls'', ''|2'', ''cat'']"
    by code_simp
  moreover have "\<forall>cs \<in> set ?css. cs \<noteq> [] \<and> wf_commands cs \<and> (\<forall>c \<in> set cs. printable c)"
    by code_simp
  ultimately have *: "parseCommand No_SHM (spaced [''ls'', ''|2'', ''cat'']) ?h ?w =
      Inr (map plain_line ?css, ?h, ?w)"
    using parse_printed [of ?h ?w ?css No_SHM] sample_registered by simp
  show ?thesis using parse_wellformed [OF *] * by auto
qed



text \<open>A pipe number given with \<open><n\<close> before a numbered pipe also holds for the next command line
  typed on the same input line, although that line names no user pipe: moving a command line out of
  \<open>NpCommandLine\<close> keeps its integers.\<close>

theorem user_pipe_id_survives_numbered_pipe:
  assumes "registered (shell_fd h) w"
    and "as \<noteq> []" and "\<forall>a \<in> set as. plain a" and "bs \<noteq> []" and "\<forall>b \<in> set bs. plain b"
    and "0 \<le> u" and "u \<le> int_max" and "0 \<le> n" and "n \<le> int_max"
  shows "parseCommand cfg (spaced (as @ [CHR ''<'' # nat_text (nat u), CHR ''|'' # nat_text (nat n)] @ bs)) h w =
     Inr ([NpCommandLine\<lparr>npCommands := [ExeCommand as, NumberedPipeCommand n False], readUid := u\<rparr>,
           NpCommandLine\<lparr>npCommands := [ExeCommand bs], readUid := u\<rparr>], h, w)"
proof -
  obtain i where i: "getServingUserID (shell_fd h) w = (i, w)"
    using getServingUserID_registered [OF assms(1)] by blast
  let ?read = "CHR ''<'' # nat_text (nat u)" and ?num = "CHR ''|'' # nat_text (nat n)"
  let ?st = "\<lparr>iss = stream (as @ ?read # ?num # bs), queue = [], cur = plain_line [], argv = [],
              sh = h, wd = w\<rparr>"
  let ?st1 = "?st\<lparr>iss := stream (?read # ?num # bs), argv := as\<rparr>"
  let ?st2 = "?st1\<lparr>iss := stream (?num # bs), cur := (plain_line [])\<lparr>readUid := u\<rparr>\<rparr>"
  let ?st3 = "end_line (push (NumberedPipeCommand n False) (push_exe (?st2\<lparr>iss := stream (bs @ [])\<rparr>)))"
  have "parse_loop cfg i ?st = parse_loop cfg i ?st1"
    using parse_plain_words [of ?st as "?read # ?num # bs" cfg i] assms(3) by simp
  also have "\<dots> = parse_loop cfg i ?st2"
  proof -
    have "is_word ?read" by (rule is_word_prefixed_number) (simp add: isspace_def code_def)
    moreover have "parse_token cfg i ?read (?st1\<lparr>iss := stream (?num # bs)\<rparr>) = Inr ?st2"
      using number_token_not_builtin [of "CHR ''<''" "nat u"] assms(6,7)
      by (simp add: parse_token_def parse_read_user_def builtins_def atoi_nat_text)
    ultimately show ?thesis by (subst parse_loop_token) auto
  qed
  also have "\<dots> = parse_loop cfg i ?st3"
    using assms(8,9) by (subst parse_loop_numbered [of _ n False bs]) auto
  also have "\<dots> = parse_loop cfg i (?st3\<lparr>iss := stream [], argv := argv ?st3 @ bs\<rparr>)"
    by (rule parse_plain_words) (use assms(5) in auto)
  finally show ?thesis
    unfolding parseCommand_collected [OF i] istringstream_def
    using assms(4) by (simp add: parse_loop_end collected_def addCommand_def moved_from_def
        plain_line_def NpCommandLine_def)
qed

theorem user_pipe_id_survives_numbered_pipe_witness:
  "parseCommand No_SHM '' cat <2 |1 number'' (CmdHandler\<lparr>shell_fd := 4\<rparr>) (sample_world 64 [] [(4, 1)] []) =
   Inr ([NpCommandLine\<lparr>npCommands := [ExeCommand [''cat''], NumberedPipeCommand 1 False], readUid := 2\<rparr>,
         NpCommandLine\<lparr>npCommands := [ExeCommand [''number'']], readUid := 2\<rparr>],
        CmdHandler\<lparr>shell_fd := 4\<rparr>, sample_world 64 [] [(4, 1)] [])"
proof -
  have "spaced ([''cat''] @ [CHR ''<'' # nat_text (nat 2), CHR ''|'' # nat_text (nat 1)] @ [''number'']) =
      '' cat <2 |1 number''" by code_simp
  moreover have "plain ''cat''" "plain ''number''" by code_simp+
  ultimately show ?thesis
    using user_pipe_id_survives_numbered_pipe [of "CmdHandler\<lparr>shell_fd := 4\<rparr>"
        "sample_world 64 [] [(4, 1)] []" "[''cat'']" "[''number'']" 2 1 No_SHM] sample_registered
    by (simp add: int_max_def)
qed

text \<open>C32. No turn of the shell ends in \<open>std::bad_cast\<close>: the reference cast of the element after a
  command is safe for everything the parser can produce, in both configurations.\<close>

theorem runShell_never_bad_cast: "runShell cfg fd h w \<noteq> Inl Bad_Cast"
proof -
  have "safe_cast (runShell cfg fd h w)"
    by (auto simp: runShell_def intro!: safe_rbind no_cast run_lines_no_cast
        dest: parseCommand_wf(1) split: prod.split)
  then show ?thesis by (simp add: safe_cast_def)
qed

subsection \<open>Pipelines\<close>

text \<open>A typed pipeline runs each program with the shell's table in which the standard input is the
  read end of the pipe after the program before it and the standard output is the write end of the
  pipe before the program after it, the first program's input and the last one's output being the
  shell's own; afterwards every pipe is closed again except \<open>eol\<close>, whose two ends stay open.\<close>

theorem runShell_pipeline:
  assumes "waiting B None n h w" and "registered fd w"
    and "getline_cin w = Inr (spaced (commands_text (pipeline as)), w1)"
    and "as \<noteq> []" and "\<forall>a \<in> set as. a \<noteq> [] \<and> (\<forall>t \<in> set a. plain t) \<and> can_run (kern w) a"
    and "6 \<le> card (room_in (nofile (kern w)) B)"
  shows "\<exists>h' w'. runShell cfg fd h w = Inr (h', w') \<and>
     spawned (trace w') = spawned (trace w) @ plumbing (kept B) (Suc (next_pipe (kern w))) (kept B 0) as \<and>
     fresh_in B (Some (eol h', next_pipe (kern w))) \<and>
     fds (kern w') = with_pipe B (Some (eol h', next_pipe (kern w)))"
proof -
  obtain i where i: "getServingUserID fd w = (i, w)"
    using getServingUserID_registered [OF assms(2)] by blast
  note w1 = getline_cin_frame [OF assms(3)]
  let ?h = "h\<lparr>shell_fd := fd\<rparr>" and ?line = "spaced (commands_text (pipeline as))"
  have wait: "waiting B None n ?h w1"
    using assms(1) w1(3) by (simp add: waiting_def)
  obtain h' w' e where r: "run_line cfg i ?line (plain_line (pipeline as)) ?h w1 = Inr (h', w')"
     "fds (kern w') = with_pipe B (Some (e, next_pipe (kern w1)))"
     "fresh_in B (Some (e, next_pipe (kern w1)))" "shell_frame (?h\<lparr>eol := e\<rparr>) w1 h' w'"
     "spawned (trace w') = spawned (trace w1) @
       plumbing (kept B) (Suc (next_pipe (kern w1))) (input_of B None) as"
    using run_line_pipeline [of B None w1 ?h as cfg i ?line] assms(4,5,6) wait w1(3)
    by (simp add: waiting_def ring_front_next del: fresh_in.simps with_pipe.simps(2)) blast
  have "eol h' = e" using r(4) by (simp add: shell_frame_def)
  moreover have "wf_commands (pipeline as)" "\<forall>c \<in> set (pipeline as). printable c" "pipeline as \<noteq> []"
    using pipeline_shape [of as] pipeline_last [OF assms(4)] assms(5) by auto
  ultimately show ?thesis
    using runShell_printed [OF i assms(2,3) _ _ _ r(1)] r w1(3,5)
    by (simp del: with_pipe.simps fresh_in.simps)
qed

theorem runShell_pipeline_witness:
  "\<exists>h' w'. runShell No_SHM 4 CmdHandler (sample_world 64 [] [(4, 1)] ('' ls | cat'' @ [newline])) = Inr (h', w') \<and>
     spawned (trace w') =
       [([''ls''], (kept sample_table)(0 \<mapsto> Terminal 0, 1 \<mapsto> PipeW 1)),
        ([''cat''], (kept sample_table)(0 \<mapsto> PipeR 1))]"
proof -
  have shown: "spaced (commands_text (pipeline [[''ls''], [''cat'']])) = '' ls | cat''" by code_simp
  have words: "plain ''ls''" "plain ''cat''" by code_simp+
  have line: "getline_cin (sample_world 64 [] [(4, 1)] ('' ls | cat'' @ [newline])) =
      Inr (spaced (commands_text (pipeline [[''ls''], [''cat'']])), sample_world 64 [] [(4, 1)] [])"
    unfolding shown by (rule sample_getline) (simp add: newline_def)
  show ?thesis
    using runShell_pipeline [OF sample_waiting sample_registered line, where cfg = No_SHM] words
    by (simp add: sample_can_run kept_def sample_table_def del: with_pipe.simps fresh_in.simps) blast
qed

subsection \<open>Numbered pipes\<close>

text \<open>C5. A line that ends in \<open>|N\<close> (or \<open>!N\<close>) sends its last program's standard output (and error output)
  into a pipe that the first program of the \<open>N\<close>-th line after it reads; the \<open>N - 1\<close> lines between
  run with the shell's own input and do not touch that pipe.\<close>

theorem numbered_pipe_delivery:
  assumes "waiting B None n0 h w" and "1 \<le> N" and "N \<le> 1023" and "length mids = N - 1"
    and "\<forall>as \<in> set (first # mids @ [reader]). as \<noteq> [] \<and> (\<forall>a \<in> set as. can_run (kern w) a)"
    and "6 + 2 * N \<le> card (room_in (nofile (kern w)) B)"
  shows "\<exists>h' w'. run_lines cfg self line
       (plain_line (pipeline first @ [NumberedPipeCommand (int N) err]) #
        map (\<lambda>as. plain_line (pipeline as)) mids @ [plain_line (pipeline reader)]) h w = Inr (h', w') \<and>
     spawned (trace w') = spawned (trace w) @
       plumbing_into (kept B) (Suc (next_pipe (kern w))) (kept B 0) err first @
       plumb_lines (kept B) (Suc (next_pipe (kern w) + length first)) mids @
       plumbing (kept B) (Suc (Suc (next_pipe (kern w) + length first) + sum_list (map length mids)))
         (Some (PipeR (next_pipe (kern w) + length first))) reader"
proof -
  let ?q = "next_pipe (kern w) + length first"
  have room: "6 \<le> card (room_in (nofile (kern w)) B)" using assms(6) by simp
  obtain h1 w1 p e where 1:
     "run_line cfg self line (plain_line (pipeline first @ [NumberedPipeCommand (int N) err])) h w = Inr (h1, w1)"
     "waiting B (Some (p, ?q)) (int N) h1 w1" "shell_frame (h\<lparr>eol := e\<rparr>) w h1 w1"
     "next_pipe (kern w1) = Suc ?q"
     "spawned (trace w1) = spawned (trace w) @
       plumbing_into (kept B) (Suc (next_pipe (kern w))) (kept B 0) err first"
    using run_line_numbered [OF assms(1) room, of first cfg self line "int N" err] assms(5)
    by (metis list.set_intros(1))
  have run1: "can_run (kern w1) a = can_run (kern w) a" for a by (rule can_run_frame [OF 1(3)])
  have nf: "nofile (kern w1) = nofile (kern w)" using 1(3) by (simp add: shell_frame_def)
  have "\<forall>as \<in> set mids. as \<noteq> [] \<and> (\<forall>a \<in> set as. can_run (kern w1) a)"
    using assms(5) run1 by simp
  moreover have "6 + 2 * length mids \<le> card (room_in (nofile (kern w1)) B)"
    using assms(4,6) nf by simp
  moreover have "(int N - int k) mod 1024 \<noteq> 1" if "k < length mids" for k
    using that assms(3,4) by simp
  ultimately obtain h2 w2 B' where 2:
     "run_lines cfg self line (map (\<lambda>as. plain_line (pipeline as)) mids) h1 w1 = Inr (h2, w2)"
     "waiting B' (Some (p, ?q)) (int N - int (length mids)) h2 w2" "kept B' = kept B"
     "card (room_in (nofile (kern w1)) B) \<le> card (room_in (nofile (kern w1)) B') + 2 * length mids"
     "nofile (kern w2) = nofile (kern w1)" "executable (kern w2) = executable (kern w1)"
     "next_pipe (kern w2) = next_pipe (kern w1) + sum_list (map length mids)"
     "spawned (trace w2) = spawned (trace w1) @ plumb_lines (kept B) (next_pipe (kern w1)) mids"
    using run_lines_waiting [OF 1(2), of mids cfg self line] by blast
  have run2: "can_run (kern w2) a = can_run (kern w) a" for a
    using run1 [of a] 2(6) by (simp add: can_run_def)
  have due: "(int N - int (length mids)) mod 1024 = 1" using assms(2,4) by (simp add: of_nat_diff)
  have "6 \<le> card (room_in (nofile (kern w2)) B')"
    using 2(4) assms(2,4,6) unfolding 2(5) nf by linarith
  moreover have "reader \<noteq> []" "\<forall>a \<in> set reader. can_run (kern w2) a"
    using assms(5) run2 by simp_all
  ultimately obtain h' w' where 3: "run_line cfg self line (plain_line (pipeline reader)) h2 w2 = Inr (h', w')"
     "spawned (trace w') = spawned (trace w2) @
        plumbing (kept B') (Suc (next_pipe (kern w2))) (Some (PipeR ?q)) reader"
    using run_line_due [OF 2(2) due, of reader cfg self line] by blast
  show ?thesis
    using 1 2 3 by (intro exI [of _ h'] exI [of _ w']) (simp add: run_lines_append)
qed

theorem numbered_pipe_delivery_witness:
  "\<exists>h' w'. run_lines SHM 1 []
     [plain_line [ExeCommand [''ls''], NumberedPipeCommand 2 True], plain_line [ExeCommand [''who'']],
      plain_line [ExeCommand [''cat'']]] CmdHandler (sample_world 64 [] [] []) = Inr (h', w') \<and>
   spawned (trace w') =
     [([''ls''], (kept sample_table)(0 \<mapsto> Terminal 0, 1 \<mapsto> PipeW 1, 2 \<mapsto> PipeW 1)),
      ([''who''], (kept sample_table)(0 \<mapsto> Terminal 0)),
      ([''cat''], (kept sample_table)(0 \<mapsto> PipeR 1))]"
  using numbered_pipe_delivery [OF sample_waiting [of 64 0 "[]" "[]" "[]"], of 2 "[[[''who'']]]"
      "[[''ls'']]" "[[''cat'']]" SHM 1 "[]" True]
  by (simp add: sample_can_run kept_def sample_table_def)

text \<open>The cell of a delivered numbered pipe is never cleared: when the line that reads the pipe is
  over, both its descriptors are closed, yet 1024 lines later the front of the ring is that pipe
  again, so that line takes the two stale descriptor numbers for its input.\<close>

theorem stale_cell_returns:
  assumes "waiting B (Some (p, q)) n h w" and "n mod 1024 = 1"
    and "6 \<le> card (room_in (nofile (kern w)) B)"
    and "as \<noteq> []" and "\<forall>a \<in> set as. can_run (kern w) a"
  shows "\<exists>h' w'. run_line cfg self line (plain_line (pipeline as)) h w = Inr (h', w') \<and>
     fds (kern w') (fd_in p) = None \<and> fds (kern w') (fd_out p) = None \<and>
     ring_front ((ring_next ^^ 1024) (numberPipeList h')) = p \<and> \<not> pipe_empty p"
proof -
  obtain h' w' e where 1: "run_line cfg self line (plain_line (pipeline as)) h w = Inr (h', w')"
     "fds (kern w') = with_pipe B (Some (e, next_pipe (kern w)))"
     "fresh_in (with_pipe B (Some (p, q))) (Some (e, next_pipe (kern w)))"
     "ring_front (numberPipeList h') = p"
    using run_line_due [OF assms, of cfg self line] by blast
  have p: "fresh_in B (Some (p, q))" using assms(1) by (simp add: waiting_def)
  have "fresh_in (with_pipe B (Some (e, next_pipe (kern w)))) (Some (p, q))"
    by (rule fresh_swap(2) [OF p 1(3)])
  then have "fds (kern w') (fd_in p) = None" "fds (kern w') (fd_out p) = None"
    unfolding 1(2) by simp_all
  moreover have "ring_front ((ring_next ^^ 1024) (numberPipeList h')) = p"
    using ring.full_turn [of "numberPipeList h'"] 1(4) by (simp add: ring_front_get)
  moreover have "\<not> pipe_empty p" using p by (auto simp: pipe_empty_def)
  ultimately show ?thesis using 1(1) by blast
qed

definition sample_pending :: "cmd_handler \<times> world" where
  "sample_pending =
     (CmdHandler\<lparr>numberPipeList := ring_set (size_t 1) \<lparr>fd_in = 7, fd_out = 8\<rparr> (ring_new Pipe)\<rparr>,
      (sample_world 64 [] [] [])\<lparr>kern := (sample_kernel 64)\<lparr>fds :=
         sample_table(7 \<mapsto> (PipeR 0, True), 8 \<mapsto> (PipeW 0, True)), next_pipe := 1\<rparr>\<rparr>)"

lemma sample_pending_waiting:
  "waiting sample_table (Some (\<lparr>fd_in = 7, fd_out = 8\<rparr>, 0)) 1 (fst sample_pending) (snd sample_pending)"
proof -
  have "ring_get (size_t m) (ring_set (size_t 1) p (ring_new Pipe)) =
      (if m mod 1024 = 1 then p else Pipe)" for m and p :: pipe
    using ring.at_store [of m 1 p "ring_new Pipe"] by (simp add: ring_get_def ring_new_def)
  then show ?thesis
    by (simp add: sample_pending_def waiting_def base_ok_def sample_table_def CmdHandler_def)
qed

theorem stale_cell_returns_witness:
  "\<exists>h' w'. run_line No_SHM 1 [] (plain_line [ExeCommand [''cat'']]) (fst sample_pending) (snd sample_pending) =
       Inr (h', w') \<and> fds (kern w') 7 = None \<and>
     ring_front ((ring_next ^^ 1024) (numberPipeList h')) = \<lparr>fd_in = 7, fd_out = 8\<rparr>"
  using stale_cell_returns [OF sample_pending_waiting, of "[[''cat'']]" No_SHM 1 "[]"]
  by (simp add: sample_pending_def can_run_def) blast

subsection \<open>Descriptors\<close>

text \<open>C33. Every ordinary line leaves two descriptors open for good: with room for \<open>m\<close> descriptors, exactly
  \<open>m div 2\<close> single-command lines succeed and the next one makes the whole server process exit with
  \<open>EXIT_FAILURE\<close>.\<close>

theorem descriptor_exhaustion:
  assumes "waiting B None n h w" and "can_run (kern w) a"
  shows "(\<exists>h' w'. run_lines cfg self line
            (replicate (card (room_in (nofile (kern w)) B) div 2) (plain_line [ExeCommand a])) h w = Inr (h', w')) \<and>
     run_lines cfg self line
       (replicate (Suc (card (room_in (nofile (kern w)) B) div 2)) (plain_line [ExeCommand a])) h w = Inl Exit_Failure"
proof -
  let ?m = "card (room_in (nofile (kern w)) B)" and ?l = "plain_line [ExeCommand a]"
  obtain h' w' B' where 1: "run_lines cfg self line (replicate (?m div 2) ?l) h w = Inr (h', w')"
     "waiting B' None n h' w'" "nofile (kern w') = nofile (kern w)"
     "card (room_in (nofile (kern w)) B') + 2 * (?m div 2) = ?m"
    using run_lines_single [OF assms, of "?m div 2" cfg self line] by auto
  have "room_of (kern w') = room_in (nofile (kern w)) B'"
    using 1(2,3) by (simp add: room_of_in waiting_def)
  then have "card (room_of (kern w')) \<le> 1" using 1(4) by simp
  then have "run_line cfg self line ?l h' w' = Inl Exit_Failure" by (rule run_line_no_room)
  then have "run_lines cfg self line (replicate (?m div 2) ?l @ [?l]) h w = Inl Exit_Failure"
    using 1(1) by (simp add: run_lines_append)
  moreover have "replicate (?m div 2) ?l @ [?l] = replicate (Suc (?m div 2)) ?l"
    by (simp only: replicate_Suc replicate_append_same)
  ultimately show ?thesis using 1(1) by metis
qed

theorem descriptor_exhaustion_witness:
  "run_lines No_SHM 1 [] (replicate 511 (plain_line [ExeCommand [''ls'']])) CmdHandler (sample_world 1024 [] [] []) =
     Inl Exit_Failure"
  using descriptor_exhaustion [OF sample_waiting [of 1024 0 "[]" "[]" "[]"], of "[''ls'']" No_SHM 1 "[]"]
  by (simp add: sample_can_run)

end
