(* ===== verification/Reach.thy ===== *)
theory Reach
  imports Prelude
begin

text \<open>
  Reachable states of a step relation, and the interface by which an invariant is proved: the starts
  satisfy it and every step keeps it.  Both chat servers and the write queue of a web session provide it.
\<close>

inductive reach :: "('s \<Rightarrow> bool) \<Rightarrow> ('s \<Rightarrow> 's \<Rightarrow> bool) \<Rightarrow> 's \<Rightarrow> bool" for start step where
  Start: "start s \<Longrightarrow> reach start step s"
| Step: "reach start step s \<Longrightarrow> step s s' \<Longrightarrow> reach start step s'"

text \<open>A property that holds at the start and is kept by every step holds in every reachable state.\<close>

locale invariant =
  fixes start :: "'s \<Rightarrow> bool" and step :: "'s \<Rightarrow> 's \<Rightarrow> bool" and inv :: "'s \<Rightarrow> bool"
  assumes inv_start: "start s \<Longrightarrow> inv s"
    and inv_step: "inv s \<Longrightarrow> step s s' \<Longrightarrow> inv s'"
begin

lemma reach_inv: "reach start step s \<Longrightarrow> inv s"
  by (induction rule: reach.induct) (auto intro: inv_start inv_step)

end

text \<open>
  Refinement: a function maps the states to those of an abstract system, every start to a start and every
  step, where the invariant holds, to any number of abstract steps.  What holds in every reachable state
  of the abstract system then holds of every reachable state here.
\<close>

locale refinement = invariant start step inv
  for start :: "'s \<Rightarrow> bool" and step :: "'s \<Rightarrow> 's \<Rightarrow> bool" and inv :: "'s \<Rightarrow> bool" +
  fixes abs :: "'s \<Rightarrow> 'a" and astart :: "'a \<Rightarrow> bool" and astep :: "'a \<Rightarrow> 'a \<Rightarrow> bool"
  assumes abs_start: "start s \<Longrightarrow> astart (abs s)"
    and abs_step: "inv s \<Longrightarrow> step s s' \<Longrightarrow> astep\<^sup>*\<^sup>* (abs s) (abs s')"
begin

lemma reach_abs: "reach start step s \<Longrightarrow> reach astart astep (abs s)"
proof (induction rule: reach.induct)
  case (Step s s')
  from abs_step [OF reach_inv [OF Step.hyps(1)] Step.hyps(2)] show ?case
    by (induction rule: rtranclp_induct) (auto intro: reach.Step Step.IH)
qed (auto intro: reach.Start abs_start)

lemma carried: "reach start step s \<Longrightarrow> (\<And>a. reach astart astep a \<Longrightarrow> P a) \<Longrightarrow> P (abs s)"
  using reach_abs by blast

end

end
