(* ===== verification/Server_Loop.thy ===== *)
theory Server_Loop
  imports Shell_Run Reach
begin

text \<open>
  The main loops of the three servers: \<open>chatServer::runShellLoop\<close>, the \<open>select\<close> loop of
  \<open>np_single_proc.cpp\<close>, and the per-connection processes of \<open>np_simple.cpp\<close> and
  \<open>np_multi_proc.cpp\<close>.  What \<open>select\<close> and \<open>accept\<close> report is chosen by the environment.
\<close>

subsection \<open>One turn for one client\<close>

definition runShellLoop :: "int \<Rightarrow> world \<Rightarrow> (bool \<times> world) result" where
  "runShellLoop fd w =
     (case getServingUserID fd w of (self, w0) \<Rightarrow>
        let w1 = w0\<lparr>kern := k_dup2 fd 2 (k_dup2 fd 1 (k_dup2 fd 0 (kern w0)))\<rparr>;
            (path, w2) = getServingUserEnv self ''PATH'' w1;
            w3 = k_setenv ''PATH'' (c_str path) w2
        in rbind (user_at w3 self) (\<lambda>u.
           rbind (runShell No_SHM fd (shell u) w3) (\<lambda>(h, w4).
           rbind (user_at w4 self) (\<lambda>u4.
           let w5 = set_user self (u4\<lparr>shell := h\<rparr>) w4;
               w6 = w5\<lparr>kern := k_dup2 (serverErr w5) 2 (k_dup2 (serverOut w5) 1
                                 (k_dup2 (serverIn w5) 0 (kern w5)))\<rparr>
           in if running h
              then rbind (sendRawMessage No_SHM fd ''% '' w6) (\<lambda>w7. Inr (True, w7))
              else Inr (False, w6)))))"

subsection \<open>Start-up shared by the servers\<close>

definition createListenSocket :: "nat \<Rightarrow> world \<Rightarrow> int \<times> world" where
  "createListenSocket n w = (case k_open (Socket n) False (kern w) of (fd, k) \<Rightarrow> (fd, w\<lparr>kern := k\<rparr>))"

definition showServingNetworkInfo :: "string \<Rightarrow> string \<Rightarrow> int \<Rightarrow> world \<Rightarrow> world" where
  "showServingNetworkInfo host addr port' w =
     cout (''IP address of '' @ host @ '' is '' @ addr @ '', listening on port '' @ to_string port' @ nl) w"

definition default_paths :: "world \<Rightarrow> world" where
  "default_paths w = fold (\<lambda>i. setServingUserEnv i ''PATH'' ''bin:.'') slots w"

subsection \<open>\<open>np_single_proc\<close>\<close>

definition FD_SETSIZE :: int where "FD_SETSIZE = 1024"

record server_loop =
  srv :: world
  serverSock :: int
  masterSocks :: "int set"
  maxSocks :: int

definition single_start :: "string list \<Rightarrow> string \<Rightarrow> string \<Rightarrow> world \<Rightarrow> server_loop result" where
  "single_start args host addr w =
     (let w1 = chatServer (k_setenv ''PATH'' ''bin:.'' w)
      in rbind (getPortFromArgs args) (\<lambda>port'.
         case createListenSocket 0 w1 of (fd, w2) \<Rightarrow>
         let w3 = default_paths (showServingNetworkInfo host addr port' w2)
         in if fd < 0 \<or> FD_SETSIZE \<le> fd then Inl Out_Of_Bounds
            else Inr \<lparr>srv = w3, serverSock = fd, masterSocks = {fd}, maxSocks = fd\<rparr>))"

text \<open>A new connection; \<open>FD_SET\<close> outside \<open>0 .. FD_SETSIZE - 1\<close> writes outside the set.\<close>

definition serve_new :: "nat \<Rightarrow> string \<Rightarrow> int \<Rightarrow> server_loop \<Rightarrow> server_loop result" where
  "serve_new n addr port' s =
     (case k_open (Socket n) False (kern (srv s)) of (fd, k) \<Rightarrow>
      if fd < 0 \<or> FD_SETSIZE \<le> fd then Inl Out_Of_Bounds
      else rbind (addUser No_SHM addr port' fd (-1) ((srv s)\<lparr>kern := k\<rparr>)) (\<lambda>w1.
           rbind (sendRawMessage No_SHM fd WELCOME_MSG w1) (\<lambda>w2.
           rbind (getServingUserName fd w2) (\<lambda>(nm, w3).
           rbind (broadcastMessage No_SHM (LOGIN_MSG nm addr port') w3) (\<lambda>w4.
           rbind (sendRawMessage No_SHM fd ''% '' w4) (\<lambda>w5.
           Inr (s\<lparr>srv := w5, masterSocks := insert fd (masterSocks s),
                  maxSocks := max (maxSocks s) fd\<rparr>)))))))"

definition serve_input :: "int \<Rightarrow> server_loop \<Rightarrow> server_loop result" where
  "serve_input fd s =
     rbind (runShellLoop fd (srv s)) (\<lambda>(cont, w1).
     if cont then Inr (s\<lparr>srv := w1\<rparr>)
     else rbind (removeUser No_SHM fd w1) (\<lambda>w2.
          Inr (s\<lparr>srv := w2, masterSocks := masterSocks s - {fd}\<rparr>)))"

text \<open>One round of the loop after \<open>select\<close> returned the descriptors \<open>ready\<close>.\<close>

definition poll_round :: "int set \<Rightarrow> nat \<Rightarrow> string \<Rightarrow> int \<Rightarrow> server_loop \<Rightarrow> server_loop result" where
  "poll_round ready n addr port' s =
     rfold (\<lambda>fd s. if fd \<notin> ready then Inr s
                   else if fd = serverSock s then serve_new n addr port' s
                   else serve_input fd s) [0..maxSocks s] s"

text \<open>The server as a transition system: rounds, and clients that type between them.\<close>

inductive single_step :: "server_loop \<Rightarrow> server_loop \<Rightarrow> bool" where
  Round: "ready \<subseteq> masterSocks s \<Longrightarrow> poll_round ready n addr port' s = Inr s' \<Longrightarrow> single_step s s'"
| Typed: "single_step s (s\<lparr>srv := (srv s)\<lparr>incoming := inp\<rparr>\<rparr>)"

definition single_starts :: "server_loop \<Rightarrow> bool" where
  "single_starts s \<longleftrightarrow> (\<exists>args host addr w. single_start args host addr w = Inr s)"

subsection \<open>\<open>np_simple\<close>\<close>

text \<open>
  Every connection is served by a forked process that closes the listening socket, adds its one user
  and runs turns until the client leaves; the parent closes its copy of the client's socket.
\<close>

definition simple_start :: "string list \<Rightarrow> string \<Rightarrow> string \<Rightarrow> world \<Rightarrow> (int \<times> world) result" where
  "simple_start args host addr w =
     (let w1 = chatServer (k_setenv ''PATH'' ''bin:.'' w)
      in rbind (getPortFromArgs args) (\<lambda>port'.
         case createListenSocket 0 w1 of (fd, w2) \<Rightarrow>
         Inr (fd, setServingUserEnv 1 ''PATH'' ''bin:.'' (showServingNetworkInfo host addr port' w2))))"

definition simple_child_start :: "int \<Rightarrow> string \<Rightarrow> int \<Rightarrow> int \<Rightarrow> int \<Rightarrow> world \<Rightarrow> world result" where
  "simple_child_start listener addr port' clientFd self w =
     (let w1 = k_setenv ''PATH'' ''bin:.'' (w\<lparr>kern := k_close listener (kern w)\<rparr>)
      in rbind (addUser No_SHM addr port' clientFd self w1) (sendRawMessage No_SHM clientFd ''% ''))"

text \<open>At most \<open>n\<close> turns; the flag tells whether the client has left.\<close>

fun simple_turns :: "nat \<Rightarrow> int \<Rightarrow> world \<Rightarrow> (bool \<times> world) result" where
  "simple_turns 0 fd w = Inr (False, w)"
| "simple_turns (Suc n) fd w =
     rbind (runShellLoop fd w) (\<lambda>(cont, w1). if cont then simple_turns n fd w1 else Inr (True, w1))"

definition simple_child :: "nat \<Rightarrow> int \<Rightarrow> string \<Rightarrow> int \<Rightarrow> int \<Rightarrow> int \<Rightarrow> world \<Rightarrow> (bool \<times> world) result" where
  "simple_child n listener addr port' clientFd self w =
     rbind (simple_child_start listener addr port' clientFd self w) (\<lambda>w1.
     rbind (simple_turns n clientFd w1) (\<lambda>(left, w2).
     if \<not> left then Inr (False, w2)
     else rbind (removeUser No_SHM clientFd w2) (\<lambda>w3.
          Inr (True, w3\<lparr>kern := k_close clientFd (kern w3)\<rparr>))))"

definition simple_accept :: "nat \<Rightarrow> world \<Rightarrow> int \<times> world" where
  "simple_accept n w = (case k_open (Socket n) False (kern w) of (fd, k) \<Rightarrow>
     if fd = -1 then (-1, w) else (fd, w\<lparr>kern := k_close fd k\<rparr>))"

subsection \<open>\<open>np_multi_proc\<close>\<close>

text \<open>
  The forked process of a connection shares the user slots with all others.  It redirects its own
  standard descriptors for good and runs the shell object of its \<open>main\<close>, a copy made by \<open>fork\<close>.
\<close>

definition multi_start :: "string list \<Rightarrow> string \<Rightarrow> string \<Rightarrow> world \<Rightarrow> (int \<times> world) result" where
  "multi_start args host addr w =
     (let w1 = chatServer (k_setenv ''PATH'' ''bin:.'' w)
      in rbind (getPortFromArgs args) (\<lambda>port'.
         case createListenSocket 0 w1 of (fd, w2) \<Rightarrow>
         Inr (fd, createSHMUser (default_paths (showServingNetworkInfo host addr port' w2)))))"

definition multi_child_start :: "int \<Rightarrow> string \<Rightarrow> int \<Rightarrow> int \<Rightarrow> int \<Rightarrow> world \<Rightarrow> world result" where
  "multi_child_start listener addr port' clientFd self w =
     (let w1 = k_setenv ''PATH'' ''bin:.'' (w\<lparr>kern := k_close listener (kern w)\<rparr>)
      in rbind (addUser SHM addr port' clientFd self w1) (\<lambda>w2.
         let w3 = w2\<lparr>kern := k_dup2 clientFd 2 (k_dup2 clientFd 1 (k_dup2 clientFd 0 (kern w2)))\<rparr>
         in case getServingUserID clientFd w3 of (i, w4) \<Rightarrow>
            rbind (sendRawMessage SHM i WELCOME_MSG w4) (\<lambda>w5.
            rbind (getServingUserName clientFd w5) (\<lambda>(nm, w6).
            broadcastMessage SHM (LOGIN_MSG nm addr port') w6))))"

fun multi_turns :: "nat \<Rightarrow> int \<Rightarrow> cmd_handler \<Rightarrow> world \<Rightarrow> (bool \<times> cmd_handler \<times> world) result" where
  "multi_turns 0 fd h w = Inr (False, h, w)"
| "multi_turns (Suc n) fd h w =
     rbind (runShell SHM fd h (cout ''% '' w)) (\<lambda>(h1, w1).
     if running h1 then multi_turns n fd h1 w1 else Inr (True, h1, w1))"

definition multi_child :: "nat \<Rightarrow> int \<Rightarrow> string \<Rightarrow> int \<Rightarrow> int \<Rightarrow> int \<Rightarrow> world \<Rightarrow> (bool \<times> world) result" where
  "multi_child n listener addr port' clientFd self w =
     rbind (multi_child_start listener addr port' clientFd self w) (\<lambda>w1.
     rbind (multi_turns n clientFd CmdHandler w1) (\<lambda>(left, h, w2).
     if \<not> left then Inr (False, w2)
     else rbind (removeUser SHM clientFd w2) (\<lambda>w3. Inr (True, w3))))"

definition multi_accept :: "nat \<Rightarrow> world \<Rightarrow> int \<times> world" where
  "multi_accept n w = (case k_open (Socket n) False (kern w) of (fd, k) \<Rightarrow> (fd, w\<lparr>kern := k\<rparr>))"

text \<open>The \<open>SIGINT\<close> handler of the parent.\<close>

definition multi_interrupt :: "world \<Rightarrow> world" where
  "multi_interrupt w = fold deleteSHMUserFifo slots w"

end
