(* ===== verification/Server_Facts.thy ===== *)
theory Server_Facts
  imports Shell_Run
begin

text \<open>
  What the chat operations and the shell do to the tables of a server without shared memory: they
  keep the table of sockets, the set of users and every user's socket, and as long as the serving
  user exists they never dereference a null user.  \<open>ok r Q\<close> says that \<open>r\<close> did not fail with a null
  dereference and that \<open>Q\<close> holds of its value.
\<close>

named_theorems server_ok \<open>operations that keep the tables\<close>

definition ok :: "'a result \<Rightarrow> ('a \<Rightarrow> bool) \<Rightarrow> bool" where
  "ok r Q \<longleftrightarrow> (case r of Inl e \<Rightarrow> e \<noteq> Null_Deref | Inr x \<Rightarrow> Q x)"

lemma ok_simps [simp]: "ok (Inr x) Q \<longleftrightarrow> Q x" "ok (Inl e) Q \<longleftrightarrow> e \<noteq> Null_Deref"
  by (simp_all add: ok_def)

lemma ok_rbind: "ok r R \<Longrightarrow> (\<And>x. R x \<Longrightarrow> ok (f x) Q) \<Longrightarrow> ok (rbind r f) Q"
  by (cases r) auto

lemma ok_rfold:
  "P s \<Longrightarrow> (\<And>x s. x \<in> set xs \<Longrightarrow> P s \<Longrightarrow> ok (f x s) P) \<Longrightarrow> ok (rfold f xs s) P"
proof (induction xs arbitrary: s)
  case (Cons x xs)
  then show ?case by simp (rule ok_rbind [where R = P], auto)
qed simp

lemma ok_mono: "ok r Q \<Longrightarrow> (\<And>x. Q x \<Longrightarrow> R x) \<Longrightarrow> ok r R"
  by (cases r) auto

lemma ok_Inr: "ok r Q \<Longrightarrow> r = Inr x \<Longrightarrow> Q x"
  by simp

lemma ok_not_null: "ok r Q \<Longrightarrow> r \<noteq> Inl Null_Deref"
  by auto

definition live :: "int \<Rightarrow> world \<Rightarrow> bool" where
  "live i w \<longleftrightarrow> sm_find (users w) i \<noteq> None"

definition same_users :: "world \<Rightarrow> world \<Rightarrow> bool" where
  "same_users w w' \<longleftrightarrow>
     sockID_table w' = sockID_table w \<and> (smap_ok (users w) \<longrightarrow> smap_ok (users w')) \<and>
     (\<forall>i. map_option sock (sm_find (users w') i) = map_option sock (sm_find (users w) i))"

lemma same_users_refl [simp, intro]: "same_users w w"
  by (simp add: same_users_def)

lemma same_users_trans: "same_users w w1 \<Longrightarrow> same_users w1 w2 \<Longrightarrow> same_users w w2"
  by (simp add: same_users_def)

lemma same_users_live: "same_users w w' \<Longrightarrow> live i w' = live i w"
proof -
  assume "same_users w w'"
  then have "map_option sock (sm_find (users w') i) = map_option sock (sm_find (users w) i)"
    by (simp add: same_users_def)
  then have "sm_find (users w') i = None \<longleftrightarrow> sm_find (users w) i = None"
    by (metis map_option_is_None)
  then show ?thesis by (simp add: live_def)
qed

lemma ok_chain:
  "same_users w w1 \<Longrightarrow> ok r (\<lambda>x. same_users w1 (g x)) \<Longrightarrow> ok r (\<lambda>x. same_users w (g x))"
  by (cases r) (auto intro: same_users_trans)

lemma ok_chain2:
  "same_users w w1 \<Longrightarrow> ok r (\<lambda>(a, x). same_users w1 x) \<Longrightarrow> ok r (\<lambda>(a, x). same_users w x)"
  by (cases r) (auto intro: same_users_trans)

lemma same_users_eq:
  "users w' = users w \<Longrightarrow> sockID_table w' = sockID_table w \<Longrightarrow> same_users w w'"
  by (simp add: same_users_def)

lemma same_users_kern [simp]: "same_users w (w'\<lparr>kern := k\<rparr>) = same_users w w'"
  by (simp add: same_users_def)

lemma same_users_ext:
  "same_users w w' \<Longrightarrow> users w'' = users w' \<Longrightarrow> sockID_table w'' = sockID_table w' \<Longrightarrow> same_users w w''"
  by (simp add: same_users_def)

lemma same_users_set:
  assumes "same_users w w'" "sm_find (users w') i = Some v" "sock u = sock v"
    and "users w'' = sm_put i u (users w')" "sockID_table w'' = sockID_table w'"
  shows "same_users w w''"
proof -
  have "map_option sock (sm_find (users w'') j) = map_option sock (sm_find (users w') j)" for j
    using assms(2,3,4) by simp
  then show ?thesis using assms(1,4,5) by (simp add: same_users_def)
qed

lemma user_at_ok: "live i w \<Longrightarrow> ok (user_at w i) (\<lambda>u. sm_find (users w) i = Some u)"
  by (auto simp: live_def user_at_def)

lemma ok_user_pipe: "ok (user_pipe u i) (\<lambda>p. True)"
  by (simp add: user_pipe_def)

subsection \<open>The chat\<close>

lemma emit_same: "same_users w (emit e w)" "same_users w (cout s w)"
  by (simp_all add: same_users_def)

lemma send_ok [server_ok]: "ok (sendRawMessage No_SHM i msg w) (same_users w)"
  by (simp add: sendRawMessage_def emit_same)

lemma broadcast_ok [server_ok]: "ok (broadcastMessage No_SHM msg w) (same_users w)"
  unfolding broadcastMessage_def config.case
  by (rule ok_rfold) (auto intro: ok_mono [OF send_ok] same_users_trans)

lemma Who_ok [server_ok]: "ok (Who No_SHM self w) (same_users w)"
  unfolding Who_def Let_def config.case
  by (rule ok_rfold) (auto intro: emit_same same_users_trans)

lemma Yell_ok [server_ok]: "live self w \<Longrightarrow> ok (Yell No_SHM self msg w) (same_users w)"
  unfolding Yell_def Let_def config.case
  by (intro ok_rbind [OF user_at_ok] ok_rfold)
    (auto intro: ok_mono [OF send_ok] same_users_trans)

lemma Tell_ok [server_ok]:
  assumes "live self w"
  shows "ok (Tell No_SHM self uid msg w) (same_users w)"
proof (cases "sm_find (users w) uid")
  case None
  then show ?thesis by (simp add: Tell_def emit_same)
next
  case (Some u)
  then have "live uid w" by (simp add: live_def)
  with Some assms show ?thesis
    by (auto simp: Tell_def intro!: ok_rbind [OF user_at_ok] server_ok)
qed

lemma name_taken_ok: "(\<And>i. i \<in> set is \<Longrightarrow> live i w) \<Longrightarrow> ok (name_taken w nm is) (\<lambda>_. True)"
  by (induction "is") (auto intro!: ok_rbind [OF user_at_ok])

lemma live_key: "i \<in> set (map fst (users w)) \<Longrightarrow> live i w"
  by (auto simp: live_def sm_find_def map_of_eq_None_iff)

lemma strcpy_ok: "ok (strcpy_into n s) (\<lambda>_. True)"
  by (simp add: strcpy_into_def)

lemma broadcast_after_set:
  assumes "same_users w w'"
  shows "ok (broadcastMessage No_SHM m w') (same_users w)"
  by (intro ok_mono [OF broadcast_ok]) (rule same_users_trans [OF assms])

lemma Name_ok [server_ok]:
  assumes "live self w"
  shows "ok (Name No_SHM self nm w) (same_users w)"
  unfolding Name_def config.case
proof (rule ok_rbind [OF name_taken_ok])
  show "live i w" if "i \<in> set (map fst (users w))" for i using that by (rule live_key)
  have set: "same_users w (set_user self (u\<lparr>name := s\<rparr>) w)" if "sm_find (users w) self = Some u" for u s
    using that by (intro same_users_set [OF same_users_refl]) auto
  show "ok (if taken then Inr (cout s w)
            else rbind (user_at w self) (\<lambda>u. rbind (strcpy_into MAX_USER_NAME_LEN nm) (\<lambda>n.
              broadcastMessage No_SHM (NAME_MSG (ip u) (port u) nm) (set_user self (u\<lparr>name := n\<rparr>) w))))
          (same_users w)" for taken s
    by (auto simp: emit_same
        intro!: ok_rbind [OF user_at_ok [OF assms]] ok_rbind [OF strcpy_ok] broadcast_after_set set)
qed

subsection \<open>User pipes\<close>

lemma handleUserPipe_ok:
  assumes "live self w"
  shows "ok (handleUserPipe No_SHM self uid mode ue pe w)
     (\<lambda>(e, _, w'). w' = w \<and> (mode = O_WRONLY \<or> mode = O_RDONLY \<longrightarrow> e \<longrightarrow> live uid w))"
proof (cases "sm_find (users w) uid")
  case None
  then show ?thesis by (simp add: handleUserPipe_def)
next
  case (Some u)
  then have "live uid w" by (simp add: live_def)
  with Some assms show ?thesis
    by (auto simp: handleUserPipe_def intro!: ok_rbind [OF user_at_ok] ok_rbind [OF ok_user_pipe])
qed

lemma handleUserPipeError_same: "same_users w (snd (handleUserPipeError self uid mode problem w))"
  by (auto simp: handleUserPipeError_def Let_def same_users_def split: prod.split UserPipeErr.split)

lemma pipe_create_ok_any: "ok (pipe_create k) (\<lambda>_. True)"
  by (simp add: pipe_create_def split: option.split prod.split)

lemma handleUserPipeError_eq:
  "handleUserPipeError self uid mode problem w = (f, w') \<Longrightarrow> same_users w w'"
  using handleUserPipeError_same [of w self uid mode problem] by simp

lemma writeUserPipe_ok [server_ok]:
  assumes "live self w"
  shows "ok (writeUserPipe No_SHM self uid cmd rd w) (\<lambda>(p, w'). same_users w w')"
proof -
  have set: "same_users w (set_user uid (set_user_pipe self p u) w)" if "sm_find (users w) uid = Some u" for p u
    using that by (intro same_users_set [OF same_users_refl, of w uid u "set_user_pipe self p u"]) auto
  have made: "ok (rbind (user_pipe u self) (\<lambda>_. rbind (pipe_create (kern w)) (\<lambda>(p, k).
                Inr ((set_user uid (set_user_pipe self p u) w)\<lparr>kern := k\<rparr>)))) (same_users w)"
    if "sm_find (users w) uid = Some u" for u
    using that by (auto intro!: ok_rbind [OF ok_user_pipe] ok_rbind [OF pipe_create_ok_any] set)
  show ?thesis
    unfolding writeUserPipe_def
    by (rule ok_rbind [OF handleUserPipe_ok [OF assms]])
      (use assms in \<open>auto simp: handleUserPipeError_eq same_users_live split: prod.split
        intro!: ok_rbind [OF user_at_ok] ok_rbind [OF made] ok_rbind [OF ok_user_pipe]
          ok_rbind [OF broadcast_after_set]\<close>)
qed

lemma readUserPipe_ok [server_ok]:
  assumes "live self w"
  shows "ok (readUserPipe No_SHM self uid cmd wr w) (\<lambda>(p, w'). same_users w w')"
proof -
  have set: "same_users w (set_user self (set_user_pipe uid p' me) w3)"
    if "same_users w w3" "sm_find (users w3) self = Some me" for w3 me p'
    using that by (intro same_users_set [OF that(1), of self me "set_user_pipe uid p' me"]) auto
  show ?thesis
    unfolding readUserPipe_def
    by (rule ok_rbind [OF handleUserPipe_ok [OF assms]])
      (use assms in \<open>auto simp: Let_def handleUserPipeError_eq same_users_live split: prod.split
        intro!: ok_rbind [OF user_at_ok] ok_rbind [OF ok_user_pipe] ok_rbind [OF broadcast_ok] set\<close>)
qed

subsection \<open>The shell\<close>

lemma getServingUserEnv_same: "getServingUserEnv self n w = (v, w') \<Longrightarrow> same_users w w'"
  by (auto simp: getServingUserEnv_def Let_def same_users_def split: prod.splits)

lemma setServingUserEnv_same: "same_users w (k_setenv n v (setServingUserEnv self n' v' w))"
  by (auto simp: setServingUserEnv_def k_setenv_def Let_def same_users_def split: prod.splits)

lemma same_users_cout: "same_users w w' \<Longrightarrow> same_users w (cout s w')"
  by (simp add: same_users_def)

lemma ok_if: "(b \<Longrightarrow> ok x Q) \<Longrightarrow> (\<not> b \<Longrightarrow> ok y Q) \<Longrightarrow> ok (if b then x else y) Q"
  by simp

lemma parse_chat_ok [server_ok]:
  assumes "live self (wd st)"
  shows "ok (parse_tell No_SHM self st) (\<lambda>st'. same_users (wd st) (wd st'))"
    and "ok (parse_yell No_SHM self st) (\<lambda>st'. same_users (wd st) (wd st'))"
    and "ok (parse_name No_SHM self st) (\<lambda>st'. same_users (wd st) (wd st'))"
    and "ok (rbind (Who No_SHM self (wd st)) (\<lambda>w. Inr (st\<lparr>wd := w\<rparr>))) (\<lambda>st'. same_users (wd st) (wd st'))"
  using assms
  by (auto simp: parse_tell_def parse_yell_def parse_name_def split: prod.split option.split
      intro!: ok_rbind [OF Tell_ok] ok_rbind [OF Yell_ok] ok_rbind [OF Name_ok] ok_rbind [OF Who_ok])

lemma parse_builtin_same:
  "same_users (wd st) (wd (parse_exit st))" "same_users (wd st) (wd (parse_printenv self st))"
  "same_users (wd st) (wd (parse_setenv self st))"
  by (auto simp: parse_exit_def parse_printenv_def parse_setenv_def Let_def same_users_cout
      setServingUserEnv_same dest: getServingUserEnv_same split: prod.split)

lemma parse_word_same:
  "wd (parse_redirect st) = wd st" "wd (parse_numbered tok st) = wd st"
  "wd (parse_write_user tok st) = wd st" "wd (parse_read_user tok st) = wd st"
  by (simp_all add: parse_redirect_def parse_numbered_def parse_write_user_def parse_read_user_def
      split: prod.split)

lemma parse_token_server_ok [server_ok]:
  assumes "live self (wd st)"
  shows "ok (parse_token No_SHM self tok st) (\<lambda>st'. same_users (wd st) (wd st'))"
  unfolding parse_token_def
  by (intro ok_if parse_chat_ok [OF assms])
    (simp_all add: parse_builtin_same parse_word_same)

lemma parse_loop_server_ok:
  "cfg = No_SHM \<Longrightarrow> live self (wd st) \<Longrightarrow> ok (parse_loop cfg self st) (\<lambda>st'. same_users (wd st) (wd st'))"
proof (induction cfg self st rule: parse_loop.induct)
  case (1 cfg self st)
  show ?case
  proof (cases "get_word (iss st)")
    case (Pair t s)
    show ?thesis
    proof (cases t)
      case None
      then show ?thesis using Pair by (subst parse_loop.simps) simp
    next
      case (Some tok)
      have "ok (rbind (parse_token No_SHM self tok (st\<lparr>iss := s\<rparr>)) (parse_loop No_SHM self))
          (\<lambda>st'. same_users (wd st) (wd st'))"
      proof (cases "parse_token No_SHM self tok (st\<lparr>iss := s\<rparr>)")
        case (Inl e)
        then show ?thesis
          using parse_token_server_ok [of self "st\<lparr>iss := s\<rparr>" tok] 1(3) by simp
      next
        case (Inr st1)
        then have s1: "same_users (wd st) (wd st1)"
          using parse_token_server_ok [of self "st\<lparr>iss := s\<rparr>" tok] 1(3) by simp
        then have "live self (wd st1)" using 1(3) by (simp add: same_users_live)
        then have "ok (parse_loop No_SHM self st1) (\<lambda>st'. same_users (wd st1) (wd st'))"
          using 1(1) [of t s tok st1] Pair Some Inr 1(2) by simp
        then show ?thesis
          using Inr ok_chain [OF s1] by simp
      qed
      then show ?thesis using Pair Some 1(2) by (subst parse_loop.simps) simp
    qed
  qed
qed

definition serving :: "int \<Rightarrow> int \<Rightarrow> world \<Rightarrow> bool" where
  "serving fd i w \<longleftrightarrow> sm_find (sockID_table w) fd = Some i \<and> live i w"

lemma serving_id: "serving fd i w \<Longrightarrow> getServingUserID fd w = (i, w)"
  by (simp add: serving_def getServingUserID_def sm_index_hit)

lemma serving_same: "serving fd i w \<Longrightarrow> same_users w w' \<Longrightarrow> serving fd i w'"
  by (auto simp: serving_def same_users_live) (simp add: same_users_def)

lemma parseCommand_server_ok:
  assumes "serving (shell_fd h) i w"
  shows "ok (parseCommand No_SHM command h w) (\<lambda>(ls, h', w'). same_users w w')"
proof -
  have "live i w" using assms by (simp add: serving_def)
  then show ?thesis
    unfolding parseCommand_def serving_id [OF assms] prod.case Let_def
    by (intro ok_rbind [OF parse_loop_server_ok]) auto
qed

lemma createPipe_ok: "ok (createPipe c h k) (\<lambda>_. True)"
  by (cases c) (auto simp: Let_def intro!: ok_rbind [OF pipe_create_ok_any] split: prod.split)

lemma connect_next_ok:
  assumes "live self w"
  shows "ok (connect_next No_SHM self line rd wr nxt h w) (\<lambda>(e, h', w'). same_users w w')"
  using assms
  by (auto simp: connect_next_def intro!: ok_rbind [OF writeUserPipe_ok] ok_rbind [OF createPipe_ok])

lemma spawn_same: "spawn e args h w = (h', w') \<Longrightarrow> same_users w w'"
  by (auto simp: spawn_def Let_def same_users_def split: prod.splits if_splits)

lemma run_commands_ok:
  "live self w \<Longrightarrow> ok (run_commands No_SHM self line rd wr cs h w) (\<lambda>(h', w'). same_users w w')"
proof (induction cs arbitrary: h w)
  case (Cons c rest)
  show ?case
  proof (cases c)
    case (ExeCommand args)
    let ?h1 = "h\<lparr>prevPipe := currPipe h\<rparr>" and ?w1 = "w\<lparr>kern := snd (closePipe (prevPipe h) (kern w))\<rparr>"
    have live1: "live self ?w1" using Cons.prems by (simp add: live_def)
    have next_ok: "ok (case rest of [] \<Rightarrow> Inr (False, ?h1, ?w1)
        | nxt # _ \<Rightarrow> connect_next No_SHM self line rd wr nxt ?h1 ?w1) (\<lambda>(e, h', w'). same_users w w')"
    proof (cases rest)
      case (Cons nxt more)
      show ?thesis
        unfolding Cons list.case
        by (rule ok_mono [OF connect_next_ok [OF live1]]) (auto simp: same_users_def)
    qed simp
    have step: "ok (case spawn e args h2 w2 of (h3, w3) \<Rightarrow> run_commands No_SHM self line rd wr rest h3 w3)
        (\<lambda>(h', w'). same_users w w')" if "same_users w w2" for e h2 w2
    proof (cases "spawn e args h2 w2")
      case (Pair h3 w3)
      then have s3: "same_users w w3" using spawn_same same_users_trans that by blast
      then have "live self w3" using Cons.prems by (simp add: same_users_live)
      then show ?thesis
        unfolding Pair prod.case by (rule ok_chain2 [OF s3 Cons.IH])
    qed
    show ?thesis
      unfolding ExeCommand run_commands.simps Let_def
      by (rule ok_rbind [OF next_ok]) (use step in auto)
  qed (use Cons in auto)
qed simp

lemma finish_line_ok: "ok (finish_line cmds h w) (\<lambda>(h', w'). same_users w w')"
  by (auto simp: finish_line_def Let_def emit_def same_users_def split: prod.split)

lemma run_line_ok:
  assumes "live self w"
  shows "ok (run_line No_SHM self line l h w) (\<lambda>(h', w'). same_users w w')"
  unfolding run_line_def Let_def
proof (rule ok_rbind [OF pipe_create_ok_any], clarify)
  fix e k
  let ?r = "ring_next (numberPipeList h)"
  let ?h1 = "h\<lparr>eol := e, numberPipeList := ?r, currPipe := ring_front ?r\<rparr>" and ?w1 = "w\<lparr>kern := k\<rparr>"
  have live1: "live self ?w1" using assms by (simp add: live_def)
  have "ok (readUserPipe No_SHM self (readUid l) line (writeUid l) ?w1) (\<lambda>(p, w'). same_users w w')"
    by (rule ok_chain2 [OF _ readUserPipe_ok [OF live1]]) simp
  then have 1: "ok (if 0 < readUid l
        then rbind (readUserPipe No_SHM self (readUid l) line (writeUid l) ?w1)
              (\<lambda>(p, w'). Inr (?h1\<lparr>currPipe := p\<rparr>, w'))
        else Inr (?h1, ?w1)) (\<lambda>(h', w'). same_users w w')"
    by (auto intro!: ok_rbind)
  have 2: "ok (rbind (run_commands No_SHM self line (readUid l) (writeUid l) (npCommands l) h2 w2)
        (\<lambda>(h3, w3). finish_line (npCommands l) h3 w3)) (\<lambda>(h', w'). same_users w w')"
    if "same_users w w2" for h2 w2
  proof -
    have "live self w2" using that assms by (simp add: same_users_live)
    then have "ok (run_commands No_SHM self line (readUid l) (writeUid l) (npCommands l) h2 w2)
        (\<lambda>(h', w'). same_users w w')" by (rule ok_chain2 [OF that run_commands_ok])
    then show ?thesis by (rule ok_rbind) (auto intro: ok_chain2 [OF _ finish_line_ok])
  qed
  show "ok (rbind (if 0 < readUid l
        then rbind (readUserPipe No_SHM self (readUid l) line (writeUid l) ?w1)
              (\<lambda>(p, w'). Inr (?h1\<lparr>currPipe := p\<rparr>, w'))
        else Inr (?h1, ?w1))
      (\<lambda>(h2, w2). rbind (run_commands No_SHM self line (readUid l) (writeUid l) (npCommands l) h2 w2)
        (\<lambda>(h3, w3). finish_line (npCommands l) h3 w3))) (\<lambda>(h', w'). same_users w w')"
    by (rule ok_rbind [OF 1]) (use 2 in auto)
qed

lemma run_lines_ok:
  "live self w \<Longrightarrow> ok (run_lines No_SHM self line ls h w) (\<lambda>(h', w'). same_users w w')"
proof (induction ls arbitrary: h w)
  case (Cons l ls)
  have "ok (run_lines No_SHM self line ls h1 w1) (\<lambda>(h', w'). same_users w w')"
    if "same_users w w1" for h1 w1
    using that Cons.prems by (intro ok_chain2 [OF that Cons.IH]) (simp add: same_users_live)
  then show ?case by (auto intro!: ok_rbind [OF run_line_ok [OF Cons.prems]])
qed simp

lemma getline_ok: "ok (getline_cin w) (\<lambda>(l, w'). same_users w w')"
proof (cases "getline_cin w")
  case (Inl e)
  then have "e = Blocked" by (auto simp: getline_cin_def split: if_splits option.splits)
  with Inl show ?thesis by simp
next
  case (Inr p)
  then show ?thesis using getline_cin_frame [of w "fst p" "snd p"] by (cases p) (simp add: same_users_def)
qed

lemma runShell_ok:
  assumes "serving fd i w"
  shows "ok (runShell No_SHM fd h w) (\<lambda>(h', w'). same_users w w')"
  unfolding runShell_def serving_id [OF assms] prod.case
proof (rule ok_rbind [OF getline_ok], clarify)
  fix line w2
  assume 2: "same_users w w2"
  let ?h = "h\<lparr>shell_fd := fd\<rparr>"
  have s: "serving (shell_fd ?h) i w2" using serving_same [OF assms 2] by simp
  have 3: "ok (parseCommand No_SHM line ?h w2) (\<lambda>(ls, h', w'). same_users w w')"
    by (rule ok_mono [OF parseCommand_server_ok [OF s]]) (auto intro: same_users_trans [OF 2])
  show "ok (rbind (parseCommand No_SHM line ?h w2) (\<lambda>(ls, h1, w3).
        rbind (run_lines No_SHM i line ls h1 w3) (\<lambda>(h2, w4).
        Inr (h2, if running h2 \<and> fd = 0 then cout ''% '' w4 else w4)))) (\<lambda>(h', w'). same_users w w')"
  proof (rule ok_rbind [OF 3], clarify)
    fix ls h1 w3
    assume 4: "same_users w w3"
    have "live i w" using assms by (simp add: serving_def)
    then have "live i w3" using 4 by (simp add: same_users_live)
    then have 5: "ok (run_lines No_SHM i line ls h1 w3) (\<lambda>(h', w'). same_users w w')"
      by (intro ok_chain2 [OF 4 run_lines_ok])
    show "ok (rbind (run_lines No_SHM i line ls h1 w3) (\<lambda>(h2, w4).
        Inr (h2, if running h2 \<and> fd = 0 then cout ''% '' w4 else w4))) (\<lambda>(h', w'). same_users w w')"
      by (rule ok_rbind [OF 5]) (auto simp: same_users_cout)
  qed
qed

lemma no_name: "snprintf_s MAX_USER_NAME_LEN ''(no name)'' = ''(no name)''"
  by code_simp

end
