(* ===== verification/Server_Invariant.thy ===== *)
theory Server_Invariant
  imports Server_Loop Server_Facts Shell_Facts
begin

text \<open>
  The tables of \<open>np_single_proc\<close> in every reachable state: users have positive ids, every registered
  socket belongs to a user with exactly that socket, and every socket \<open>select\<close> watches is registered
  or is the listening one.  It follows that serving a client never dereferences a null user.
\<close>

definition tables_ok :: "world \<Rightarrow> bool" where
  "tables_ok w \<longleftrightarrow>
     smap_ok (users w) \<and> smap_ok (sockID_table w) \<and> (\<forall>i. live i w \<longrightarrow> 1 \<le> i) \<and>
     (\<forall>fd i. sm_find (sockID_table w) fd = Some i \<longrightarrow>
        (\<exists>u. sm_find (users w) i = Some u \<and> sock u = fd))"

definition server_inv :: "server_loop \<Rightarrow> bool" where
  "server_inv s \<longleftrightarrow> tables_ok (srv s) \<and>
     masterSocks s \<subseteq> insert (serverSock s) (dom (sm_find (sockID_table (srv s))))"

lemma tables_ok_same:
  assumes "tables_ok w" "same_users w w'"
  shows "tables_ok w'"
proof -
  have "\<exists>u. sm_find (users w') i = Some u \<and> sock u = fd"
    if "sm_find (users w) i = Some v" "sock v = fd" for i fd v
  proof -
    have "map_option sock (sm_find (users w') i) = Some fd"
      using assms(2) that by (simp add: same_users_def)
    then show ?thesis by auto
  qed
  moreover have "live i w' = live i w" for i by (rule same_users_live [OF assms(2)])
  moreover have "sockID_table w' = sockID_table w" "smap_ok (users w) \<longrightarrow> smap_ok (users w')"
    using assms(2) by (simp_all add: same_users_def)
  ultimately show ?thesis
    using assms(1) unfolding tables_ok_def by metis
qed

lemma tables_okD:
  "tables_ok w \<Longrightarrow> sm_find (sockID_table w) fd = Some i \<Longrightarrow> \<exists>u. sm_find (users w) i = Some u \<and> sock u = fd"
  by (simp add: tables_ok_def)

lemma tables_ok_serving:
  "tables_ok w \<Longrightarrow> sm_find (sockID_table w) fd = Some i \<Longrightarrow> serving fd i w"
  by (fastforce simp: tables_ok_def serving_def live_def)

lemma tables_ok_frame [simp]:
  "tables_ok (w\<lparr>kern := k\<rparr>) = tables_ok w" "tables_ok (emit e w) = tables_ok w"
  "tables_ok (w\<lparr>incoming := inp\<rparr>) = tables_ok w"
  by (simp_all add: tables_ok_def live_def)

subsection \<open>Adding a user\<close>

lemma min_key_least:
  "sorted_wrt (<) ks \<Longrightarrow> \<forall>k \<in> set ks. m \<le> k \<Longrightarrow>
     m \<le> min_key ks m \<and> min_key ks m \<notin> set ks \<and> (\<forall>j. m \<le> j \<and> j < min_key ks m \<longrightarrow> j \<in> set ks)"
proof (induction ks m rule: min_key.induct)
  case (2 i "is" m)
  show ?case
  proof (cases "m < i")
    case True
    then show ?thesis using 2(2) by auto
  next
    case False
    then have m: "i = m" using 2(3) by simp
    have "\<forall>k \<in> set is. m + 1 \<le> k" using 2(2) m by auto
    then have IH: "m + 1 \<le> min_key is (m + 1)" "min_key is (m + 1) \<notin> set is"
        "\<And>j. m + 1 \<le> j \<and> j < min_key is (m + 1) \<Longrightarrow> j \<in> set is"
      using 2(1) [OF False] 2(2) by auto
    have "j \<in> set (i # is)" if "m \<le> j" "j < min_key is (m + 1)" for j
      using IH(3) [of j] that m by (cases "j = m") auto
    then show ?thesis using False m IH(1,2) by auto
  qed
qed simp

definition next_id :: "world \<Rightarrow> int" where
  "next_id w = min_key (map fst (users w)) 1"

lemma live_iff_key: "live i w \<longleftrightarrow> i \<in> set (map fst (users w))"
  by (auto simp: live_def sm_find_def map_of_eq_None_iff)

lemma next_id_least:
  assumes "tables_ok w"
  shows "1 \<le> next_id w" "\<not> live (next_id w) w" "\<And>j. 1 \<le> j \<Longrightarrow> j < next_id w \<Longrightarrow> live j w"
proof -
  have "sorted_wrt (<) (map fst (users w))" "\<forall>k \<in> set (map fst (users w)). 1 \<le> k"
    using assms by (auto simp: tables_ok_def smap_ok_def live_iff_key)
  from min_key_least [OF this] show "1 \<le> next_id w" "\<not> live (next_id w) w"
      "\<And>j. 1 \<le> j \<Longrightarrow> j < next_id w \<Longrightarrow> live j w"
    by (simp_all add: next_id_def live_iff_key)
qed

definition new_user :: "string \<Rightarrow> int \<Rightarrow> int \<Rightarrow> int \<Rightarrow> user_info" where
  "new_user addr port' fd self =
     UserInfo\<lparr>ip := snprintf_s IP_LEN addr, name := ''(no name)'', port := port', sock := fd,
              isConnected := True, pid := self\<rparr>"

lemma sm_put_put [simp]: "sm_put k v (sm_put k v' m) = sm_put k v m"
  by (induction k v m rule: sm_put.induct) auto

lemma addUser_eq:
  "\<exists>w'. addUser No_SHM addr port' fd self w = Inr w' \<and>
     users w' = sm_put (next_id w) (new_user addr port' fd self) (users w) \<and>
     sockID_table w' = sm_put fd (next_id w) (sockID_table w) \<and> kern w' = kern w \<and>
     cin_good w' = cin_good w \<and> stdin_buf w' = stdin_buf w \<and> serverIn w' = serverIn w \<and>
     serverOut w' = serverOut w \<and> serverErr w' = serverErr w \<and> spawned (trace w') = spawned (trace w)"
  by (simp add: addUser_def scan_id_def store_user_def Let_def next_id_def user_at_def new_user_def no_name)

lemma addUser_ok:
  assumes "tables_ok w"
  shows "ok (addUser No_SHM addr port' fd self w)
     (\<lambda>w'. tables_ok w' \<and> dom (sm_find (sockID_table w')) = insert fd (dom (sm_find (sockID_table w))))"
proof -
  obtain w' where w': "addUser No_SHM addr port' fd self w = Inr w'"
      "users w' = sm_put (next_id w) (new_user addr port' fd self) (users w)"
      "sockID_table w' = sm_put fd (next_id w) (sockID_table w)"
    using addUser_eq by blast
  note new = next_id_least [OF assms]
  have "\<exists>u. sm_find (users w') i = Some u \<and> sock u = fd'"
    if "sm_find (sockID_table w') fd' = Some i" for fd' i
  proof (cases "fd' = fd")
    case True
    then show ?thesis using that by (simp add: w' new_user_def)
  next
    case False
    then have "sm_find (sockID_table w) fd' = Some i" using that by (simp add: w')
    then obtain u where "sm_find (users w) i = Some u" "sock u = fd'"
      using tables_okD [OF assms] by blast
    moreover from this have "i \<noteq> next_id w" using new(2) by (auto simp: live_def)
    ultimately show ?thesis by (simp add: w')
  qed
  moreover have "1 \<le> i" if "live i w'" for i
    using that assms new(1) by (auto simp: w' live_def tables_ok_def split: if_splits)
  ultimately show ?thesis
    using assms by (auto simp: w' tables_ok_def)
qed

subsection \<open>Removing a user\<close>

lemma removeUser_ok:
  assumes "tables_ok w" "sm_find (sockID_table w) fd = Some i"
  shows "ok (removeUser No_SHM fd w)
     (\<lambda>w'. tables_ok w' \<and> dom (sm_find (sockID_table w')) = dom (sm_find (sockID_table w)) - {fd})"
proof -
  obtain u where u: "sm_find (users w) i = Some u" "sock u = fd"
    using tables_okD [OF assms] by blast
  have gone: "tables_ok w1" if "users w1 = sm_erase i (sm_put i zero_user (users w))"
      "sockID_table w1 = sm_erase fd (sockID_table w)" for w1
  proof -
    have "\<exists>v. sm_find (users w1) j = Some v \<and> sock v = fd'"
      if "sm_find (sockID_table w1) fd' = Some j" for fd' j
    proof -
      from that have fd': "fd' \<noteq> fd" "sm_find (sockID_table w) fd' = Some j"
        by (auto simp: \<open>sockID_table w1 = _\<close> split: if_splits)
      then obtain v where "sm_find (users w) j = Some v" "sock v = fd'"
        using tables_okD [OF assms(1)] by blast
      with u fd'(1) show ?thesis by (auto simp: \<open>users w1 = _\<close>)
    qed
    then show ?thesis
      using assms(1) that by (auto simp: tables_ok_def live_def split: if_splits)
  qed
  have step: "ok (rbind (broadcastMessage No_SHM m w1) (\<lambda>w8.
        Inr ((emit (Shutdown fd) w8)\<lparr>kern := k_close fd (kern w8)\<rparr>)))
      (\<lambda>w'. tables_ok w' \<and> dom (sm_find (sockID_table w')) = dom (sm_find (sockID_table w)) - {fd})"
    if "users w1 = sm_erase i (sm_put i zero_user (users w))"
      "sockID_table w1 = sm_erase fd (sockID_table w)" for w1 m
  proof (rule ok_rbind [OF broadcast_ok])
    fix w8 assume "same_users w1 w8"
    then have t8: "tables_ok w8" "sockID_table w8 = sockID_table w1"
      using gone [OF that] by (auto intro: tables_ok_same simp: same_users_def)
    then show "ok (Inr ((emit (Shutdown fd) w8)\<lparr>kern := k_close fd (kern w8)\<rparr>))
        (\<lambda>w'. tables_ok w' \<and> dom (sm_find (sockID_table w')) = dom (sm_find (sockID_table w)) - {fd})"
      by (simp add: that(2))
  qed
  have "\<exists>m w1. removeUser No_SHM fd w =
        rbind (broadcastMessage No_SHM m w1) (\<lambda>w8. Inr ((emit (Shutdown fd) w8)\<lparr>kern := k_close fd (kern w8)\<rparr>)) \<and>
      users w1 = sm_erase i (sm_put i zero_user (users w)) \<and>
      sockID_table w1 = sm_erase fd (sockID_table w)"
    unfolding removeUser_def Let_def config.case
    by (simp add: sm_index_hit [OF assms(2)] user_at_def u(1) deleteSHMUserFifo_def)
      (intro exI conjI, rule refl, simp_all)
  then obtain m w1 where w1: "removeUser No_SHM fd w =
        rbind (broadcastMessage No_SHM m w1) (\<lambda>w8. Inr ((emit (Shutdown fd) w8)\<lparr>kern := k_close fd (kern w8)\<rparr>))"
      "users w1 = sm_erase i (sm_put i zero_user (users w))"
      "sockID_table w1 = sm_erase fd (sockID_table w)" by blast
  show ?thesis unfolding w1(1) by (rule step [OF w1(2,3)])
qed

subsection \<open>Serving\<close>

lemma runShellLoop_ok:
  assumes "serving fd i w"
  shows "ok (runShellLoop fd w) (\<lambda>(b, w'). same_users w w')"
proof -
  let ?w1 = "w\<lparr>kern := k_dup2 fd 2 (k_dup2 fd 1 (k_dup2 fd 0 (kern w)))\<rparr>"
  obtain path w2 where env: "getServingUserEnv i ''PATH'' ?w1 = (path, w2)" by force
  let ?w3 = "k_setenv ''PATH'' (c_str path) w2"
  have "same_users w w2" using getServingUserEnv_same [OF env] by (simp add: same_users_def)
  then have 3: "same_users w ?w3" by (auto simp: k_setenv_def same_users_def)
  then have s3: "serving fd i ?w3" by (rule serving_same [OF assms])
  then have live3: "live i ?w3" by (simp add: serving_def)
  have after: "ok (rbind (user_at w4 i) (\<lambda>u4.
           let w5 = set_user i (u4\<lparr>shell := h\<rparr>) w4;
               w6 = w5\<lparr>kern := k_dup2 (serverErr w5) 2 (k_dup2 (serverOut w5) 1
                                 (k_dup2 (serverIn w5) 0 (kern w5)))\<rparr>
           in if running h
              then rbind (sendRawMessage No_SHM fd ''% '' w6) (\<lambda>w7. Inr (True, w7))
              else Inr (False, w6))) (\<lambda>(b, w'). same_users w w')"
    if 4: "same_users ?w3 w4" for h w4
  proof -
    have w4: "same_users w w4" using 3 4 by (rule same_users_trans)
    have "live i w4" using 4 live3 by (simp add: same_users_live)
    moreover have "same_users w (set_user i (u4\<lparr>shell := h\<rparr>) w4)" if "sm_find (users w4) i = Some u4" for u4
      using that by (intro same_users_set [OF w4, of i u4 "u4\<lparr>shell := h\<rparr>"]) auto
    ultimately show ?thesis
      by (auto simp: Let_def sendRawMessage_def intro!: ok_rbind [OF user_at_ok])
        (auto simp: same_users_def)
  qed
  have "ok (rbind (user_at ?w3 i) (\<lambda>u. rbind (runShell No_SHM fd (shell u) ?w3) (\<lambda>(h, w4).
       rbind (user_at w4 i) (\<lambda>u4.
           let w5 = set_user i (u4\<lparr>shell := h\<rparr>) w4;
               w6 = w5\<lparr>kern := k_dup2 (serverErr w5) 2 (k_dup2 (serverOut w5) 1
                                 (k_dup2 (serverIn w5) 0 (kern w5)))\<rparr>
           in if running h
              then rbind (sendRawMessage No_SHM fd ''% '' w6) (\<lambda>w7. Inr (True, w7))
              else Inr (False, w6))))) (\<lambda>(b, w'). same_users w w')"
  proof (rule ok_rbind [OF user_at_ok [OF live3]])
    fix u
    show "ok (rbind (runShell No_SHM fd (shell u) ?w3) (\<lambda>(h, w4). rbind (user_at w4 i) (\<lambda>u4.
           let w5 = set_user i (u4\<lparr>shell := h\<rparr>) w4;
               w6 = w5\<lparr>kern := k_dup2 (serverErr w5) 2 (k_dup2 (serverOut w5) 1
                                 (k_dup2 (serverIn w5) 0 (kern w5)))\<rparr>
           in if running h
              then rbind (sendRawMessage No_SHM fd ''% '' w6) (\<lambda>w7. Inr (True, w7))
              else Inr (False, w6)))) (\<lambda>(b, w'). same_users w w')"
      by (rule ok_rbind [OF runShell_ok [OF s3]]) (use after in auto)
  qed
  then show ?thesis
    unfolding runShellLoop_def serving_id [OF assms] prod.case Let_def env .
qed

definition registered_socks :: "server_loop \<Rightarrow> int set" where
  "registered_socks s = dom (sm_find (sockID_table (srv s)))"

lemma serve_input_ok:
  assumes "server_inv s" "fd \<in> registered_socks s"
  shows "ok (serve_input fd s) (\<lambda>s'. server_inv s' \<and> serverSock s' = serverSock s \<and>
     registered_socks s - {fd} \<subseteq> registered_socks s')"
proof -
  obtain i where i: "sm_find (sockID_table (srv s)) fd = Some i"
    using assms(2) by (auto simp: registered_socks_def)
  have T: "tables_ok (srv s)" using assms(1) by (simp add: server_inv_def)
  have s: "serving fd i (srv s)" by (rule tables_ok_serving [OF T i])
  show ?thesis
    unfolding serve_input_def
  proof (rule ok_rbind [OF runShellLoop_ok [OF s]], clarify)
    fix cont w1
    assume same: "same_users (srv s) w1"
    then have T1: "tables_ok w1" "sockID_table w1 = sockID_table (srv s)"
      using T by (auto intro: tables_ok_same simp: same_users_def)
    show "ok (if cont then Inr (s\<lparr>srv := w1\<rparr>)
         else rbind (removeUser No_SHM fd w1) (\<lambda>w2.
              Inr (s\<lparr>srv := w2, masterSocks := masterSocks s - {fd}\<rparr>)))
       (\<lambda>s'. server_inv s' \<and> serverSock s' = serverSock s \<and>
          registered_socks s - {fd} \<subseteq> registered_socks s')"
      using assms(1) T1 i
      by (auto simp: server_inv_def registered_socks_def intro!: ok_rbind [OF removeUser_ok [of _ fd i]])
  qed
qed

lemma serve_new_ok:
  assumes "server_inv s"
  shows "ok (serve_new n addr port' s) (\<lambda>s'. server_inv s' \<and> serverSock s' = serverSock s \<and>
     registered_socks s \<subseteq> registered_socks s')"
proof (cases "k_open (Socket n) False (kern (srv s))")
  case (Pair fd k)
  let ?w = "(srv s)\<lparr>kern := k\<rparr>"
  have T: "tables_ok ?w" using assms by (simp add: server_inv_def)
  have sends: "ok (rbind (sendRawMessage No_SHM fd WELCOME_MSG w1) (\<lambda>w2.
           rbind (getServingUserName fd w2) (\<lambda>(nm, w3).
           rbind (broadcastMessage No_SHM (LOGIN_MSG nm addr port') w3) (\<lambda>w4.
           rbind (sendRawMessage No_SHM fd ''% '' w4) (\<lambda>w5.
           Inr (s\<lparr>srv := w5, masterSocks := insert fd (masterSocks s),
                  maxSocks := max (maxSocks s) fd\<rparr>))))))
       (\<lambda>s'. server_inv s' \<and> serverSock s' = serverSock s \<and> registered_socks s \<subseteq> registered_socks s')"
    if T1: "tables_ok w1"
      and dom1: "dom (sm_find (sockID_table w1)) = insert fd (dom (sm_find (sockID_table (srv s))))" for w1
  proof -
    obtain i where i: "sm_find (sockID_table w1) fd = Some i" using dom1 by blast
    have fin: "server_inv s' \<and> serverSock s' = serverSock s \<and> registered_socks s \<subseteq> registered_socks s'"
      if "same_users w1 w5" "srv s' = w5" "masterSocks s' = insert fd (masterSocks s)"
        "serverSock s' = serverSock s" for w5 s'
    proof -
      have "tables_ok w5" by (rule tables_ok_same [OF T1 that(1)])
      moreover have "dom (sm_find (sockID_table w5)) = insert fd (dom (sm_find (sockID_table (srv s))))"
        using that(1) dom1 by (simp add: same_users_def)
      ultimately show ?thesis
        using assms unfolding server_inv_def registered_socks_def that(2-4) by blast
    qed
    have name_ok: "ok (getServingUserName fd w2) (\<lambda>(nm, w3). same_users w1 w3)" if "same_users w1 w2" for w2
    proof -
      have "serving fd i w2" by (rule serving_same [OF tables_ok_serving [OF T1 i] that])
      then show ?thesis
        using that by (auto simp: getServingUserName_def serving_id serving_def intro!: ok_rbind [OF user_at_ok])
    qed
    show ?thesis
      by (rule ok_rbind [OF send_ok], rule ok_rbind [OF name_ok], assumption, clarify,
          rule ok_rbind [OF broadcast_after_set], assumption, rule ok_rbind [OF ok_chain [OF _ send_ok]],
          assumption, unfold ok_simps, rule fin, assumption) simp_all
  qed
  show ?thesis
    unfolding serve_new_def Pair prod.case
    by (rule ok_if, simp) (rule ok_rbind [OF addUser_ok [OF T]], use sends in simp)
qed

subsection \<open>Rounds and reachable states\<close>

lemma poll_ok:
  "server_inv s \<Longrightarrow> distinct socks \<Longrightarrow> serverSock s = l \<Longrightarrow>
     \<forall>fd \<in> set socks. fd \<in> ready \<longrightarrow> fd \<noteq> l \<longrightarrow> fd \<in> registered_socks s \<Longrightarrow>
     ok (rfold (\<lambda>fd s. if fd \<notin> ready then Inr s
                   else if fd = serverSock s then serve_new n addr port' s
                   else serve_input fd s) socks s) (\<lambda>s'. server_inv s' \<and> serverSock s' = l)"
proof (induction socks arbitrary: s)
  case (Cons fd socks)
  let ?f = "\<lambda>fd s. if fd \<notin> ready then Inr s
                   else if fd = serverSock s then serve_new n addr port' s
                   else serve_input fd s"
  have "ok (?f fd s) (\<lambda>s1. server_inv s1 \<and> serverSock s1 = l \<and> registered_socks s - {fd} \<subseteq> registered_socks s1)"
    using Cons.prems
    by (auto intro: ok_mono [OF serve_new_ok] ok_mono [OF serve_input_ok])
  then have "ok (rbind (?f fd s) (rfold ?f socks)) (\<lambda>s'. server_inv s' \<and> serverSock s' = l)"
  proof (rule ok_rbind)
    fix s1
    assume s1: "server_inv s1 \<and> serverSock s1 = l \<and> registered_socks s - {fd} \<subseteq> registered_socks s1"
    have "\<forall>fd \<in> set socks. fd \<in> ready \<longrightarrow> fd \<noteq> l \<longrightarrow> fd \<in> registered_socks s1"
      using s1 Cons.prems(2,4) by auto
    then show "ok (rfold ?f socks s1) (\<lambda>s'. server_inv s' \<and> serverSock s' = l)"
      using s1 Cons.prems(2) by (intro Cons.IH) auto
  qed
  then show ?case by simp
qed simp

lemma poll_round_ok:
  assumes "server_inv s" "ready \<subseteq> masterSocks s"
  shows "ok (poll_round ready n addr port' s) server_inv"
proof -
  have "\<forall>fd \<in> set [0..maxSocks s]. fd \<in> ready \<longrightarrow> fd \<noteq> serverSock s \<longrightarrow> fd \<in> registered_socks s"
    using assms by (auto simp: server_inv_def registered_socks_def)
  then show ?thesis
    unfolding poll_round_def
    by (intro ok_mono [OF poll_ok [OF assms(1) _ refl]]) simp_all
qed

lemma default_paths_frame:
  "users (default_paths w) = users w" "sockID_table (default_paths w) = sockID_table w"
proof -
  have "users (fold (\<lambda>i. setServingUserEnv i v p) is w) = users w \<and>
      sockID_table (fold (\<lambda>i. setServingUserEnv i v p) is w) = sockID_table w" for "is" v p
    by (induction "is" arbitrary: w) (auto simp: setServingUserEnv_def Let_def split: prod.split)
  then show "users (default_paths w) = users w" "sockID_table (default_paths w) = sockID_table w"
    by (simp_all add: default_paths_def)
qed

lemma single_start_inv:
  assumes "single_start args host addr w = Inr s"
  shows "server_inv s"
proof -
  let ?w1 = "chatServer (k_setenv ''PATH'' ''bin:.'' w)"
  obtain fd w2 where 2: "createListenSocket 0 ?w1 = (fd, w2)" by force
  obtain p where s: "s = \<lparr>srv = default_paths (showServingNetworkInfo host addr p w2),
      serverSock = fd, masterSocks = {fd}, maxSocks = fd\<rparr>"
    using assms by (auto simp: single_start_def Let_def 2 rbind_eq_Inr_iff split: if_splits)
  have "users w2 = users ?w1 \<and> sockID_table w2 = sockID_table ?w1"
    using 2 by (auto simp: createListenSocket_def split: prod.splits)
  moreover have "users ?w1 = [] \<and> sockID_table ?w1 = []"
    by (simp add: chatServer_def Let_def split: prod.split)
  ultimately show ?thesis
    by (simp add: s server_inv_def tables_ok_def live_def default_paths_frame showServingNetworkInfo_def)
qed

inductive_cases single_stepE: "single_step s s'"

interpretation single: invariant single_starts single_step server_inv
proof
  show "server_inv s" if "single_starts s" for s
    using that single_start_inv by (auto simp: single_starts_def)
  show "server_inv s'" if "server_inv s" "single_step s s'" for s s'
    using that(2)
  proof (rule single_stepE)
    fix ready n addr port'
    assume "ready \<subseteq> masterSocks s" "poll_round ready n addr port' s = Inr s'"
    then show ?thesis using poll_round_ok [OF that(1), of ready n addr port'] by simp
  next
    fix inp assume "s' = s\<lparr>srv := (srv s)\<lparr>incoming := inp\<rparr>\<rparr>"
    then show ?thesis using that(1) by (simp add: server_inv_def)
  qed
qed

subsection \<open>Once standard input has ended\<close>

text \<open>What is left of a turn when \<open>std::cin\<close> has lost its good state: no input, hence no command.\<close>

definition quiet :: "world \<Rightarrow> world \<Rightarrow> bool" where
  "quiet w w' \<longleftrightarrow> cin_good w' = cin_good w \<and> spawned (trace w') = spawned (trace w)"

lemma quiet_refl [simp]: "quiet w w"
  by (simp add: quiet_def)

lemma quiet_trans: "quiet w w1 \<Longrightarrow> quiet w1 w2 \<Longrightarrow> quiet w w2"
  by (simp add: quiet_def)

lemma quiet_simps [simp]:
  "quiet w (w'\<lparr>kern := k\<rparr>) = quiet w w'" "quiet w (set_user i u w') = quiet w w'"
  "quiet w (cout s w') = quiet w w'" "quiet w (emit (Send i m) w') = quiet w w'"
  "quiet w (emit (Shutdown i) w') = quiet w w'"
  "quiet w (w'\<lparr>sockID_table := t\<rparr>) = quiet w w'" "quiet w (w'\<lparr>users := us\<rparr>) = quiet w w'"
  by (simp_all add: quiet_def)

lemma broadcast_eq:
  "broadcastMessage No_SHM msg w = Inr (w\<lparr>trace := trace w @ map (\<lambda>e. Send (sock (snd e)) msg) (users w)\<rparr>)"
proof -
  have "rfold (\<lambda>e w. sendRawMessage No_SHM (sock (snd e)) msg w) es w =
      Inr (w\<lparr>trace := trace w @ map (\<lambda>e. Send (sock (snd e)) msg) es\<rparr>)" for es
    by (induction es arbitrary: w) (simp_all add: sendRawMessage_def emit_def)
  then show ?thesis by (simp add: broadcastMessage_def)
qed

lemma serve_new_total:
  assumes "k_open (Socket n) False (kern (srv s)) = (fd, k)" and "0 \<le> fd" and "fd < FD_SETSIZE"
  shows "\<exists>s'. serve_new n addr port' s = Inr s'"
proof -
  let ?w = "(srv s)\<lparr>kern := k\<rparr>"
  obtain w1 where w1: "addUser No_SHM addr port' fd (-1) ?w = Inr w1"
      "users w1 = sm_put (next_id ?w) (new_user addr port' fd (-1)) (users ?w)"
      "sockID_table w1 = sm_put fd (next_id ?w) (sockID_table ?w)"
    using addUser_eq by blast
  have "getServingUserID fd (emit e w1) = (next_id ?w, emit e w1)" for e
    by (simp add: getServingUserID_def sm_index_hit w1(3))
  then show ?thesis
    using assms by (simp add: serve_new_def w1(1,2) sendRawMessage_def getServingUserName_def user_at_def broadcast_eq)
qed

lemma spawned_sends [simp]: "spawned (map (\<lambda>e. Send (f e) m) es) = []"
  by (induction es) auto

lemma quiet_broadcast: "broadcastMessage No_SHM msg w = Inr w' \<Longrightarrow> quiet w w'"
  by (auto simp: broadcast_eq quiet_def)

lemma quiet_env: "getServingUserEnv self n w = (v, w') \<Longrightarrow> quiet w w'"
  by (auto simp: getServingUserEnv_def Let_def quiet_def split: prod.splits)

lemma quiet_id: "getServingUserID fd w = (i, w') \<Longrightarrow> quiet w w'"
  by (auto simp: getServingUserID_def quiet_def split: prod.splits)

lemma runShell_dead:
  assumes "\<not> cin_good w" "runShell cfg fd h w = Inr (h', w')"
  shows "quiet w w'" "h' = h\<lparr>shell_fd := fd\<rparr>"
proof -
  obtain self w1 where 1: "getServingUserID fd w = (self, w1)" by force
  obtain self2 w2 where 2: "getServingUserID fd w1 = (self2, w2)" by force
  have q: "quiet w w1" "quiet w1 w2" using 1 2 by (simp_all add: quiet_id)
  then have "\<not> cin_good w1" using assms(1) by (simp add: quiet_def)
  then have "getline_cin w1 = Inr ([], w1)" by (rule getline_cin_dead)
  moreover have "parseCommand cfg [] (h\<lparr>shell_fd := fd\<rparr>) w1 = Inr ([], h\<lparr>shell_fd := fd\<rparr>, w2)"
    by (simp add: parseCommand_def 2 parse_loop.simps istringstream_def NpCommandLine_def Let_def)
  ultimately have "h' = h\<lparr>shell_fd := fd\<rparr>" "w' = (if running h \<and> fd = 0 then cout ''% '' w2 else w2)"
    using assms(2) by (simp_all add: runShell_def 1)
  then show "quiet w w'" "h' = h\<lparr>shell_fd := fd\<rparr>"
    using quiet_trans [OF q] by simp_all
qed

lemma runShellLoop_dead:
  assumes "\<not> cin_good w" "runShellLoop fd w = Inr (b, w')"
  shows "quiet w w'"
proof -
  obtain self w0 where 0: "getServingUserID fd w = (self, w0)" by force
  let ?w1 = "w0\<lparr>kern := k_dup2 fd 2 (k_dup2 fd 1 (k_dup2 fd 0 (kern w0)))\<rparr>"
  obtain path w2 where env: "getServingUserEnv self ''PATH'' ?w1 = (path, w2)" by force
  let ?w3 = "k_setenv ''PATH'' (c_str path) w2"
  have q: "quiet w ?w3"
    using quiet_id [OF 0] quiet_env [OF env] by (auto simp: quiet_def k_setenv_def)
  then have dead: "\<not> cin_good ?w3" using assms(1) by (simp add: quiet_def)
  show ?thesis
    using assms(2)
    by (auto simp: runShellLoop_def 0 env Let_def sendRawMessage_def rbind_eq_Inr_iff split: if_splits
        dest!: runShell_dead(1) [OF dead] intro: quiet_trans [OF q])
qed

lemma removeUser_quiet: "removeUser No_SHM fd w = Inr w' \<Longrightarrow> quiet w w'"
  by (auto simp: removeUser_def Let_def rbind_eq_Inr_iff deleteSHMUserFifo_def split: prod.splits
      dest!: quiet_broadcast) (simp add: quiet_def)

lemma serve_input_dead:
  assumes "\<not> cin_good (srv s)" "serve_input fd s = Inr s'"
  shows "quiet (srv s) (srv s')"
proof -
  obtain cont w1 where 1: "runShellLoop fd (srv s) = Inr (cont, w1)" "quiet w1 (srv s')"
    using assms(2)
    by (auto simp: serve_input_def rbind_eq_Inr_iff split: if_splits dest: removeUser_quiet)
  show ?thesis using runShellLoop_dead [OF assms(1) 1(1)] 1(2) by (rule quiet_trans)
qed

lemma serve_new_quiet:
  assumes "serve_new n addr port' s = Inr s'"
  shows "quiet (srv s) (srv s')"
proof (cases "k_open (Socket n) False (kern (srv s))")
  case (Pair fd k)
  let ?w = "(srv s)\<lparr>kern := k\<rparr>"
  obtain w1 where 1: "addUser No_SHM addr port' fd (- 1) ?w = Inr w1" "cin_good w1 = cin_good ?w"
      "spawned (trace w1) = spawned (trace ?w)"
    using addUser_eq [of addr port' fd "- 1" ?w] by blast
  obtain nm w3 w4 where 2: "getServingUserName fd (emit (Send fd WELCOME_MSG) w1) = Inr (nm, w3)"
      "broadcastMessage No_SHM (LOGIN_MSG nm addr port') w3 = Inr w4" "srv s' = emit (Send fd ''% '') w4"
    using assms by (auto simp: serve_new_def Pair 1(1) sendRawMessage_def rbind_eq_Inr_iff split: if_splits)
  have "quiet (srv s) w1" using 1 by (simp add: quiet_def)
  moreover have "quiet w1 w3"
    using 2(1) by (auto simp: getServingUserName_def rbind_eq_Inr_iff split: prod.splits dest!: quiet_id)
      (simp add: quiet_def)
  moreover have "quiet w3 w4" by (rule quiet_broadcast [OF 2(2)])
  ultimately show ?thesis unfolding 2(3) by (metis quiet_simps(4) quiet_trans)
qed

lemma single_step_dead:
  assumes "single_step s s'" "\<not> cin_good (srv s)"
  shows "quiet (srv s) (srv s')"
  using assms(1)
proof (rule single_stepE)
  fix ready n addr port'
  assume "poll_round ready n addr port' s = Inr s'"
  then have "rfold (\<lambda>fd s. if fd \<notin> ready then Inr s
                   else if fd = serverSock s then serve_new n addr port' s
                   else serve_input fd s) [0..maxSocks s] s = Inr s'"
    by (simp add: poll_round_def)
  then show ?thesis
  proof (rule rfold_invariant [where P = "\<lambda>t. quiet (srv s) (srv t)"])
    fix fd t t'
    assume q: "quiet (srv s) (srv t)"
      and step: "(if fd \<notin> ready then Inr t else if fd = serverSock t then serve_new n addr port' t
                  else serve_input fd t) = Inr t'"
    have "\<not> cin_good (srv t)" using q assms(2) by (simp add: quiet_def)
    then have "quiet (srv t) (srv t')"
      using step serve_new_quiet serve_input_dead by (auto split: if_splits)
    then show "quiet (srv s) (srv t')" by (rule quiet_trans [OF q])
  qed simp
next
  fix inp assume "s' = s\<lparr>srv := (srv s)\<lparr>incoming := inp\<rparr>\<rparr>"
  then show ?thesis by (simp add: quiet_def)
qed

end
