(* ===== verification/Chat_Facts.thy ===== *)
theory Chat_Facts
  imports Server_Invariant
begin

text \<open>
  Exact results of the chat operations and of the user pipes of a server without shared memory, on
  which the properties of \<open>Server_Properties\<close> rest.
\<close>

subsection \<open>Removing and adding\<close>

lemma removeUser_eq:
  assumes "sm_find (sockID_table w) fd = Some i" "sm_find (users w) i = Some u"
  shows "\<exists>w'. removeUser No_SHM fd w = Inr w' \<and>
     sm_find (users w') = (sm_find (users w))(i := None) \<and>
     sm_find (sockID_table w') = (sm_find (sockID_table w))(fd := None) \<and>
     fds (kern w') fd = None \<and>
     (\<exists>es. trace w' = trace w @ es @
        map (\<lambda>e. Send (sock (snd e)) (LOGOUT_MSG (name u))) (users w') @ [Shutdown fd])"
  by (simp add: removeUser_def Let_def sm_index_hit [OF assms(1)] user_at_def assms(2)
      deleteSHMUserFifo_def broadcast_eq emit_def k_close_def)

lemma next_id_eq:
  assumes "tables_ok w" "\<not> live i w" "1 \<le> i" "\<And>j. 1 \<le> j \<Longrightarrow> j < i \<Longrightarrow> live j w"
  shows "next_id w = i"
proof -
  note n = next_id_least [OF assms(1)]
  have "\<not> next_id w < i" using n(1,2) assms(4) by blast
  moreover have "\<not> i < next_id w" using n(3) assms(2,3) by blast
  ultimately show ?thesis by simp
qed

subsection \<open>Names\<close>

definition names_distinct :: "world \<Rightarrow> bool" where
  "names_distinct w \<longleftrightarrow>
     (\<forall>i j u v. sm_find (users w) i = Some u \<longrightarrow> sm_find (users w) j = Some v \<longrightarrow> i \<noteq> j \<longrightarrow>
        name u = name v \<longrightarrow> name u = ''(no name)'')"

lemma name_taken_eq:
  "\<forall>i \<in> set is. live i w \<Longrightarrow>
     name_taken w nm is = Inr (\<exists>i \<in> set is. \<exists>u. sm_find (users w) i = Some u \<and> isConnected u \<and> name u = nm)"
proof (induction "is")
  case (Cons a "is")
  then obtain y where y: "sm_find (users w) a = Some y" by (auto simp: live_def)
  have "name_taken w nm is = Inr (\<exists>i \<in> set is. \<exists>u. sm_find (users w) i = Some u \<and> isConnected u \<and> name u = nm)"
    using Cons by simp
  then show ?case
    using y by (cases "isConnected y \<and> name y = nm") (auto simp: user_at_def)
qed simp

definition all_connected :: "world \<Rightarrow> bool" where
  "all_connected w \<longleftrightarrow> (\<forall>i u. sm_find (users w) i = Some u \<longrightarrow> isConnected u)"

lemma name_taken_users:
  assumes "all_connected w"
  shows "name_taken w nm (map fst (users w)) = Inr (\<exists>i u. sm_find (users w) i = Some u \<and> name u = nm)"
proof -
  have "\<forall>i \<in> set (map fst (users w)). live i w" by (simp add: live_key)
  moreover have "i \<in> set (map fst (users w))" if "sm_find (users w) i = Some u" for i u
    using that live_iff_key [of i w] by (auto simp: live_def)
  ultimately show ?thesis
    using assms by (subst name_taken_eq) (auto simp: all_connected_def simp del: set_map, blast)
qed

lemma Name_eq:
  assumes "all_connected w" "sm_find (users w) self = Some u" "nul \<notin> set nm"
  shows "Name No_SHM self nm w =
     (if \<exists>i v. sm_find (users w) i = Some v \<and> name v = nm
      then Inr (cout (''*** User '' @ quote @ nm @ quote @ '' already exists. ***'' @ nl) w)
      else if 20 \<le> length nm then Inl Buffer_Overflow
      else broadcastMessage No_SHM (NAME_MSG (ip u) (port u) nm) (set_user self (u\<lparr>name := nm\<rparr>) w))"
  using assms(2,3)
  by (auto simp: Name_def name_taken_users [OF assms(1)] user_at_def strcpy_into_def MAX_USER_NAME_LEN_def)

subsection \<open>User pipes\<close>

lemma k_dup_ok:
  assumes "fds k i = Some (ob, c)" "room_of k \<noteq> {}"
  obtains f k' where "k_dup i k = (f, k')" and "f \<in> room_of k" and "fds k' = (fds k)(f \<mapsto> (ob, False))"
    and "room_of k' = room_of k - {f}" and "next_pipe k' = next_pipe k"
proof -
  obtain f k' where 1: "k_open ob False k = (f, k')" "f \<in> room_of k"
    using fdt.alloc_some [OF assms(2), of "(ob, False)"] by auto
  then have "f \<noteq> -1" by (auto simp: room_of_def)
  moreover have "next_pipe k' = next_pipe k" using k_open_frame(1) [of ob False k] 1(1) by simp
  ultimately show ?thesis
    using 1 fdt.alloc_opn [of "(ob, False)" k f k'] fdt.alloc_room [of "(ob, False)" k f k'] assms(1)
    by (intro that [of f k']) (simp_all add: k_dup_def)
qed

definition pipe_from :: "int \<Rightarrow> int \<Rightarrow> world \<Rightarrow> pipe option" where
  "pipe_from s r w = map_option (\<lambda>u. userPipes u s) (sm_find (users w) r)"

text \<open>Writing to a user whose slot is empty.\<close>

lemma write_fresh:
  assumes "live s w" "sm_find (users w) r = Some u" "userPipes u s = Pipe" "1 \<le> s" "s \<le> 30" "r \<le> 31"
    and "3 \<le> card (room_of (kern w))"
  obtains p f w' where "writeUserPipe No_SHM s r cmd rd w = Inr (pipe_set (-1) f, w')"
    and "users w' = sm_put r (set_user_pipe s p u) (users w)"
    and "fd_in p \<in> room_of (kern w)" and "fd_out p \<in> room_of (kern w)" and "fd_in p \<noteq> fd_out p"
    and "f \<in> room_of (kern w)" and "f \<noteq> fd_in p" and "f \<noteq> fd_out p"
    and "fds (kern w') = (fds (kern w))(fd_in p \<mapsto> (PipeR (next_pipe (kern w)), True),
           fd_out p \<mapsto> (PipeW (next_pipe (kern w)), True), f \<mapsto> (PipeW (next_pipe (kern w)), False))"
    and "room_of (kern w') = room_of (kern w) - {fd_in p, fd_out p, f}"
    and "sockID_table w' = sockID_table w"
proof -
  have "2 \<le> card (room_of (kern w))" using assms(7) by simp
  then obtain i j k' where 1: "pipe_create (kern w) = Inr (\<lparr>fd_in = i, fd_out = j\<rparr>, k')"
      "i \<in> room_of (kern w)" "j \<in> room_of (kern w)" "i \<noteq> j"
      "fds k' = (fds (kern w))(i \<mapsto> (PipeR (next_pipe (kern w)), True), j \<mapsto> (PipeW (next_pipe (kern w)), True))"
      and k': "k' = (kern w)\<lparr>fds := fds k', next_pipe := Suc (next_pipe (kern w))\<rparr>"
    by (rule pipe_create_ok)
  have "nofile k' = nofile (kern w)" by (subst k') simp
  then have room: "room_of k' = room_of (kern w) - {i, j}"
    by (auto simp: room_of_def 1(5))
  have "card (room_of (kern w)) - card {i, j} \<le> card (room_of k')"
    unfolding room by (rule diff_card_le_card_Diff) simp
  then have "room_of k' \<noteq> {}" using assms(7) 1(4) by auto
  moreover have "fds k' j = Some (PipeW (next_pipe (kern w)), True)" by (simp add: 1(5))
  ultimately obtain f k2 where 2: "k_dup j k' = (f, k2)" "f \<in> room_of k'"
      "fds k2 = (fds k')(f \<mapsto> (PipeW (next_pipe (kern w)), False))" "room_of k2 = room_of k' - {f}"
    using k_dup_ok by metis
  let ?p = "\<lparr>fd_in = i, fd_out = j\<rparr>"
  obtain me where me: "sm_find (users w) s = Some me" using assms(1) by (auto simp: live_def)
  have "\<exists>w'. writeUserPipe No_SHM s r cmd rd w = Inr (pipe_set (-1) f, w') \<and>
      users w' = sm_put r (set_user_pipe s ?p u) (users w) \<and> kern w' = k2 \<and> sockID_table w' = sockID_table w"
    using assms(2-6) me 1(1) 2(1)
    by (simp add: writeUserPipe_def handleUserPipe_def user_at_def user_pipe_def MAX_CONN_def broadcast_eq)
  then obtain w' where 3: "writeUserPipe No_SHM s r cmd rd w = Inr (pipe_set (-1) f, w')"
      "users w' = sm_put r (set_user_pipe s ?p u) (users w)" "kern w' = k2" "sockID_table w' = sockID_table w"
    by blast
  show ?thesis
    using 3 1 2 room by (intro that [of f w' ?p]) auto
qed

text \<open>Reading a pipe that is there.\<close>

lemma read_present:
  assumes "live s w" "sm_find (users w) r = Some u" "userPipes u s = p" "\<not> pipe_empty p"
    and "0 \<le> s" "s \<le> 30" "fds (kern w) (fd_in p) = Some (PipeR q, c)"
    and "fd_in p \<noteq> -1" "fd_out p \<noteq> -1" "1 \<le> card (room_of (kern w))"
    and "fd_in p \<notin> room_of (kern w)" "fd_out p \<notin> room_of (kern w)"
  obtains f w' where "readUserPipe No_SHM r s cmd wr w = Inr (pipe_set f (-1), w')"
    and "users w' = sm_put r (set_user_pipe s Pipe u) (users w)" and "f \<in> room_of (kern w)"
    and "fds (kern w') = ((fds (kern w))(f \<mapsto> (PipeR q, False)))(fd_in p := None, fd_out p := None)"
proof -
  have "room_of (kern w) \<noteq> {}" using assms(10) by auto
  then obtain f k where 1: "k_dup (fd_in p) (kern w) = (f, k)" "f \<in> room_of (kern w)"
      "fds k = (fds (kern w))(f \<mapsto> (PipeR q, False))"
    using k_dup_ok [OF assms(7)] by metis
  obtain sender where sender: "sm_find (users w) s = Some sender" using assms(1) by (auto simp: live_def)
  have c: "closePipe p k = (Pipe, snd (closePipe p k))" by (rule closePipe_eq)
  have "\<exists>w'. readUserPipe No_SHM r s cmd wr w = Inr (pipe_set f (-1), w') \<and>
      users w' = sm_put r (set_user_pipe s Pipe u) (users w) \<and> kern w' = snd (closePipe p k)"
    using assms(2-6) sender 1(1)
    by (simp add: readUserPipe_def handleUserPipe_def user_at_def user_pipe_def MAX_CONN_def broadcast_eq
        Let_def O_RDONLY_def O_WRONLY_def) (subst c, simp)
  then obtain w' where 2: "readUserPipe No_SHM r s cmd wr w = Inr (pipe_set f (-1), w')"
      "users w' = sm_put r (set_user_pipe s Pipe u) (users w)" "kern w' = snd (closePipe p k)" by blast
  have "fds (kern w') = ((fds (kern w))(f \<mapsto> (PipeR q, False)))(fd_in p := None, fd_out p := None)"
    using assms(8,9) by (auto simp: 2(3) closePipe_kernel 1(3) fun_eq_iff)
  with 2 1(2) show ?thesis by (intro that [of f w'])
qed

end
