(* ===== verification/Server_Properties.thy ===== *)
theory Server_Properties
  imports Chat_Facts Sample_World
begin

text \<open>
  The properties of the chat servers: their tables in every reachable state, ids, names, messages,
  user pipes, and what the servers get wrong (standard input shared by all clients, pipes that
  outlive their sender, fixed-size buffers).
\<close>

subsection \<open>Concrete states\<close>

definition sample_users :: "(int, user_info) smap" where
  "sample_users = [(1, sample_user 4 ''ann''), (2, sample_user 5 ''bob'')]"

abbreviation two_users :: world where
  "two_users \<equiv> sample_world 64 sample_users [(4, 1), (5, 2)] []"

lemma sample_users_find [simp]:
  "sm_find sample_users i = (if i = 1 then Some (sample_user 4 ''ann'')
                             else if i = 2 then Some (sample_user 5 ''bob'') else None)"
  by (simp add: sample_users_def)

lemma two_users_tables: "tables_ok two_users"
  by (auto simp: tables_ok_def live_def smap_ok_def sample_users_def split: if_splits)

lemma two_users_room: "card (room_of (kern two_users)) = 61"
  using card_sample_room [of 64] by (simp add: room_of_def)

definition sample_loop :: server_loop where
  "sample_loop = projr (single_start [''np'', ''7000''] ''host'' ''1.1.1.1'' (sample_world 64 [] [] []))"

lemma sample_loop_start: "single_start [''np'', ''7000''] ''host'' ''1.1.1.1'' (sample_world 64 [] [] []) = Inr sample_loop"
proof -
  have "getPortFromArgs [''np'', ''7000''] = Inr 7000" by code_simp
  moreover have "\<exists>k. k_open (Socket 0) False (kern (chatServer (k_setenv ''PATH'' ''bin:.''
      (sample_world 64 [] [] [])))) = (6, k)"
    by (simp add: chatServer_def k_dup_def k_open_def lowest_free_def sample_table_def k_setenv_def)
  ultimately show ?thesis
    unfolding sample_loop_def
    by (auto simp: single_start_def createListenSocket_def FD_SETSIZE_def Let_def)
qed

subsection \<open>Tables\<close>



text \<open>C31. Serving whatever \<open>select\<close> may report in a reachable state never dereferences a null user, so
  \<open>np_single_proc\<close> is free of that failure no matter what its clients type.\<close>

theorem single_proc_no_null_user:
  assumes "reach single_starts single_step s" and "ready \<subseteq> masterSocks s"
  shows "poll_round ready n addr port' s \<noteq> Inl Null_Deref"
  by (rule ok_not_null [OF poll_round_ok [OF single.reach_inv [OF assms(1)] assms(2)]])

theorem single_proc_no_null_user_witness:
  "poll_round (masterSocks sample_loop) 1 ''1.2.3.4'' 50000 sample_loop \<noteq> Inl Null_Deref"
proof -
  have "single_starts sample_loop"
    using sample_loop_start unfolding single_starts_def by blast
  then show ?thesis by (rule single_proc_no_null_user [OF reach.Start subset_refl])
qed

text \<open>A new user gets the smallest positive id that is not in use, starts with a fresh record named
  \<open>(no name)\<close>, and nobody else's record changes.\<close>

theorem addUser_smallest_free_id:
  assumes "tables_ok w"
  shows "\<exists>w'. addUser No_SHM addr port' fd p w = Inr w' \<and> 1 \<le> next_id w \<and> \<not> live (next_id w) w \<and>
     (\<forall>j. 1 \<le> j \<and> j < next_id w \<longrightarrow> live j w) \<and>
     sm_find (users w') = (sm_find (users w))(next_id w \<mapsto> new_user addr port' fd p) \<and>
     sm_find (sockID_table w') = (sm_find (sockID_table w))(fd \<mapsto> next_id w)"
  using addUser_eq [of addr port' fd p w] next_id_least [OF assms] by auto

theorem addUser_smallest_free_id_witness:
  "\<exists>w'. addUser No_SHM ''9.9.9.9'' 40000 6 (-1) two_users = Inr w' \<and>
     sm_find (users w') 3 = Some (new_user ''9.9.9.9'' 40000 6 (-1))"
proof -
  have "next_id two_users = 3" by code_simp
  then show ?thesis
    using addUser_smallest_free_id [OF two_users_tables, of "''9.9.9.9''" 40000 6 "-1"] by auto
qed

text \<open>Removing the user of a socket removes exactly that user and that socket, closes the socket
  and announces the departure to everyone who remains; the other users keep their records, the
  pipes the leaving user had sent them included.\<close>

theorem removeUser_exact:
  assumes "sm_find (sockID_table w) fd = Some i" and "sm_find (users w) i = Some u"
  shows "\<exists>w'. removeUser No_SHM fd w = Inr w' \<and>
     sm_find (users w') = (sm_find (users w))(i := None) \<and>
     sm_find (sockID_table w') = (sm_find (sockID_table w))(fd := None) \<and>
     fds (kern w') fd = None \<and>
     (\<exists>es. trace w' = trace w @ es @
        map (\<lambda>e. Send (sock (snd e)) (LOGOUT_MSG (name u))) (users w') @ [Shutdown fd])"
  using removeUser_eq [OF assms] .

theorem removeUser_exact_witness:
  "\<exists>w'. removeUser No_SHM 4 two_users = Inr w' \<and> sm_find (users w') 1 = None \<and>
     sm_find (users w') 2 = Some (sample_user 5 ''bob'')"
proof -
  have "sm_find (sockID_table two_users) 4 = Some 1"
    and "sm_find (users two_users) 1 = Some (sample_user 4 ''ann'')" by simp_all
  from removeUser_exact [OF this] show ?thesis by auto
qed

text \<open>A pipe that was sent to \<open>r\<close> and never read outlives its sender: when the sender leaves and the
  next client is given the same id, a read by \<open>r\<close> from that id finds the departed sender's pipe.\<close>

theorem departed_sender_pipe_inherited:
  assumes "tables_ok w" and "sm_find (sockID_table w) fd = Some s" and "s \<le> 30"
    and "sm_find (users w) r = Some v" and "r \<noteq> s" and "\<not> pipe_empty (userPipes v s)"
    and "\<forall>j. 1 \<le> j \<and> j < s \<longrightarrow> live j w"
  shows "\<exists>w1 w2. removeUser No_SHM fd w = Inr w1 \<and> addUser No_SHM addr port' fd2 p w1 = Inr w2 \<and>
     sm_find (users w2) s = Some (new_user addr port' fd2 p) \<and>
     handleUserPipe No_SHM r s O_RDONLY True True w2 = Inr (True, True, w2)"
proof -
  obtain u where u: "sm_find (users w) s = Some u" using tables_okD [OF assms(1,2)] by blast
  obtain w1 where 1: "removeUser No_SHM fd w = Inr w1" "sm_find (users w1) = (sm_find (users w))(s := None)"
    using removeUser_eq [OF assms(2) u] by blast
  have T1: "tables_ok w1" using removeUser_ok [OF assms(1,2)] 1(1) by simp
  have "1 \<le> s" using assms(1) u by (auto simp: tables_ok_def live_def)
  moreover have "\<not> live s w1" "live j w1" if "1 \<le> j" "j < s" for j
    using assms(7) that by (auto simp: live_def 1(2))
  moreover have "\<not> live s w1" by (simp add: live_def 1(2))
  ultimately have id: "next_id w1 = s" by (intro next_id_eq [OF T1]) auto
  obtain w2 where 2: "addUser No_SHM addr port' fd2 p w1 = Inr w2"
      "users w2 = sm_put s (new_user addr port' fd2 p) (users w1)"
    using addUser_eq [of addr port' fd2 p w1] id by auto
  have "sm_find (users w2) r = Some v" "sm_find (users w2) s = Some (new_user addr port' fd2 p)"
    using assms(4,5) by (simp_all add: 2(2) 1(2))
  then show ?thesis
    using 1(1) 2(1) assms(3,6) \<open>1 \<le> s\<close>
    by (simp add: handleUserPipe_def user_at_def user_pipe_def MAX_CONN_def O_RDONLY_def O_WRONLY_def)
qed

theorem departed_sender_pipe_inherited_witness:
  "\<exists>w1 w2. removeUser No_SHM 4 (set_user 2 (set_user_pipe 1 \<lparr>fd_in = 7, fd_out = 8\<rparr> (sample_user 5 ''bob'')) two_users) = Inr w1 \<and>
     addUser No_SHM ''9.9.9.9'' 40000 4 (-1) w1 = Inr w2 \<and>
     handleUserPipe No_SHM 2 1 O_RDONLY True True w2 = Inr (True, True, w2)"
proof -
  let ?w = "set_user 2 (set_user_pipe 1 \<lparr>fd_in = 7, fd_out = 8\<rparr> (sample_user 5 ''bob'')) two_users"
  have "same_users two_users ?w"
    by (rule same_users_set [OF same_users_refl, of two_users 2 "sample_user 5 ''bob''"
          "set_user_pipe 1 \<lparr>fd_in = 7, fd_out = 8\<rparr> (sample_user 5 ''bob'')"]) simp_all
  then have "tables_ok ?w" by (rule tables_ok_same [OF two_users_tables])
  moreover have "sm_find (sockID_table ?w) 4 = Some 1"
    and "sm_find (users ?w) 2 = Some (set_user_pipe 1 \<lparr>fd_in = 7, fd_out = 8\<rparr> (sample_user 5 ''bob''))"
    by simp_all
  moreover have "\<forall>j. 1 \<le> j \<and> j < 1 \<longrightarrow> live j ?w" by auto
  moreover have "2 \<noteq> (1 :: int)" "(1 :: int) \<le> 30"
    "\<not> pipe_empty (userPipes (set_user_pipe 1 \<lparr>fd_in = 7, fd_out = 8\<rparr> (sample_user 5 ''bob'')) 1)"
    by (simp_all add: pipe_empty_def)
  ultimately show ?thesis
    using departed_sender_pipe_inherited [of ?w 4 1 2 _ "''9.9.9.9''" 40000 4 "-1"] by blast
qed

subsection \<open>Names and messages\<close>

text \<open>\<open>name\<close> keeps the names of all named users distinct.\<close>

theorem Name_keeps_names_distinct:
  assumes "names_distinct w" and "all_connected w" and "live self w" and "nul \<notin> set nm"
    and "Name No_SHM self nm w = Inr w'"
  shows "names_distinct w'"
proof -
  obtain u where u: "sm_find (users w) self = Some u" using assms(3) by (auto simp: live_def)
  note eq = Name_eq [OF assms(2) u assms(4)]
  show ?thesis
  proof (cases "\<exists>i v. sm_find (users w) i = Some v \<and> name v = nm")
    case True
    then show ?thesis using assms(1,5) eq by (auto simp: names_distinct_def)
  next
    case False
    then have "users w' = sm_put self (u\<lparr>name := nm\<rparr>) (users w)"
      using assms(5) eq by (auto simp: broadcast_eq split: if_splits)
    then show ?thesis
      using assms(1) False by (auto simp: names_distinct_def)
  qed
qed

theorem Name_keeps_names_distinct_witness:
  "\<exists>w'. Name No_SHM 1 ''eve'' two_users = Inr w' \<and> names_distinct w'"
proof -
  have hyps: "names_distinct two_users" "all_connected two_users" "live 1 two_users" "nul \<notin> set ''eve''"
    by (auto simp: names_distinct_def all_connected_def live_def nul_def split: if_splits)
  have "\<exists>w'. Name No_SHM 1 ''eve'' two_users = Inr w'"
    using Name_eq [OF hyps(2) _ hyps(4), of 1 "sample_user 4 ''ann''"] by (simp add: broadcast_eq)
  then show ?thesis using Name_keeps_names_distinct [OF hyps] by blast
qed

text \<open>The name is compared whole but stored up to its first zero byte, so a name with a zero byte gives a
  client the name of somebody else.\<close>

theorem zero_byte_repeats_name:
  "\<exists>w'. Name No_SHM 2 (''ann'' @ [nul]) two_users = Inr w' \<and>
     map_option name (sm_find (users w') 1) = Some ''ann'' \<and> map_option name (sm_find (users w') 2) = Some ''ann''"
  by (auto simp: Name_def user_at_def sample_users_def strcpy_into_def c_str_def nul_def MAX_USER_NAME_LEN_def broadcast_eq)

text \<open>A new name of 20 bytes or more overflows the user's 20-byte name field, because \<open>strcpy\<close>
  copies it whole; shorter names that nobody has are stored and announced to everyone.\<close>

theorem Name_bounds:
  assumes "all_connected w" and "sm_find (users w) self = Some u" and "nul \<notin> set nm"
    and "\<forall>i v. sm_find (users w) i = Some v \<longrightarrow> name v \<noteq> nm"
  shows "(20 \<le> length nm \<longrightarrow> Name No_SHM self nm w = Inl Buffer_Overflow) \<and>
     (length nm < 20 \<longrightarrow> (\<exists>w'. Name No_SHM self nm w = Inr w' \<and>
        sm_find (users w') self = Some (u\<lparr>name := nm\<rparr>) \<and>
        trace w' = trace w @ map (\<lambda>e. Send (sock (snd e)) (NAME_MSG (ip u) (port u) nm)) (users w')))"
  using Name_eq [OF assms(1-3)] assms(4) by (auto simp: broadcast_eq)

theorem Name_bounds_witness:
  "Name No_SHM 1 ''a-name-with-20-bytes'' two_users = Inl Buffer_Overflow"
  using Name_bounds [of two_users 1 "sample_user 4 ''ann''" "''a-name-with-20-bytes''"]
  by (simp add: all_connected_def nul_def)

text \<open>\<open>tell\<close> sends exactly one message, to the addressed user only, or, when there is no such user,
  prints the error to the sender and sends nothing.\<close>

theorem Tell_delivery:
  assumes "sm_find (users w) self = Some me"
  shows "Tell No_SHM self uid msg w =
     Inr (case sm_find (users w) uid of
            None \<Rightarrow> cout (no_user_msg uid) w
          | Some u \<Rightarrow> emit (Send (sock u) (TELL_MSG (name me) msg)) w)"
  using assms by (simp add: Tell_def user_at_def sendRawMessage_def split: option.split)

theorem Tell_delivery_witness:
  "Tell No_SHM 1 2 ''hi'' two_users = Inr (emit (Send 5 (TELL_MSG ''ann'' ''hi'')) two_users)"
  using Tell_delivery [of two_users 1 "sample_user 4 ''ann''" 2 "''hi''"] by simp

text \<open>\<open>yell\<close> sends the message to every user exactly once, in the order of their ids, the sender
  included, and does nothing else.\<close>

theorem Yell_delivery:
  assumes "sm_find (users w) self = Some me"
  shows "Yell No_SHM self msg w =
     Inr (w\<lparr>trace := trace w @ map (\<lambda>e. Send (sock (snd e)) (YELL_MSG (name me) msg)) (users w)\<rparr>)"
  using assms broadcast_eq [of "YELL_MSG (name me) msg" w]
  by (simp add: Yell_def user_at_def broadcastMessage_def Let_def)

theorem Yell_delivery_witness:
  "\<exists>w'. Yell No_SHM 2 ''hey'' two_users = Inr w' \<and>
     trace w' = [Send 4 (YELL_MSG ''bob'' ''hey''), Send 5 (YELL_MSG ''bob'' ''hey'')]"
  using Yell_delivery [of two_users 2 "sample_user 5 ''bob''" "''hey''"] by (simp add: sample_users_def)

text \<open>\<open>tell\<close> without a user id reads an uninitialised variable.\<close>

theorem tell_without_id_uninitialised:
  assumes "\<forall>c \<in> set rest. isspace c"
  shows "parse_loop cfg self (st\<lparr>iss := istringstream (''tell'' @ rest)\<rparr>) = Inl Uninitialised"
proof -
  have "get_word (istringstream (''tell'' @ rest)) = (Some ''tell'', \<lparr>unread = rest, failed = False\<rparr>)"
    unfolding istringstream_def
    by (rule get_word_prefix) (use assms in \<open>cases rest; auto simp: is_word_def isspace_def code_def\<close>)+
  moreover have "dropWhile isspace rest = []" using assms by simp
  then have "get_int \<lparr>unread = rest, failed = False\<rparr> = (None, at_end)" by (simp add: get_int_def)
  ultimately show ?thesis
    by (subst parse_loop.simps) (simp add: parse_token_def parse_tell_def)
qed

theorem tell_without_id_uninitialised_witness:
  "\<exists>st. parse_loop No_SHM 1 (st\<lparr>iss := istringstream ''tell  ''\<rparr>) = Inl Uninitialised"
proof -
  have "\<forall>c \<in> set ''  ''. isspace c" by code_simp
  from tell_without_id_uninitialised [OF this] show ?thesis by simp
qed

subsection \<open>User pipes\<close>

text \<open>C19. After \<open>s\<close> has written to \<open>r\<close>, the reader's next read from \<open>s\<close> gets the read end of the very
  pipe whose write end the writer got, and the slot is free again afterwards.\<close>

theorem user_pipe_roundtrip:
  assumes "live s w" and "sm_find (users w) r = Some u" and "userPipes u s = Pipe"
    and "1 \<le> s" and "s \<le> 30" and "r \<le> 31" and "4 \<le> card (room_of (kern w))"
  shows "\<exists>f w1 g w2.
     writeUserPipe No_SHM s r cmd rd w = Inr (pipe_set (-1) f, w1) \<and>
     fds (kern w1) f = Some (PipeW (next_pipe (kern w)), False) \<and>
     readUserPipe No_SHM r s cmd' wr w1 = Inr (pipe_set g (-1), w2) \<and>
     fds (kern w2) g = Some (PipeR (next_pipe (kern w)), False) \<and>
     pipe_from s r w2 = Some Pipe"
proof -
  let ?q = "next_pipe (kern w)"
  have "3 \<le> card (room_of (kern w))" using assms(7) by simp
  then obtain f w1 p where 1: "writeUserPipe No_SHM s r cmd rd w = Inr (pipe_set (-1) f, w1)"
      "users w1 = sm_put r (set_user_pipe s p u) (users w)"
      "fd_in p \<in> room_of (kern w)" "fd_out p \<in> room_of (kern w)" "fd_in p \<noteq> fd_out p"
      "f \<in> room_of (kern w)" "f \<noteq> fd_in p" "f \<noteq> fd_out p"
      "fds (kern w1) = (fds (kern w))(fd_in p \<mapsto> (PipeR ?q, True), fd_out p \<mapsto> (PipeW ?q, True),
         f \<mapsto> (PipeW ?q, False))"
      "room_of (kern w1) = room_of (kern w) - {fd_in p, fd_out p, f}"
    by (rule write_fresh [OF assms(1-6)])
  have "card (room_of (kern w)) - card {fd_in p, fd_out p, f} \<le> card (room_of (kern w1))"
    unfolding 1(10) by (rule diff_card_le_card_Diff) simp
  then have room: "1 \<le> card (room_of (kern w1))" using 1(5,7,8) assms(7) by simp
  have live1: "live s w1" using assms(1) by (auto simp: live_def 1(2))
  have found: "sm_find (users w1) r = Some (set_user_pipe s p u)" "userPipes (set_user_pipe s p u) s = p"
    by (simp_all add: 1(2))
  have nn: "\<not> pipe_empty p" "0 \<le> s" "fd_in p \<noteq> -1" "fd_out p \<noteq> -1"
      "fd_in p \<notin> room_of (kern w1)" "fd_out p \<notin> room_of (kern w1)"
    using 1(3,4,10) assms(4) by (auto simp: pipe_empty_def room_of_def)
  have src: "fds (kern w1) (fd_in p) = Some (PipeR ?q, True)" using 1(5,7) by (simp add: 1(9))
  obtain g w2 where 2: "readUserPipe No_SHM r s cmd' wr w1 = Inr (pipe_set g (-1), w2)"
      "users w2 = sm_put r (set_user_pipe s Pipe (set_user_pipe s p u)) (users w1)" "g \<in> room_of (kern w1)"
      "fds (kern w2) = ((fds (kern w1))(g \<mapsto> (PipeR ?q, False)))(fd_in p := None, fd_out p := None)"
    by (rule read_present [OF live1 found nn(1,2) assms(5) src nn(3,4) room nn(5,6)])
  have "fds (kern w2) g = Some (PipeR ?q, False)" using 2(3) nn(5,6) by (auto simp: 2(4))
  moreover have "pipe_from s r w2 = Some Pipe" by (simp add: pipe_from_def 2(2))
  moreover have "fds (kern w1) f = Some (PipeW ?q, False)" by (simp add: 1(9))
  ultimately show ?thesis using 1(1) 2(1) by blast
qed

theorem user_pipe_roundtrip_witness:
  "\<exists>f w1 g w2. writeUserPipe No_SHM 1 2 ''ls >2'' 0 two_users = Inr (pipe_set (-1) f, w1) \<and>
     readUserPipe No_SHM 2 1 ''cat <1'' 0 w1 = Inr (pipe_set g (-1), w2) \<and>
     fds (kern w2) g = Some (PipeR 0, False)"
  using user_pipe_roundtrip [of 1 two_users 2 "sample_user 5 ''bob''" "''ls >2''" 0 "''cat <1''" 0] two_users_room
  by (simp add: live_def) blast

text \<open>A second write to a pipe that was not read yet is refused: the writer is told that the pipe
  exists and its output goes to \<open>/dev/null\<close>; no user record changes.\<close>

theorem second_write_refused:
  assumes "live s w" and "sm_find (users w) r = Some u" and "\<not> pipe_empty (userPipes u s)"
    and "0 \<le> s" and "s \<le> 30" and "r \<le> 31" and "room_of (kern w) \<noteq> {}"
  shows "\<exists>f w'. writeUserPipe No_SHM s r cmd rd w = Inr (pipe_set (-1) f, w') \<and>
     fds (kern w') f = Some (DevNull, False) \<and> users w' = users w \<and>
     trace w' = trace w @ [Cout (obj_at (kern w) 1) (pipe_exists_msg s r)]"
proof -
  obtain f k where k: "k_open DevNull False (kern w) = (f, k)" "f \<in> room_of (kern w)"
    using fdt.alloc_some [OF assms(7), of "(DevNull, False)"] by auto
  then have "f \<noteq> -1" by (auto simp: room_of_def)
  then have "fds k f = Some (DevNull, False)"
    using fdt.alloc_opn [of "(DevNull, False)" "kern w" f k] k(1) by simp
  then show ?thesis
    using assms(2-6) k(1)
    by (intro exI [of _ f]) (simp add: writeUserPipe_def handleUserPipe_def user_at_def user_pipe_def
        MAX_CONN_def handleUserPipeError_def O_WRONLY_def O_RDONLY_def)
qed

theorem second_write_refused_witness:
  "\<exists>f w'. writeUserPipe No_SHM 1 2 ''ls >2'' 0
      (set_user 2 (set_user_pipe 1 \<lparr>fd_in = 7, fd_out = 8\<rparr> (sample_user 5 ''bob'')) two_users) =
        Inr (pipe_set (-1) f, w') \<and> fds (kern w') f = Some (DevNull, False)"
proof -
  let ?u = "set_user_pipe 1 \<lparr>fd_in = 7, fd_out = 8\<rparr> (sample_user 5 ''bob'')"
  have "live 1 (set_user 2 ?u two_users)" by (simp add: live_def)
  moreover have "room_of (kern (set_user 2 ?u two_users)) \<noteq> {}" using two_users_room by auto
  ultimately show ?thesis
    using second_write_refused [of 1 "set_user 2 ?u two_users" 2 ?u "''ls >2''" 0]
    by (simp add: pipe_empty_def) blast
qed

text \<open>The 31st client of the server without shared memory can never send to a user pipe: \<open>userPipes\<close>
  has \<open>MAX_CONN\<close> entries, so its id indexes past the end.\<close>

theorem user_31_out_of_bounds:
  assumes "sm_find (users w) r = Some u" and "r \<le> 31" and "31 \<le> s"
  shows "writeUserPipe No_SHM s r cmd rd w = Inl Out_Of_Bounds"
  using assms by (simp add: writeUserPipe_def handleUserPipe_def user_at_def user_pipe_def MAX_CONN_def)

theorem user_31_out_of_bounds_witness: "writeUserPipe No_SHM 31 2 ''ls >2'' 0 two_users = Inl Out_Of_Bounds"
  using user_31_out_of_bounds [of two_users 2 "sample_user 5 ''bob''" 31] by simp

subsection \<open>Standard input is shared\<close>

text \<open>A client that closes its connection without \<open>exit\<close> is not removed: its turn reports that it
  is still there, but the end of file has put \<open>std::cin\<close> into its failed state.\<close>

theorem disconnect_kills_cin:
  assumes "serving fd i w" and "sm_find (users w) i = Some u" and "running (shell u)"
    and "cin_good w" and "stdin_buf w = []" and "fds (kern w) fd = Some (Socket n, c)"
    and "3 \<le> fd" and "1 \<le> nofile (kern w)" and "incoming w (Socket n) = [] # chunks"
  shows "\<exists>w'. runShellLoop fd w = Inr (True, w') \<and> \<not> cin_good w' \<and> live i w'"
proof -
  let ?k = "k_dup2 fd 2 (k_dup2 fd 1 (k_dup2 fd 0 (kern w)))"
  let ?w1 = "w\<lparr>kern := ?k\<rparr>"
  obtain path w2 where env: "getServingUserEnv i ''PATH'' ?w1 = (path, w2)" by force
  let ?w3 = "k_setenv ''PATH'' (c_str path) w2"
  have f3: "users ?w3 = users w" "sockID_table ?w3 = sockID_table w" "kern ?w3 = ?k"
      "cin_good ?w3 = cin_good w" "stdin_buf ?w3 = stdin_buf w" "incoming ?w3 = incoming w"
    using env by (auto simp: getServingUserEnv_def k_setenv_def Let_def split: prod.splits)
  have "fds ?k 0 = Some (Socket n, False)"
    using assms(6-8) by (auto simp: k_dup2_def)
  then have "obj_at (kern ?w3) 0 = Some (Socket n)" by (simp add: obj_at_def f3)
  then have line: "getline_cin ?w3 = Inr ([], ?w3\<lparr>cin_good := False, stdin_buf := [],
      incoming := (incoming ?w3)(Socket n := chunks)\<rparr>)"
    using assms(4,5,9) by (simp add: getline_cin_def f3 fill_line.simps)
  let ?w4 = "?w3\<lparr>cin_good := False, stdin_buf := [], incoming := (incoming ?w3)(Socket n := chunks)\<rparr>"
  have s3: "serving fd i ?w3" and s4: "serving fd i ?w4"
    using assms(1) by (simp_all add: serving_def live_def f3)
  have "parseCommand No_SHM [] ((shell u)\<lparr>shell_fd := fd\<rparr>) ?w4 = Inr ([], (shell u)\<lparr>shell_fd := fd\<rparr>, ?w4)"
    by (simp add: parseCommand_def serving_id [OF s4] parse_loop.simps istringstream_def NpCommandLine_def)
  then have "runShell No_SHM fd (shell u) ?w3 = Inr ((shell u)\<lparr>shell_fd := fd\<rparr>, ?w4)"
    using assms(7) by (simp add: runShell_def serving_id [OF s3] line)
  then show ?thesis
    using assms(2,3) by (simp add: runShellLoop_def serving_id [OF assms(1)] env Let_def user_at_def f3
        sendRawMessage_def live_def)
qed

theorem disconnect_kills_cin_witness:
  "\<exists>w'. runShellLoop 4 (two_users\<lparr>kern := (sample_kernel 64)\<lparr>fds := sample_table(4 \<mapsto> (Socket 9, False))\<rparr>,
      incoming := (\<lambda>_. [[]])\<rparr>) = Inr (True, w') \<and> \<not> cin_good w' \<and> live 1 w'"
  by (rule disconnect_kills_cin [of 4 1 _ "sample_user 4 ''ann''" 9 False "[]"])
    (simp_all add: serving_def live_def sample_user_def UserInfo_def CmdHandler_def)



text \<open>What one client typed ahead is served to the next one: a line that is already in the buffer of
  \<open>std::cin\<close> is returned whatever descriptor 0 refers to, without any read.\<close>

theorem buffered_line_served_to_anyone:
  assumes "cin_good w" and "newline \<notin> set l"
  shows "getline_cin (w\<lparr>stdin_buf := l @ newline # rest, kern := k\<rparr>) =
     Inr (l, w\<lparr>stdin_buf := rest, kern := k\<rparr>)"
proof -
  have "takeWhile (\<lambda>c. c \<noteq> newline) (l @ newline # rest) = l"
      "dropWhile (\<lambda>c. c \<noteq> newline) (l @ newline # rest) = newline # rest"
    using assms(2) by (auto intro!: takeWhile_append_stop dropWhile_append_stop)
  then show ?thesis
    using assms(1) by (simp add: getline_cin_def fill_line.simps split: option.split)
qed

theorem buffered_line_served_to_anyone_witness:
  "getline_cin (two_users\<lparr>stdin_buf := ''yell ann'' @ newline # [],
      kern := (sample_kernel 64)\<lparr>fds := sample_table(0 \<mapsto> (Socket 5, False))\<rparr>\<rparr>) =
   Inr (''yell ann'', two_users\<lparr>stdin_buf := [], kern := (sample_kernel 64)\<lparr>fds := sample_table(0 \<mapsto> (Socket 5, False))\<rparr>\<rparr>)"
  by (rule buffered_line_served_to_anyone) (simp_all add: newline_def)

end
