(* ===== verification/World_Frame.thy ===== *)
theory World_Frame
  imports Shell_Run
begin

text \<open>
  What the chat operations and the shell may change of the users, in both configurations, proved once for
  any relation between worlds that allows it: a locale whose client is the shell and whose providers are
  the relations of the theories that import this one.  \<open>returns r Q\<close> says that \<open>Q\<close> holds of the value of
  \<open>r\<close> if it has one.
\<close>

definition returns :: "'a result \<Rightarrow> ('a \<Rightarrow> bool) \<Rightarrow> bool" where
  "returns r Q \<longleftrightarrow> (\<forall>x. r = Inr x \<longrightarrow> Q x)"

lemma returns_simps [simp]: "returns (Inr x) Q \<longleftrightarrow> Q x" "returns (Inl e) Q"
  by (simp_all add: returns_def)

lemma returnsD: "returns r Q \<Longrightarrow> r = Inr x \<Longrightarrow> Q x"
  by (simp add: returns_def)

lemma returns_rbind: "returns r R \<Longrightarrow> (\<And>x. R x \<Longrightarrow> returns (f x) Q) \<Longrightarrow> returns (rbind r f) Q"
  by (cases r) auto

lemma returns_any: "(\<And>x. r = Inr x \<Longrightarrow> returns (f x) Q) \<Longrightarrow> returns (rbind r f) Q"
  by (cases r) auto

lemma returns_rfold:
  "P s \<Longrightarrow> (\<And>x s. x \<in> set xs \<Longrightarrow> P s \<Longrightarrow> returns (f x s) P) \<Longrightarrow> returns (rfold f xs s) P"
proof (induction xs arbitrary: s)
  case (Cons x xs)
  then show ?case by simp (rule returns_rbind [where R = P], auto)
qed simp

lemma returns_mono: "returns r Q \<Longrightarrow> (\<And>x. Q x \<Longrightarrow> R x) \<Longrightarrow> returns r R"
  by (cases r) auto

lemma returns_if: "(b \<Longrightarrow> returns x Q) \<Longrightarrow> (\<not> b \<Longrightarrow> returns y Q) \<Longrightarrow> returns (if b then x else y) Q"
  by simp

text \<open>Who occupies a slot: the flag, the process, the socket and the address of the client.\<close>

definition occupant :: "user_info \<Rightarrow> bool \<times> int \<times> int \<times> string \<times> int" where
  "occupant u = (isConnected u, pid u, sock u, ip u, port u)"

lemma occupant_pipe [simp]: "occupant (set_user_pipe i p u) = occupant u"
  by (simp add: occupant_def)

lemma serving_id_slot: "sm_find (sockID_table w) fd = Some i \<Longrightarrow> getServingUserID fd w = (i, w)"
  by (simp add: getServingUserID_def sm_index_hit)

text \<open>
  The relations: they ignore everything but the users and the tables, they are transitive, and they allow
  to change a user's record except for the occupant, the name and, unless it is the one being served, the
  shell, and to give one user, the one being served, a name that the scan did not find.
\<close>

locale world_frame =
  fixes R :: "config \<Rightarrow> world \<Rightarrow> world \<Rightarrow> bool" and served :: int
  assumes frame: "users w' = users w \<Longrightarrow> sockID_table w' = sockID_table w \<Longrightarrow> cur_uid w' = cur_uid w \<Longrightarrow> R cfg w w'"
    and trans: "R cfg w w1 \<Longrightarrow> R cfg w1 w2 \<Longrightarrow> R cfg w w2"
    and put: "sm_find (users w) i = Some v \<Longrightarrow> occupant u = occupant v \<Longrightarrow> name u = name v \<Longrightarrow>
      i = served \<or> shell u = shell v \<Longrightarrow> R cfg w (set_user i u w)"
    and rename: "name_taken w nm (case cfg of SHM \<Rightarrow> slots | No_SHM \<Rightarrow> map fst (users w)) = Inr False \<Longrightarrow>
      sm_find (users w) served = Some u \<Longrightarrow> strcpy_into MAX_USER_NAME_LEN nm = Inr n \<Longrightarrow>
      R cfg w (set_user served (u\<lparr>name := n\<rparr>) w)"
begin

lemma refl [simp, intro]: "R cfg w w"
  by (rule frame) simp_all

lemma same_right:
  assumes "users w'' = users w'" "sockID_table w'' = sockID_table w'" "cur_uid w'' = cur_uid w'"
  shows "R cfg w w'' = R cfg w w'"
proof -
  have "R cfg w' w''" "R cfg w'' w'" using assms by (simp_all add: frame)
  then show ?thesis using trans by blast
qed

lemma frame_eq [simp]:
  "R cfg w (w'\<lparr>kern := k\<rparr>) = R cfg w w'" "R cfg w (emit e w') = R cfg w w'" "R cfg w (cout s w') = R cfg w w'"
  "R cfg w (k_setenv n v w') = R cfg w w'" "R cfg w (w'\<lparr>incoming := inp\<rparr>) = R cfg w w'"
  by (rule same_right; simp add: k_setenv_def)+

lemma left_kern [simp]: "R cfg (w\<lparr>kern := k\<rparr>) w' = R cfg w w'"
proof -
  have "R cfg w (w\<lparr>kern := k\<rparr>)" "R cfg (w\<lparr>kern := k\<rparr>) w" by (simp_all add: frame)
  then show ?thesis using trans by blast
qed

lemma put_after:
  assumes "R cfg w w'" and "sm_find (users w') i = Some v" and "occupant u = occupant v" and "name u = name v"
    and "i = served \<or> shell u = shell v"
  shows "R cfg w (set_user i u w')"
  using trans [OF assms(1) put [OF assms(2-5)]] .

lemma chain: "R cfg w w1 \<Longrightarrow> returns r (R cfg w1) \<Longrightarrow> returns r (R cfg w)"
  by (cases r) (auto intro: trans)

subsection \<open>The chat\<close>

lemma send_frame: "returns (sendRawMessage cfg i msg w) (R cfg w)"
  by (auto simp: sendRawMessage_def user_at_Inr occupant_def intro!: returns_any put_after split: config.split)

lemma rfold_frame:
  assumes "\<And>x w. x \<in> set xs \<Longrightarrow> returns (f x w) (R cfg w)"
  shows "returns (rfold f xs w) (R cfg w)"
  by (rule returns_rfold) (auto intro: chain assms)

lemma broadcast_frame: "returns (broadcastMessage cfg msg w) (R cfg w)"
  by (auto simp: broadcastMessage_def intro!: rfold_frame returns_any send_frame split: config.split)

lemma broadcast_after: "R cfg w w' \<Longrightarrow> returns (broadcastMessage cfg msg w') (R cfg w)"
  by (rule chain [OF _ broadcast_frame])

lemma Who_frame: "returns (Who cfg self w) (R cfg w)"
  unfolding Who_def Let_def
  by (cases cfg) (auto intro!: chain [OF _ rfold_frame] returns_any)

lemma Yell_frame: "returns (Yell cfg self msg w) (R cfg w)"
  unfolding Yell_def Let_def
  by (cases cfg) (auto intro!: rfold_frame returns_any send_frame)

lemma Tell_frame: "returns (Tell cfg self uid msg w) (R cfg w)"
  unfolding Tell_def
  by (cases cfg) (auto intro!: returns_any send_frame)

lemma Name_frame: "returns (Name cfg served nm w) (R cfg w)"
  unfolding Name_def
  by (auto simp: user_at_Inr intro!: returns_any broadcast_after rename)

lemma Kill_frame: "returns (Kill w) (R cfg w)"
  by (auto simp: Kill_def user_at_Inr occupant_def intro!: returns_any put_after)

subsection \<open>User pipes\<close>

lemma put_pipe:
  "R cfg w w' \<Longrightarrow> sm_find (users w') i = Some u \<Longrightarrow> R cfg w (set_user i (set_user_pipe j p u) w')"
  by (rule put_after) auto

lemma handleUserPipe_frame: "returns (handleUserPipe cfg self uid mode ue pe w) (\<lambda>(a, b, w'). R cfg w w')"
  unfolding handleUserPipe_def
  by (auto simp: user_at_Inr intro!: returns_any put_pipe split: config.split prod.split)

lemma handleUserPipeError_frame: "handleUserPipeError self uid mode problem w = (f, w') \<Longrightarrow> R cfg w w'"
  by (auto simp: handleUserPipeError_def Let_def split: prod.splits UserPipeErr.splits if_splits)

lemma readFIFO_frame: "returns (readFIFO_writePipe fd w) (R cfg w)"
  by (auto simp: readFIFO_writePipe_def Let_def intro!: returns_any split: option.split prod.split)

lemma handleUserPipeError_snd: "R cfg w (snd (handleUserPipeError self uid mode problem w))"
  using handleUserPipeError_frame [of self uid mode problem w] by (simp add: prod_eq_iff)

lemma handleUserPipe_Inr: "handleUserPipe cfg self uid mode ue pe w = Inr x \<Longrightarrow> R cfg w (snd (snd x))"
  by (drule returnsD [OF handleUserPipe_frame]) (simp add: split_beta)

lemma writeUserPipe_Inr: "writeUserPipe cfg self uid cmd rd w = Inr x \<Longrightarrow> R cfg w (snd x)"
  by (cases cfg)
    (auto simp: writeUserPipe_def rbind_eq_Inr_iff user_at_Inr split_beta split: if_splits
      dest!: handleUserPipe_Inr returnsD [OF broadcast_frame] returnsD [OF readFIFO_frame [where cfg = cfg]]
      intro: trans trans [OF _ handleUserPipeError_snd] trans [OF put_pipe])

lemma readUserPipe_Inr: "readUserPipe cfg self uid cmd wr w = Inr x \<Longrightarrow> R cfg w (snd x)"
  by (cases cfg)
    (auto simp: readUserPipe_def rbind_eq_Inr_iff user_at_Inr Let_def split_beta split: if_splits
      dest!: handleUserPipe_Inr returnsD [OF broadcast_frame] returnsD [OF readFIFO_frame [where cfg = cfg]] intro: trans [OF _ handleUserPipeError_snd],
     (meson trans put_pipe)+)

subsection \<open>The shell\<close>

lemma parse_chat_frame:
  "returns (parse_tell cfg served st) (\<lambda>st'. R cfg (wd st) (wd st'))"
  "returns (parse_yell cfg served st) (\<lambda>st'. R cfg (wd st) (wd st'))"
  "returns (parse_name cfg served st) (\<lambda>st'. R cfg (wd st) (wd st'))"
  "returns (rbind (Who cfg served (wd st)) (\<lambda>w. Inr (st\<lparr>wd := w\<rparr>))) (\<lambda>st'. R cfg (wd st) (wd st'))"
  by (auto simp: parse_tell_def parse_yell_def parse_name_def split: prod.split option.split
      intro!: returns_rbind [OF Tell_frame] returns_rbind [OF Yell_frame] returns_rbind [OF Name_frame]
        returns_rbind [OF Who_frame])

lemma env_frame:
  "R cfg w (snd (getServingUserEnv self n w))" "R cfg w (setServingUserEnv self n v w)"
  by (auto simp: getServingUserEnv_def setServingUserEnv_def Let_def split: prod.split intro: frame)

lemma parse_builtin_frame:
  "R cfg (wd st) (wd (parse_exit st))" "R cfg (wd st) (wd (parse_printenv self st))"
  "R cfg (wd st) (wd (parse_setenv self st))" "R cfg (wd st) (wd (parse_redirect st))"
  "R cfg (wd st) (wd (parse_numbered tok st))" "R cfg (wd st) (wd (parse_write_user tok st))"
  "R cfg (wd st) (wd (parse_read_user tok st))"
  by (simp_all add: parse_exit_def parse_printenv_def parse_setenv_def parse_redirect_def parse_numbered_def
      parse_write_user_def parse_read_user_def Let_def split_beta env_frame)

lemma parse_token_frame: "returns (parse_token cfg served tok st) (\<lambda>st'. R cfg (wd st) (wd st'))"
  unfolding parse_token_def
  by (intro returns_if parse_chat_frame) (simp_all add: parse_builtin_frame)

lemma parse_loop_self: "self = served \<Longrightarrow> returns (parse_loop cfg self st) (\<lambda>st'. R cfg (wd st) (wd st'))"
proof (induction cfg self st rule: parse_loop.induct)
  case (1 cfg self st)
  have self: "self = served" by (rule 1(2))
  show ?case
  proof (cases "get_word (iss st)")
    case (Pair t s)
    show ?thesis
    proof (cases t)
      case None
      then show ?thesis using Pair by (subst parse_loop.simps) simp
    next
      case (Some tok)
      have "returns (rbind (parse_token cfg served tok (st\<lparr>iss := s\<rparr>)) (parse_loop cfg served))
          (\<lambda>st'. R cfg (wd st) (wd st'))"
      proof (rule returns_any)
        fix st1
        assume st1: "parse_token cfg served tok (st\<lparr>iss := s\<rparr>) = Inr st1"
        then have "R cfg (wd st) (wd st1)" using returnsD [OF parse_token_frame] by fastforce
        moreover have "returns (parse_loop cfg served st1) (\<lambda>st'. R cfg (wd st1) (wd st'))"
          using 1(1) [of t s tok st1] Pair Some st1 self by simp
        ultimately show "returns (parse_loop cfg served st1) (\<lambda>st'. R cfg (wd st) (wd st'))"
          by (auto elim!: returns_mono intro: trans)
      qed
      then show ?thesis using Pair Some self by (subst parse_loop.simps) simp
    qed
  qed
qed

lemmas parse_loop_frame = parse_loop_self [OF HOL.refl]

lemma connect_next_Inr: "connect_next cfg self line rd wr nxt h w = Inr x \<Longrightarrow> R cfg w (snd (snd x))"
  by (auto simp: connect_next_def rbind_eq_Inr_iff split_beta split: if_splits dest!: writeUserPipe_Inr)

lemma spawn_frame: "R cfg w (snd (spawn e args h w))"
  by (auto simp: spawn_def Let_def split_beta)

lemma run_commands_Inr: "run_commands cfg self line rd wr cs h w = Inr x \<Longrightarrow> R cfg w (snd x)"
proof (induction cs arbitrary: h w)
  case (Cons c rest)
  show ?case
  proof (cases c)
    case (ExeCommand args)
    let ?w1 = "w\<lparr>kern := snd (closePipe (prevPipe h) (kern w))\<rparr>"
    obtain y where y: "(case rest of [] \<Rightarrow> Inr (False, h\<lparr>prevPipe := currPipe h\<rparr>, ?w1)
          | nxt # _ \<Rightarrow> connect_next cfg self line rd wr nxt (h\<lparr>prevPipe := currPipe h\<rparr>) ?w1) = Inr y"
        "run_commands cfg self line rd wr rest (fst (spawn (fst y) args (fst (snd y)) (snd (snd y))))
           (snd (spawn (fst y) args (fst (snd y)) (snd (snd y)))) = Inr x"
      using Cons.prems ExeCommand by (auto simp: Let_def rbind_eq_Inr_iff split_beta)
    have "R cfg w (snd (snd y))"
      using y(1) by (cases rest) (auto dest!: connect_next_Inr)
    then show ?thesis
      using Cons.IH [OF y(2)] spawn_frame trans by blast
  qed (use Cons in auto)
qed auto

lemma finish_line_Inr: "finish_line cmds h w = Inr x \<Longrightarrow> R cfg w (snd x)"
  by (auto simp: finish_line_def Let_def split_beta split: if_splits)

lemma run_line_Inr: "run_line cfg self line l h w = Inr x \<Longrightarrow> R cfg w (snd x)"
  by (auto simp: run_line_def Let_def rbind_eq_Inr_iff split_beta split: if_splits
      dest!: readUserPipe_Inr run_commands_Inr finish_line_Inr [where cfg = cfg])
    (meson trans)+

lemma run_lines_Inr: "run_lines cfg self line ls h w = Inr x \<Longrightarrow> R cfg w (snd x)"
proof (induction ls arbitrary: h w)
  case (Cons l ls)
  then obtain y where "run_line cfg self line l h w = Inr y" "run_lines cfg self line ls (fst y) (snd y) = Inr x"
    by (auto simp: rbind_eq_Inr_iff split_beta)
  then show ?case using run_line_Inr Cons.IH trans by blast
qed auto

lemma getline_Inr: "getline_cin w = Inr x \<Longrightarrow> R cfg w (snd x)"
  using getline_cin_frame [of w "fst x" "snd x"] by (simp add: frame)

lemma runShell_frame:
  assumes "sm_find (sockID_table w) fd = Some served" and "runShell cfg fd h w = Inr x"
  shows "R cfg w (snd x)"
proof -
  obtain y z u where y: "getline_cin w = Inr y"
      "parseCommand cfg (fst y) (h\<lparr>shell_fd := fd\<rparr>) (snd y) = Inr z"
      and u: "run_lines cfg served (fst y) (fst z) (fst (snd z)) (snd (snd z)) = Inr u" "R cfg (snd u) (snd x)"
    using assms by (auto simp: runShell_def serving_id_slot rbind_eq_Inr_iff split_beta split: if_splits)
  have k1: "R cfg w (snd y)" by (rule getline_Inr [OF y(1)])
  have "sockID_table (snd y) = sockID_table w" using getline_cin_frame [of w "fst y" "snd y"] y(1) by simp
  then have "sm_find (sockID_table (snd y)) fd = Some served" using assms(1) by simp
  then have "R cfg (snd y) (snd (snd z))"
    using y(2) by (auto simp: parseCommand_def serving_id_slot rbind_eq_Inr_iff Let_def dest!: returnsD [OF parse_loop_frame])
  then show ?thesis using k1 run_lines_Inr [OF u(1)] u(2) by (meson trans)
qed

end

end
