(* ===== verification/Slot_Facts.thy ===== *)
theory Slot_Facts
  imports Server_Loop Server_Facts World_Frame
begin

text \<open>
  The user slots: every operation of the shell keeps which slots exist and who occupies them, and the
  table and the own id of the process that runs it; the scan finds the first free slot; joining and
  leaving change exactly one slot.
\<close>

text \<open>A turn of \<open>runShellLoop\<close> is such an operation too.\<close>

context world_frame
begin

lemma runShellLoop_frame:
  assumes id: "sm_find (sockID_table w) fd = Some served" and run: "runShellLoop fd w = Inr x"
  shows "R No_SHM w (snd x)"
proof -
  let ?w1 = "w\<lparr>kern := k_dup2 fd 2 (k_dup2 fd 1 (k_dup2 fd 0 (kern w)))\<rparr>"
  let ?env = "getServingUserEnv served ''PATH'' ?w1"
  let ?w3 = "k_setenv ''PATH'' (c_str (fst ?env)) (snd ?env)"
  have "R No_SHM ?w1 (snd ?env)" by (rule env_frame)
  then have 3: "R No_SHM w ?w3" by simp
  have tab: "sockID_table ?w3 = sockID_table w"
    by (simp add: k_setenv_def getServingUserEnv_def split_beta Let_def)
  have "returns (runShellLoop fd w) (\<lambda>x. R No_SHM w (snd x))"
    unfolding runShellLoop_def serving_id_slot [OF id] Let_def split_beta fst_conv snd_conv
  proof (intro returns_any)
    fix u y v
    assume y: "runShell No_SHM fd (shell u) ?w3 = Inr y" and v: "user_at (snd y) served = Inr v"
    have "R No_SHM ?w3 (snd y)" using runShell_frame [OF _ y] id tab by simp
    moreover have "R No_SHM (snd y) (set_user served (v\<lparr>shell := fst y\<rparr>) (snd y))"
      using v by (intro put) (auto simp: occupant_def user_at_Inr)
    ultimately have 5: "R No_SHM w (set_user served (v\<lparr>shell := fst y\<rparr>) (snd y))" using 3 trans by blast
    let ?w5 = "set_user served (v\<lparr>shell := fst y\<rparr>) (snd y)"
    let ?w6 = "?w5\<lparr>kern := k_dup2 (serverErr ?w5) 2 (k_dup2 (serverOut ?w5) 1 (k_dup2 (serverIn ?w5) 0 (kern ?w5)))\<rparr>"
    show "returns (if running (fst y) then rbind (sendRawMessage No_SHM fd ''% '' ?w6) (\<lambda>w7. Inr (True, w7))
        else Inr (False, ?w6)) (\<lambda>x. R No_SHM w (snd x))"
      using 5 by (auto simp: sendRawMessage_def returns_def rbind_eq_Inr_iff split: if_splits)
  qed
  then show ?thesis using run by (rule returnsD)
qed

end

definition occupancy :: "(int, user_info) smap \<Rightarrow> int \<Rightarrow> (bool \<times> int \<times> int \<times> string \<times> int) option" where
  "occupancy us i = map_option occupant (sm_find us i)"

definition same_slots :: "world \<Rightarrow> world \<Rightarrow> bool" where
  "same_slots w w' \<longleftrightarrow> sockID_table w' = sockID_table w \<and> cur_uid w' = cur_uid w \<and>
     occupancy (users w') = occupancy (users w)"

lemma same_slots_refl [simp, intro]: "same_slots w w"
  by (simp add: same_slots_def)

lemma same_slots_trans: "same_slots w w1 \<Longrightarrow> same_slots w1 w2 \<Longrightarrow> same_slots w w2"
  by (simp add: same_slots_def)

lemma same_slots_frame [simp]:
  "same_slots w (w'\<lparr>kern := k\<rparr>) = same_slots w w'" "same_slots w (emit e w') = same_slots w w'" "same_slots w (cout s w') = same_slots w w'"
  "same_slots w (k_setenv n v w') = same_slots w w'" "same_slots w (w'\<lparr>incoming := inp\<rparr>) = same_slots w w'"
  "same_slots (w\<lparr>kern := k\<rparr>) w' = same_slots w w'"
  by (simp_all add: same_slots_def k_setenv_def)

lemma same_slots_set_user:
  assumes "same_slots w w'" and "sm_find (users w') i = Some v" and "occupant u = occupant v"
  shows "same_slots w (set_user i u w')"
proof -
  have "occupancy (sm_put i u (users w')) = occupancy (users w')"
    using assms(2,3) by (auto simp: occupancy_def fun_eq_iff)
  then show ?thesis using assms(1) by (simp add: same_slots_def)
qed

lemma same_slots_occupancy: "same_slots w w' \<Longrightarrow> occupancy (users w') = occupancy (users w)"
  by (simp add: same_slots_def)

interpretation same_slots: world_frame "\<lambda>_. same_slots" served for served
proof
  show "same_slots w w'" if "users w' = users w" "sockID_table w' = sockID_table w" "cur_uid w' = cur_uid w" for w w'
    using that by (simp add: same_slots_def)
  show "same_slots w w2" if "same_slots w w1" "same_slots w1 w2" for w w1 w2 using that by (rule same_slots_trans)
  show "same_slots w (set_user i u w)" if "sm_find (users w) i = Some v" "occupant u = occupant v" "name u = name v" for w i u v
    using that by (intro same_slots_set_user) auto
  show "same_slots w (set_user served (u\<lparr>name := n\<rparr>) w)" if "sm_find (users w) served = Some u" for w u n
    using that by (intro same_slots_set_user) (auto simp: occupant_def)
qed

subsection \<open>The scan for a free slot\<close>

definition slots_ok :: "world \<Rightarrow> bool" where
  "slots_ok w \<longleftrightarrow> (\<forall>i. live i w \<longleftrightarrow> 1 \<le> i \<and> i \<le> 30)"

lemma slots_upto: "slots = [1..30]"
  by (simp add: slots_def MAX_CONN_def)

text \<open>The scan over the slots finds the first one that is not connected.\<close>

lemma min_slot_first:
  "\<forall>j. m \<le> j \<and> j \<le> n \<longrightarrow> live j w \<Longrightarrow> m \<le> n + 1 \<Longrightarrow>
     \<exists>i. min_slot w [m..n] m = Inr i \<and> m \<le> i \<and> i \<le> n + 1 \<and>
       (\<forall>j u. m \<le> j \<longrightarrow> j < i \<longrightarrow> sm_find (users w) j = Some u \<longrightarrow> isConnected u) \<and>
       (i \<le> n \<longrightarrow> (\<exists>u. sm_find (users w) i = Some u \<and> \<not> isConnected u))"
proof (induction "nat (n + 1 - m)" arbitrary: m)
  case 0
  then show ?case by auto
next
  case (Suc k)
  then have "m \<le> n" by simp
  then obtain u where u: "sm_find (users w) m = Some u" using Suc.prems(1) by (auto simp: live_def)
  have cons: "[m..n] = m # [m + 1..n]" using \<open>m \<le> n\<close> by (simp add: upto_rec1)
  show ?case
  proof (cases "isConnected u")
    case False
    then show ?thesis using u \<open>m \<le> n\<close> by (auto simp: cons user_at_def)
  next
    case True
    have "k = nat (n + 1 - (m + 1))" "\<forall>j. m + 1 \<le> j \<and> j \<le> n \<longrightarrow> live j w" "m + 1 \<le> n + 1"
      using Suc by auto
    then obtain i where i: "min_slot w [m + 1..n] (m + 1) = Inr i" "m + 1 \<le> i" "i \<le> n + 1"
        "\<And>j v. m + 1 \<le> j \<Longrightarrow> j < i \<Longrightarrow> sm_find (users w) j = Some v \<Longrightarrow> isConnected v"
        "i \<le> n \<Longrightarrow> \<exists>v. sm_find (users w) i = Some v \<and> \<not> isConnected v"
      using Suc.hyps(1) [of "m + 1"] by blast
    have "isConnected v" if "m \<le> j" "j < i" "sm_find (users w) j = Some v" for j v
      using i(4) [of j v] that u True by (cases "j = m") auto
    then show ?thesis
      using u True i by (intro exI [of _ i]) (auto simp: cons user_at_def)
  qed
qed

lemma scan_first:
  assumes "slots_ok w"
  shows "\<exists>i. scan_id SHM w = Inr i \<and> 1 \<le> i \<and> i \<le> 31 \<and>
     (\<forall>j u. 1 \<le> j \<longrightarrow> j < i \<longrightarrow> sm_find (users w) j = Some u \<longrightarrow> isConnected u) \<and>
     (i \<le> 30 \<longrightarrow> (\<exists>u. sm_find (users w) i = Some u \<and> \<not> isConnected u))"
proof -
  have "\<forall>j. 1 \<le> j \<and> j \<le> 30 \<longrightarrow> live j w" using assms by (simp add: slots_ok_def)
  then show ?thesis
    using min_slot_first [of 1 30 w] by (auto simp: scan_id_def slots_upto)
qed

lemma slots_occupancy: "slots_ok w \<longleftrightarrow> (\<forall>i. occupancy (users w) i \<noteq> None \<longleftrightarrow> 1 \<le> i \<and> i \<le> 30)"
  by (simp add: slots_ok_def live_def occupancy_def)

subsection \<open>Joining and leaving\<close>

lemma close_user_pipes_frame:
  "occupant (fst (close_user_pipes is u k)) = occupant u" "name (fst (close_user_pipes is u k)) = name u"
  by (induction "is" u k rule: close_user_pipes.induct) (auto split: prod.split)

lemma addUser_first:
  assumes "slots_ok w" and "addUser SHM addr port' fd p w = Inr w'"
  obtains i v u where "1 \<le> i" and "i \<le> 30" and "sm_find (users w) i = Some v" and "\<not> isConnected v"
    and "\<forall>j x. 1 \<le> j \<longrightarrow> j < i \<longrightarrow> sm_find (users w) j = Some x \<longrightarrow> isConnected x"
    and "users w' = sm_put i u (users w)" and "name u = ''(no name)''"
    and "occupant u = (True, p, fd, snprintf_s IP_LEN addr, port')"
    and "sm_find (sockID_table w') fd = Some i" and "cur_uid w' = i"
proof -
  let ?w1 = "cout (''accept new connection from ip '' @ addr @ '', port '' @ to_string port' @ nl) w"
  have ok1: "slots_ok ?w1" using assms(1) by (simp add: slots_ok_def live_def)
  obtain i where i: "scan_id SHM ?w1 = Inr i" "1 \<le> i" "i \<le> 31"
     "\<forall>j x. 1 \<le> j \<longrightarrow> j < i \<longrightarrow> sm_find (users w) j = Some x \<longrightarrow> isConnected x"
     "i \<le> 30 \<longrightarrow> (\<exists>u. sm_find (users w) i = Some u \<and> \<not> isConnected u)"
    using scan_first [OF ok1] by auto
  have st: "store_user SHM addr port' fd p i ?w1 = Inr w'"
    using assms(2) i(1) by (simp add: addUser_def Let_def)
  have "i \<noteq> 31"
  proof
    assume "i = 31"
    moreover have "\<not> live 31 ?w1" using ok1 by (simp add: slots_ok_def)
    ultimately show False using st by (simp add: store_user_def Let_def user_at_def live_def)
  qed
  then obtain v where v: "sm_find (users w) i = Some v" "\<not> isConnected v" "i \<le> 30" using i by auto
  let ?u1 = "v\<lparr>ip := snprintf_s IP_LEN addr, name := snprintf_s MAX_USER_NAME_LEN ''(no name)'',
      port := port', sock := fd, isConnected := True, pid := p\<rparr>"
  have "users w' = sm_put i (fst (close_user_pipes slots ?u1 (kern w))) (users w)"
      "sm_find (sockID_table w') fd = Some i" "cur_uid w' = i"
    using st by (auto simp: store_user_def Let_def user_at_def v(1) split_beta)
  moreover have "occupant ?u1 = (True, p, fd, snprintf_s IP_LEN addr, port')" "name ?u1 = ''(no name)''"
    by (simp_all add: occupant_def no_name)
  ultimately show ?thesis
    using i(2,4) v by (intro that [of i v "fst (close_user_pipes slots ?u1 (kern w))"])
      (simp_all only: close_user_pipes_frame not_False_eq_True)
qed

lemma addUser_slot:
  assumes "slots_ok w" and "addUser SHM addr port' fd p w = Inr w'"
  obtains i where "1 \<le> i" and "i \<le> 30" and "\<And>r. occupancy (users w) i \<noteq> Some (True, r)"
    and "occupancy (users w') = (occupancy (users w))(i \<mapsto> (True, p, fd, snprintf_s IP_LEN addr, port'))"
    and "sm_find (sockID_table w') fd = Some i" and "cur_uid w' = i"
proof -
  obtain i v u where i: "1 \<le> i" "i \<le> 30" "sm_find (users w) i = Some v" "\<not> isConnected v"
      "users w' = sm_put i u (users w)" "occupant u = (True, p, fd, snprintf_s IP_LEN addr, port')"
      "sm_find (sockID_table w') fd = Some i" "cur_uid w' = i"
    by (rule addUser_first [OF assms])
  have "occupancy (users w) i \<noteq> Some (True, r)" for r
    using i(3,4) by (simp add: occupancy_def occupant_def)
  moreover have "occupancy (users w') = (occupancy (users w))(i \<mapsto> occupant u)"
    by (auto simp: i(5) occupancy_def fun_eq_iff)
  ultimately show ?thesis using i(1,2,6-8) by (intro that) auto
qed

text \<open>What is left of leaving: the own record goes, and a message to the others.\<close>

lemma removeUser_rest:
  assumes "sm_find (sockID_table w) fd = Some i" and "removeUser cfg fd w = Inr w'"
  obtains w1 msg w2 where "users w1 = (case cfg of SHM \<Rightarrow> sm_put i zero_user (users w)
        | No_SHM \<Rightarrow> sm_erase i (sm_put i zero_user (users w)))"
    and "broadcastMessage cfg msg w1 = Inr w2" and "users w' = users w2"
proof -
  have "\<exists>w1 msg w2. users w1 = (case cfg of SHM \<Rightarrow> sm_put i zero_user (users w)
        | No_SHM \<Rightarrow> sm_erase i (sm_put i zero_user (users w))) \<and>
      broadcastMessage cfg msg w1 = Inr w2 \<and> users w' = users w2"
    using assms(2)
    by (cases cfg; auto simp: removeUser_def Let_def sm_index_hit [OF assms(1)] rbind_eq_Inr_iff deleteSHMUserFifo_def)
      (intro exI conjI; simp)+
  then show ?thesis using that by blast
qed

lemma removeUser_slot:
  assumes "sm_find (sockID_table w) fd = Some i" and "removeUser SHM fd w = Inr w'"
  shows "occupancy (users w') = (occupancy (users w))(i \<mapsto> occupant zero_user)"
proof -
  obtain w1 msg w2 where w1: "users w1 = sm_put i zero_user (users w)"
      and b: "broadcastMessage SHM msg w1 = Inr w2" "users w' = users w2"
    by (rule removeUser_rest [OF assms]) simp
  have occ: "occupancy (users w1) = (occupancy (users w))(i \<mapsto> occupant zero_user)"
    by (auto simp: w1 occupancy_def fun_eq_iff)
  show ?thesis
    using same_slots_occupancy [OF returnsD [OF same_slots.broadcast_frame b(1)]] b(2) occ by simp
qed

end
