(* ===== verification/Shm_Properties.thy ===== *)
theory Shm_Properties
  imports Slot_Facts Sample_World
begin

text \<open>
  The properties of the server whose clients are separate processes with shared user slots
  (\<open>np_multi_proc\<close>): the slots, the one-message buffers, the FIFOs, and the unprotected scan for a
  free slot.
\<close>

definition shared_users :: "(int, user_info) smap" where
  "shared_users = map (\<lambda>i. (i, zero_user)) slots"

lemma shared_users_find: "sm_find shared_users i = (if 1 \<le> i \<and> i \<le> 30 then Some zero_user else None)"
proof -
  have "map_of (map (\<lambda>i. (i, z)) is) i = (if i \<in> set is then Some z else None)" for "is" and z :: user_info
    by (induction "is") auto
  then show ?thesis by (auto simp: shared_users_def sm_find_def mem_slots MAX_CONN_def)
qed

abbreviation shared_world :: world where
  "shared_world \<equiv> sample_world 64 (sm_put 1 (sample_user 4 ''ann'') shared_users) [(4, 1)] []"

lemma shared_world_slots: "slots_ok shared_world"
  by (auto simp: slots_ok_def live_def shared_users_find split: if_splits)

subsection \<open>Slots\<close>

text \<open>With shared memory a new connection gets the first slot that is not connected; when all
  thirty are taken the scan ends at 31, for which there is no slot, and the process dereferences a
  null pointer.\<close>

theorem scan_shared_slots:
  assumes "slots_ok w"
  shows "\<exists>i. scan_id SHM w = Inr i \<and> 1 \<le> i \<and> i \<le> 31 \<and>
     (\<forall>j u. 1 \<le> j \<longrightarrow> j < i \<longrightarrow> sm_find (users w) j = Some u \<longrightarrow> isConnected u) \<and>
     (i \<le> 30 \<longrightarrow> (\<exists>u. sm_find (users w) i = Some u \<and> \<not> isConnected u)) \<and>
     (i = 31 \<longrightarrow> store_user SHM addr port' fd p i w = Inl Null_Deref)"
proof -
  obtain i where i: "scan_id SHM w = Inr i" "1 \<le> i" "i \<le> 31"
     "\<forall>j u. 1 \<le> j \<longrightarrow> j < i \<longrightarrow> sm_find (users w) j = Some u \<longrightarrow> isConnected u"
     "i \<le> 30 \<longrightarrow> (\<exists>u. sm_find (users w) i = Some u \<and> \<not> isConnected u)"
    using scan_first [OF assms] by blast
  have "\<not> live 31 w" using assms by (simp add: slots_ok_def)
  then have "store_user SHM addr port' fd p 31 w = Inl Null_Deref"
    by (simp add: store_user_def Let_def user_at_def live_def)
  then show ?thesis using i by blast
qed

theorem scan_shared_slots_witness: "\<exists>i. scan_id SHM shared_world = Inr i \<and> 1 \<le> i"
  using scan_shared_slots [OF shared_world_slots] by blast

lemma close_user_pipes_sel:
  "close_user_pipes is v k = (v', k') \<Longrightarrow> sock v' = sock v \<and> pid v' = pid v \<and> port v' = port v \<and> name v' = name v"
  by (induction "is" v k rule: close_user_pipes.induct) (auto split: prod.splits)

lemma store_shared:
  assumes "sm_find (users w) i = Some u"
  shows "\<exists>w' v. store_user SHM addr port' fd p i w = Inr w' \<and> sm_find (users w') i = Some v \<and>
      sock v = fd \<and> pid v = p \<and> port v = port' \<and> sm_find (sockID_table w') fd = Some i"
proof -
  let ?u = "u\<lparr>ip := snprintf_s IP_LEN addr, name := snprintf_s MAX_USER_NAME_LEN ''(no name)'',
              port := port', sock := fd, isConnected := True, pid := p\<rparr>"
  obtain v k where v: "close_user_pipes slots ?u (kern w) = (v, k)" by force
  show ?thesis
    using close_user_pipes_sel [OF v]
    by (simp add: store_user_def Let_def user_at_def assms v)
qed

text \<open>Two processes that both scan before either stores pick the same slot, and the second store
  overwrites the first one: the slot then describes the second client, while the first process
  keeps serving its client under that id.\<close>

theorem shared_slot_race:
  assumes "slots_ok wA" and "users wB = users wA" and "scan_id SHM wA = Inr i" and "i \<le> 30"
  shows "scan_id SHM wB = Inr i \<and>
     (\<exists>wA' wB' u. store_user SHM addrA portA fdA pA i wA = Inr wA' \<and>
        store_user SHM addrB portB fdB pB i (wB\<lparr>users := users wA'\<rparr>) = Inr wB' \<and>
        sm_find (users wB') i = Some u \<and> sock u = fdB \<and> pid u = pB \<and> port u = portB \<and>
        sm_find (sockID_table wA') fdA = Some i)"
proof -
  have scan: "min_slot wB is m = min_slot wA is m" for "is" m
    by (induction "is" arbitrary: m) (simp_all add: user_at_def assms(2) split: option.split)
  have "1 \<le> i" using scan_first [OF assms(1)] assms(3) by auto
  then obtain u where u: "sm_find (users wA) i = Some u"
    using assms(1,4) by (auto simp: slots_ok_def live_def)
  obtain wA' vA where A: "store_user SHM addrA portA fdA pA i wA = Inr wA'" "sm_find (users wA') i = Some vA"
      "sm_find (sockID_table wA') fdA = Some i"
    using store_shared [OF u] by blast
  have "sm_find (users (wB\<lparr>users := users wA'\<rparr>)) i = Some vA" by (simp add: A(2))
  then obtain wB' vB where "store_user SHM addrB portB fdB pB i (wB\<lparr>users := users wA'\<rparr>) = Inr wB'"
      "sm_find (users wB') i = Some vB" "sock vB = fdB" "pid vB = pB" "port vB = portB"
    using store_shared by blast
  then show ?thesis using A assms(3) scan by (auto simp: scan_id_def)
qed

theorem shared_slot_race_witness:
  "\<exists>wA' wB' u. store_user SHM ''2.2.2.2'' 1111 5 801 2 shared_world = Inr wA' \<and>
     store_user SHM ''3.3.3.3'' 2222 5 802 2 (shared_world\<lparr>users := users wA'\<rparr>) = Inr wB' \<and>
     sm_find (users wB') 2 = Some u \<and> pid u = 802"
proof -
  have "min_slot shared_world [1..30] 1 = Inr 2"
  proof -
    have "[1..30] = 1 # 2 # [3..30 :: int]" by (simp add: upto_rec1)
    then show ?thesis by (simp add: user_at_def shared_users_find zero_user_def)
  qed
  then have "scan_id SHM shared_world = Inr 2" by (simp add: scan_id_def slots_upto)
  from shared_slot_race [OF shared_world_slots refl this, of "''2.2.2.2''" 1111 5 801 "''3.3.3.3''" 2222 5 802]
  show ?thesis by auto
qed

text \<open>\<open>tell\<close> to an id outside \<open>1 .. 30\<close> (and user pipes to one, \<open>MAX_CONN\<close> itself included, which the
  guard \<open>uid > MAX_CONN\<close> lets through) dereferences the null pointer that \<open>users[uid]\<close> creates.\<close>

theorem foreign_id_null_deref:
  assumes "slots_ok w" and "uid < 1 \<or> 30 < uid"
  shows "Tell SHM self uid msg w = Inl Null_Deref \<and>
     (uid \<le> MAX_CONN \<longrightarrow> handleUserPipe SHM self uid O_WRONLY ue pe w = Inl Null_Deref \<and>
                          handleUserPipe SHM self uid O_RDONLY ue pe w = Inl Null_Deref)"
proof -
  have "\<not> live uid w" using assms by (auto simp: slots_ok_def)
  then have "user_at w uid = Inl Null_Deref" by (simp add: user_at_def live_def)
  then show ?thesis
    by (simp add: Tell_def handleUserPipe_def O_RDONLY_def O_WRONLY_def MAX_CONN_def)
qed

theorem foreign_id_null_deref_witness:
  "Tell SHM 1 31 ''hi'' shared_world = Inl Null_Deref \<and>
   handleUserPipe SHM 1 31 O_WRONLY True False shared_world = Inl Null_Deref"
  using foreign_id_null_deref [OF shared_world_slots, of 31] by (simp add: MAX_CONN_def)

subsection \<open>Messages\<close>

text \<open>A message to a shared slot never overruns its 1024-byte buffer, whatever its length: the buffer
  then holds the first 1023 bytes of it, no other slot changes, and its owner is signalled.\<close>

theorem shared_message_bounded:
  assumes "sm_find (users w) i = Some u" and "nul \<notin> set msg"
  shows "\<exists>w' v. sendRawMessage SHM i msg w = Inr w' \<and> sm_find (users w') i = Some v \<and>
     inbox v = take 1023 msg \<and> length (inbox v) < USER_MSG_LEN \<and>
     (\<forall>j. j \<noteq> i \<longrightarrow> sm_find (users w') j = sm_find (users w) j) \<and>
     trace w' = trace w @ [Signal (pid u)]"
  using assms by (simp add: sendRawMessage_def user_at_def snprintf_s_def USER_MSG_LEN_def)

theorem shared_message_bounded_witness:
  "\<exists>w' v. sendRawMessage SHM 1 (replicate 3000 (CHR ''a'')) shared_world = Inr w' \<and>
     sm_find (users w') 1 = Some v \<and> length (inbox v) < USER_MSG_LEN"
  using shared_message_bounded [of shared_world 1 "sample_user 4 ''ann''" "replicate 3000 (CHR ''a'')"]
  by (auto simp: nul_def)

text \<open>A slot buffers one message only: of two messages that arrive before the owner handles the first
  signal, the first is lost; the two handlers print the second message and then nothing.\<close>

theorem shared_message_lost:
  assumes "sm_find (users w) i = Some u" and "cur_uid w = i"
    and "nul \<notin> set m1" and "nul \<notin> set m2" and "length m2 < 1024"
  shows "\<exists>w1 w2 w3 w4. sendRawMessage SHM i m1 w = Inr w1 \<and> sendRawMessage SHM i m2 w1 = Inr w2 \<and>
     Kill w2 = Inr w3 \<and> Kill w3 = Inr w4 \<and>
     trace w4 = trace w @ [Signal (pid u), Signal (pid u), Cout (obj_at (kern w) 1) m2,
                           Cout (obj_at (kern w) 1) []]"
  using assms by (simp add: sendRawMessage_def user_at_def snprintf_s_def USER_MSG_LEN_def Kill_def)

theorem shared_message_lost_witness:
  "\<exists>w1 w2 w3 w4. sendRawMessage SHM 1 ''one'' shared_world = Inr w1 \<and> sendRawMessage SHM 1 ''two'' w1 = Inr w2 \<and>
     Kill w2 = Inr w3 \<and> Kill w3 = Inr w4 \<and>
     trace w4 = [Signal 704, Signal 704, Cout (Some (Terminal 0)) ''two'', Cout (Some (Terminal 0)) []]"
  using shared_message_lost [of shared_world 1 "sample_user 4 ''ann''" "''one''" "''two''"]
  by (simp add: nul_def obj_at_def sample_table_def) (simp add: sample_world_def)

subsection \<open>FIFOs\<close>



end
