(* ===== verification/Np1_Types.thy ===== *)
theory Np1_Types
  imports Shell_Run
begin

text \<open>
  The data of the first shell, \<open>312552017_np_project1\<close>: the four kinds of command and the command line of
  its \<open>shell/cmdType.hpp\<close>, without user pipes, and its one shell object with the globals \<open>running\<close> and
  \<open>s_numberPipeList\<close>.  \<open>Pipe\<close> and \<open>circular_buffer\<close> are the code of Np_Pipe and Ring_Buffer.  The last part
  embeds these types in those of the remote shell.
\<close>

subsection \<open>Commands\<close>

datatype cmdType1 = EXE1 | PIPE1 | FILE_CMD1 | NUMBERED_PIPE1

datatype command1 =
    ExeCommand1 "string list"
  | PipeCommand1
  | FileCommand1 string
  | NumberedPipeCommand1 int bool

fun getType1 :: "command1 \<Rightarrow> cmdType1" where
  "getType1 (ExeCommand1 _) = EXE1"
| "getType1 PipeCommand1 = PIPE1"
| "getType1 (FileCommand1 _) = FILE_CMD1"
| "getType1 (NumberedPipeCommand1 _ _) = NUMBERED_PIPE1"

fun pipeError1 :: "command1 \<Rightarrow> bool" where
  "pipeError1 (NumberedPipeCommand1 _ includeError) = includeError"
| "pipeError1 _ = False"

text \<open>The members \<open>n\<close> and \<open>file\<close>, with \<open>getFile\<close>, \<open>setFile\<close> and \<open>clear\<close>, are never used by the shell.\<close>

record np_command_line1 =
  line_n :: int
  line_file :: "string \<times> int"
  npCommands1 :: "command1 list"

definition NpCommandLine1 :: np_command_line1 where
  "NpCommandLine1 = \<lparr>line_n = 0, line_file = ([], 0), npCommands1 = []\<rparr>"

definition addCommand1 :: "command1 \<Rightarrow> np_command_line1 \<Rightarrow> np_command_line1" where
  "addCommand1 c l = l\<lparr>npCommands1 := npCommands1 l @ [c]\<rparr>"

definition getFile1 :: "np_command_line1 \<Rightarrow> string \<times> int" where
  "getFile1 l = line_file l"

definition setFile1 :: "string \<times> int \<Rightarrow> np_command_line1 \<Rightarrow> np_command_line1" where
  "setFile1 newFile l = l\<lparr>line_file := newFile\<rparr>"

definition clear1 :: "np_command_line1 \<Rightarrow> np_command_line1" where
  "clear1 l = \<lparr>line_n = 0, line_file = ([], WRITE), npCommands1 = []\<rparr>"

text \<open>A command line after it was moved from: the containers are empty, the integers keep their values.\<close>

definition moved_from1 :: "np_command_line1 \<Rightarrow> np_command_line1" where
  "moved_from1 l = l\<lparr>line_file := ([], snd (line_file l)), npCommands1 := []\<rparr>"

subsection \<open>The shell\<close>

record npshell =
  s_numberPipeList :: "pipe ring"
  running1 :: bool
  currPipe1 :: pipe
  prevPipe1 :: pipe
  eol1 :: pipe
  pipelineProcessor1 :: "int \<times> int"

definition CmdHandler1 :: npshell where
  "CmdHandler1 = \<lparr>s_numberPipeList = ring_new Pipe, running1 = True, currPipe1 = Pipe, prevPipe1 = Pipe,
                  eol1 = Pipe, pipelineProcessor1 = (0, 0)\<rparr>"

fun createPipe1 :: "command1 \<Rightarrow> npshell \<Rightarrow> kernel \<Rightarrow> (npshell \<times> kernel) result" where
  "createPipe1 (ExeCommand1 _) h k = Inl Bad_Cast"
| "createPipe1 PipeCommand1 h k = rbind (pipe_create k) (\<lambda>(p, k'). Inr (h\<lparr>currPipe1 := p\<rparr>, k'))"
| "createPipe1 (FileCommand1 f) h k =
     (case openFile f WRITE (currPipe1 h) k of (p, k') \<Rightarrow> Inr (h\<lparr>currPipe1 := p\<rparr>, k'))"
| "createPipe1 (NumberedPipeCommand1 n _) h k =
     (let p = ring_get (size_t n) (s_numberPipeList h)
      in if pipe_empty p
         then rbind (pipe_create k) (\<lambda>(p', k').
              Inr (h\<lparr>currPipe1 := p', s_numberPipeList := ring_set (size_t n) p' (s_numberPipeList h)\<rparr>, k'))
         else Inr (h\<lparr>currPipe1 := p\<rparr>, k))"

subsection \<open>Embedding into the types of the remote shell\<close>

fun embed_command :: "command1 \<Rightarrow> command" where
  "embed_command (ExeCommand1 args) = ExeCommand args"
| "embed_command PipeCommand1 = PipeCommand"
| "embed_command (FileCommand1 f) = FileCommand f"
| "embed_command (NumberedPipeCommand1 n e) = NumberedPipeCommand n e"

definition embed_line :: "np_command_line1 \<Rightarrow> np_command_line" where
  "embed_line l = \<lparr>npCommands = map embed_command (npCommands1 l), readUid = 0, writeUid = 0, redirect = line_file l\<rparr>"

definition embed_shell :: "npshell \<Rightarrow> cmd_handler" where
  "embed_shell h = \<lparr>numberPipeList = s_numberPipeList h, running = running1 h, pipelineProcessor = pipelineProcessor1 h,
                    currPipe = currPipe1 h, prevPipe = prevPipe1 h, eol = eol1 h, shell_fd = 0\<rparr>"

text \<open>The results of the two shells correspond when the shell of the one is the image of the other's.\<close>

definition embed_result :: "(npshell \<times> 'a) result \<Rightarrow> (cmd_handler \<times> 'a) result" where
  "embed_result r = map_sum id (map_prod embed_shell id) r"

lemma embed_result_simps [simp]:
  "embed_result (Inl e) = Inl e" "embed_result (Inr (h, x)) = Inr (embed_shell h, x)"
  by (simp_all add: embed_result_def)

lemma embed_rbind: "(\<And>x. r = Inr x \<Longrightarrow> f x = embed_result (g x)) \<Longrightarrow> rbind r f = embed_result (rbind r g)"
  by (cases r) auto

lemma rbind_embed:
  "(\<And>h x. r = Inr (h, x) \<Longrightarrow> f (embed_shell h, x) = embed_result (g (h, x))) \<Longrightarrow>
     rbind (embed_result r) f = embed_result (rbind r g)"
  by (cases r) auto

lemma embed_shell_sel [simp]:
  "numberPipeList (embed_shell h) = s_numberPipeList h" "running (embed_shell h) = running1 h"
  "pipelineProcessor (embed_shell h) = pipelineProcessor1 h" "currPipe (embed_shell h) = currPipe1 h"
  "prevPipe (embed_shell h) = prevPipe1 h" "eol (embed_shell h) = eol1 h" "shell_fd (embed_shell h) = 0"
  by (simp_all add: embed_shell_def)

lemma embed_shell_upd [simp]:
  "(embed_shell h)\<lparr>numberPipeList := r\<rparr> = embed_shell (h\<lparr>s_numberPipeList := r\<rparr>)"
  "(embed_shell h)\<lparr>running := b\<rparr> = embed_shell (h\<lparr>running1 := b\<rparr>)"
  "(embed_shell h)\<lparr>pipelineProcessor := pp\<rparr> = embed_shell (h\<lparr>pipelineProcessor1 := pp\<rparr>)"
  "(embed_shell h)\<lparr>currPipe := p\<rparr> = embed_shell (h\<lparr>currPipe1 := p\<rparr>)"
  "(embed_shell h)\<lparr>prevPipe := p\<rparr> = embed_shell (h\<lparr>prevPipe1 := p\<rparr>)"
  "(embed_shell h)\<lparr>eol := p\<rparr> = embed_shell (h\<lparr>eol1 := p\<rparr>)"
  "(embed_shell h)\<lparr>shell_fd := 0\<rparr> = embed_shell h"
  by (simp_all add: embed_shell_def)

lemma embed_CmdHandler: "embed_shell CmdHandler1 = CmdHandler"
  by (simp add: embed_shell_def CmdHandler1_def CmdHandler_def)

lemma embed_command_simps [simp]:
  "getType (embed_command c) = EXE \<longleftrightarrow> getType1 c = EXE1"
  "getType (embed_command c) = NUMBERED_PIPE \<longleftrightarrow> getType1 c = NUMBERED_PIPE1"
  "pipeError (embed_command c) = pipeError1 c" "embed_command c \<noteq> UserPipeCommand"
  by (cases c; simp)+

lemma embed_line_sel [simp]:
  "npCommands (embed_line l) = map embed_command (npCommands1 l)" "readUid (embed_line l) = 0" "writeUid (embed_line l) = 0"
  by (simp_all add: embed_line_def)

lemma embed_line_ops:
  "embed_line NpCommandLine1 = NpCommandLine"
  "addCommand (embed_command c) (embed_line l) = embed_line (addCommand1 c l)"
  "moved_from (embed_line l) = embed_line (moved_from1 l)"
  by (simp_all add: embed_line_def NpCommandLine1_def NpCommandLine_def addCommand1_def addCommand_def
      moved_from1_def moved_from_def)

lemma createPipe_embed: "createPipe (embed_command c) (embed_shell h) k = embed_result (createPipe1 c h k)"
  by (cases c) (auto simp: Let_def split: prod.split intro!: embed_rbind)

end
