(* ===== verification/Np1_Shell.thy ===== *)
theory Np1_Shell
  imports Np1_Types
begin

text \<open>
  The shell of \<open>312552017_np_project1\<close> (\<open>npshell.cpp\<close>, \<open>shell/cmdHandler.cpp\<close>) over the data of Np1_Types:
  parsing, running, and the loop of \<open>main\<close>.  The process is a \<open>world\<close> whose chat tables nobody uses.
\<close>

subsection \<open>Parsing\<close>

record parse_state1 =
  iss1 :: istream
  queue1 :: "np_command_line1 list"
  cur1 :: np_command_line1
  argv1 :: "string list"
  sh1 :: npshell
  wd1 :: world

definition push_exe1 :: "parse_state1 \<Rightarrow> parse_state1" where
  "push_exe1 st = st\<lparr>cur1 := addCommand1 (ExeCommand1 (argv1 st)) (cur1 st), argv1 := []\<rparr>"

definition push1 :: "command1 \<Rightarrow> parse_state1 \<Rightarrow> parse_state1" where
  "push1 c st = st\<lparr>cur1 := addCommand1 c (cur1 st)\<rparr>"

definition parse_exit1 :: "parse_state1 \<Rightarrow> parse_state1" where
  "parse_exit1 st =
     (let h = sh1 st; (e, k1) = closePipe (eol1 h) (kern (wd1 st)); (p, k2) = closePipe (prevPipe1 h) k1;
          (c, k3) = closePipe (currPipe1 h) k2
      in st\<lparr>sh1 := h\<lparr>running1 := False, eol1 := e, prevPipe1 := p, currPipe1 := c\<rparr>,
            wd1 := (wd1 st)\<lparr>kern := k3\<rparr>\<rparr>)"

definition parse_printenv1 :: "parse_state1 \<Rightarrow> parse_state1" where
  "parse_printenv1 st =
     (let (var, s) = get_word_or_empty (iss1 st)
      in st\<lparr>iss1 := s, wd1 := (case sm_find (environ (wd1 st)) (c_str var) of
                               None \<Rightarrow> wd1 st | Some v \<Rightarrow> cout (v @ [newline]) (wd1 st))\<rparr>)"

definition parse_setenv1 :: "parse_state1 \<Rightarrow> parse_state1" where
  "parse_setenv1 st =
     (let (var, s1) = get_word_or_empty (iss1 st); (v, s2) = get_word_or_empty s1
      in st\<lparr>iss1 := s2, wd1 := k_setenv (c_str var) (c_str v) (wd1 st)\<rparr>)"

definition parse_redirect1 :: "parse_state1 \<Rightarrow> parse_state1" where
  "parse_redirect1 st =
     (case get_word_or_empty (iss1 st) of (f, s) \<Rightarrow> push1 (FileCommand1 f) (push_exe1 (st\<lparr>iss1 := s\<rparr>)))"

text \<open>A numbered pipe ends the line, which is moved into the queue.\<close>

definition parse_numbered1 :: "string \<Rightarrow> parse_state1 \<Rightarrow> parse_state1" where
  "parse_numbered1 tok st =
     (let st1 = push1 (NumberedPipeCommand1 (atoi (tl tok)) (hd tok = CHR ''!'')) (push_exe1 st)
      in st1\<lparr>queue1 := queue1 st1 @ [cur1 st1], cur1 := moved_from1 (cur1 st1)\<rparr>)"

definition parse_token1 :: "string \<Rightarrow> parse_state1 \<Rightarrow> parse_state1" where
  "parse_token1 tok st =
     (if tok = ''exit'' then parse_exit1 st
      else if tok = ''printenv'' then parse_printenv1 st
      else if tok = ''setenv'' then parse_setenv1 st
      else if tok = ''|'' then push1 PipeCommand1 (push_exe1 st)
      else if tok = ''>'' then parse_redirect1 st
      else if hd tok = CHR ''|'' \<or> hd tok = CHR ''!'' then parse_numbered1 tok st
      else st\<lparr>argv1 := argv1 st @ [tok]\<rparr>)"

lemma parse_token1_unread: "length (unread (iss1 (parse_token1 tok st))) \<le> length (unread (iss1 st))"
proof -
  have w: "get_word_or_empty s = (x, s') \<Longrightarrow> length (unread s') \<le> length (unread s)" for s x s'
    using unread_length_le(2) [of s] by auto
  show ?thesis
    by (auto simp: parse_token1_def parse_exit1_def parse_printenv1_def parse_setenv1_def push1_def push_exe1_def
          parse_redirect1_def parse_numbered1_def Let_def split: prod.splits dest!: w)
qed

function parse_loop1 :: "parse_state1 \<Rightarrow> parse_state1" where
  "parse_loop1 st =
     (case get_word (iss1 st) of
        (None, s) \<Rightarrow> st\<lparr>iss1 := s\<rparr>
      | (Some tok, s) \<Rightarrow> parse_loop1 (parse_token1 tok (st\<lparr>iss1 := s\<rparr>)))"
  by pat_completeness auto
termination
  by (relation "measure (\<lambda>st. length (unread (iss1 st)))")
    (auto dest!: get_word_Some(1) [OF sym] intro!: le_less_trans [OF parse_token1_unread])

declare parse_loop1.simps [simp del]

definition parseCommand1 :: "string \<Rightarrow> npshell \<Rightarrow> world \<Rightarrow> np_command_line1 list \<times> npshell \<times> world" where
  "parseCommand1 command h w =
     (let st = parse_loop1 \<lparr>iss1 = istringstream command, queue1 = [], cur1 = NpCommandLine1,
                            argv1 = [], sh1 = h, wd1 = w\<rparr>;
          l = (if argv1 st \<noteq> [] then addCommand1 (ExeCommand1 (argv1 st)) (cur1 st) else cur1 st)
      in (if npCommands1 l \<noteq> [] then queue1 st @ [l] else queue1 st, sh1 st, wd1 st))"

subsection \<open>Running a line\<close>

definition connect_next1 :: "command1 \<Rightarrow> npshell \<Rightarrow> world \<Rightarrow> (npshell \<times> bool \<times> world) result" where
  "connect_next1 nxt h w =
     (if getType1 nxt = EXE1 then Inl Bad_Cast
      else rbind (createPipe1 nxt h (kern w)) (\<lambda>(h', k). Inr (h', pipeError1 nxt, w\<lparr>kern := k\<rparr>)))"

definition spawn1 :: "bool \<Rightarrow> string list \<Rightarrow> npshell \<Rightarrow> world \<Rightarrow> npshell \<times> world" where
  "spawn1 pipeErr args h w =
     (let p = next_pid (kern w);
          w1 = emit (child p pipeErr args (prevPipe1 h) (currPipe1 h) (kern w))
                 (w\<lparr>kern := (kern w)\<lparr>next_pid := p + 1\<rparr>\<rparr>);
          (p0, p1) = pipelineProcessor1 h;
          w2 = (if p0 \<noteq> 0 then emit (Wait p0) w1 else w1)
      in (h\<lparr>pipelineProcessor1 := (p1, p)\<rparr>, w2))"

fun run_commands1 :: "command1 list \<Rightarrow> npshell \<Rightarrow> world \<Rightarrow> (npshell \<times> world) result" where
  "run_commands1 [] h w = Inr (h, w)"
| "run_commands1 (ExeCommand1 args # rest) h w =
     (let h1 = h\<lparr>prevPipe1 := currPipe1 h\<rparr>; w1 = w\<lparr>kern := snd (closePipe (prevPipe1 h) (kern w))\<rparr>
      in rbind (case rest of
                  [] \<Rightarrow> Inr (h1, False, w1)
                | nxt # _ \<Rightarrow> connect_next1 nxt h1 w1) (\<lambda>(h2, pipeErr, w2).
         case spawn1 pipeErr args h2 w2 of (h3, w3) \<Rightarrow> run_commands1 rest h3 w3))"
| "run_commands1 (_ # rest) h w = run_commands1 rest h w"

definition finish_line1 :: "command1 list \<Rightarrow> npshell \<Rightarrow> world \<Rightarrow> (npshell \<times> world) result" where
  "finish_line1 cmds h w =
     (let (p, k1) = closePipe (prevPipe1 h) (kern w); h1 = h\<lparr>prevPipe1 := p\<rparr>; w1 = w\<lparr>kern := k1\<rparr>
      in if cmds = [] then Inl Out_Of_Bounds
         else if getType1 (last cmds) \<noteq> NUMBERED_PIPE1 then
           (let w2 = emit (Wait (snd (pipelineProcessor1 h1))) w1;
                (c, k2) = closePipe (currPipe1 h1) (kern w2)
            in Inr (h1\<lparr>currPipe1 := c\<rparr>, w2\<lparr>kern := k2\<rparr>))
         else Inr (h1, emit Await_EOF (w1\<lparr>kern := readEOF (eol1 h1) (kern w1)\<rparr>)))"

definition run_line1 :: "np_command_line1 \<Rightarrow> npshell \<Rightarrow> world \<Rightarrow> (npshell \<times> world) result" where
  "run_line1 l h w =
     rbind (pipe_create (kern w)) (\<lambda>(e, k).
     let ring' = ring_next (s_numberPipeList h);
         h1 = h\<lparr>eol1 := e, s_numberPipeList := ring', currPipe1 := ring_front ring'\<rparr>
     in rbind (run_commands1 (npCommands1 l) h1 (w\<lparr>kern := k\<rparr>)) (\<lambda>(h2, w2). finish_line1 (npCommands1 l) h2 w2))"

fun run_lines1 :: "np_command_line1 list \<Rightarrow> npshell \<Rightarrow> world \<Rightarrow> (npshell \<times> world) result" where
  "run_lines1 [] h w = Inr (h, w)"
| "run_lines1 (l # ls) h w = rbind (run_line1 l h w) (\<lambda>(h', w'). run_lines1 ls h' w')"

definition runShell1 :: "int \<Rightarrow> npshell \<Rightarrow> world \<Rightarrow> (npshell \<times> world) result" where
  "runShell1 fd h w =
     rbind (if fd \<noteq> 0 then Inr ([], w\<lparr>kern := k_dup2 fd 0 (kern w)\<rparr>) else getline_cin w) (\<lambda>(line, w1).
     case parseCommand1 line h w1 of (ls, h1, w2) \<Rightarrow>
     rbind (run_lines1 ls h1 w2) (\<lambda>(h2, w3).
     Inr (h2, if running1 h2 \<and> fd = 0 then cout ''% '' w3 else w3)))"

subsection \<open>\<open>npshell\<close>\<close>

definition npshell_start :: "world \<Rightarrow> world" where
  "npshell_start w = cout ''% '' (k_setenv ''PATH'' ''bin:.'' w)"

text \<open>At most \<open>n\<close> rounds of the loop; the flag tells whether it has ended.\<close>

fun npshell_turns :: "nat \<Rightarrow> npshell \<Rightarrow> world \<Rightarrow> (bool \<times> npshell \<times> world) result" where
  "npshell_turns 0 h w = Inr (\<not> running1 h, h, w)"
| "npshell_turns (Suc n) h w =
     (if \<not> running1 h then Inr (True, h, w)
      else rbind (runShell1 0 h w) (\<lambda>(h', w'). npshell_turns n h' w'))"

definition npshell_main :: "nat \<Rightarrow> world \<Rightarrow> (bool \<times> npshell \<times> world) result" where
  "npshell_main n w = npshell_turns n CmdHandler1 (npshell_start w)"

subsection \<open>Embedding the steps\<close>

definition embed_state :: "parse_state1 \<Rightarrow> parse_state" where
  "embed_state st = \<lparr>iss = iss1 st, queue = map embed_line (queue1 st), cur = embed_line (cur1 st),
                     argv = argv1 st, sh = embed_shell (sh1 st), wd = wd1 st\<rparr>"

lemma embed_state_sel [simp]:
  "iss (embed_state st) = iss1 st" "queue (embed_state st) = map embed_line (queue1 st)"
  "cur (embed_state st) = embed_line (cur1 st)" "argv (embed_state st) = argv1 st"
  "sh (embed_state st) = embed_shell (sh1 st)" "wd (embed_state st) = wd1 st"
  by (simp_all add: embed_state_def)

lemma embed_state_upd [simp]:
  "(embed_state st)\<lparr>iss := s\<rparr> = embed_state (st\<lparr>iss1 := s\<rparr>)"
  "(embed_state st)\<lparr>wd := w\<rparr> = embed_state (st\<lparr>wd1 := w\<rparr>)"
  "(embed_state st)\<lparr>argv := a\<rparr> = embed_state (st\<lparr>argv1 := a\<rparr>)"
  "(embed_state st)\<lparr>sh := embed_shell h\<rparr> = embed_state (st\<lparr>sh1 := h\<rparr>)"
  "(embed_state st)\<lparr>cur := embed_line l\<rparr> = embed_state (st\<lparr>cur1 := l\<rparr>)"
  by (simp_all add: embed_state_def)

lemma embed_push:
  "push_exe (embed_state st) = embed_state (push_exe1 st)"
  "push (embed_command c) (embed_state st) = embed_state (push1 c st)"
  using embed_line_ops(2) [of "ExeCommand1 (argv1 st)" "cur1 st"] embed_line_ops(2) [of c "cur1 st"]
  by (simp_all add: push_exe_def push_exe1_def push_def push1_def)

lemma embed_end_line:
  "end_line (embed_state st) = embed_state (st\<lparr>queue1 := queue1 st @ [cur1 st], cur1 := moved_from1 (cur1 st)\<rparr>)"
  by (simp add: end_line_def embed_state_def embed_line_ops(3))

lemma embed_steps:
  "parse_exit (embed_state st) = embed_state (parse_exit1 st)"
  "parse_redirect (embed_state st) = embed_state (parse_redirect1 st)"
  "parse_numbered tok (embed_state st) = embed_state (parse_numbered1 tok st)"
  using embed_push(2) [of "FileCommand1 f" for f] embed_push(2) [of "NumberedPipeCommand1 n e" for n e]
  by (auto simp: parse_exit_def parse_exit1_def parse_redirect_def parse_redirect1_def parse_numbered_def
      parse_numbered1_def embed_end_line embed_push Let_def split: prod.split)

end
