(* ===== verification/Np1_Properties.thy ===== *)
theory Np1_Properties
  imports Np1_Shell Parser_Facts Sample_World
begin

text \<open>
  The properties of the first shell: on lines without the commands and user pipes the remote shell
  added, both do the same; and the first shell never ends at the end of its input.
\<close>

subsection \<open>Common lines\<close>

definition common_word :: "string \<Rightarrow> bool" where
  "common_word t \<longleftrightarrow> is_word t \<and> t \<notin> {''printenv'', ''setenv'', ''who'', ''tell'', ''yell'', ''name''} \<and>
     hd t \<noteq> CHR ''<'' \<and> (hd t = CHR ''>'' \<longrightarrow> t = ''>'')"

lemma token_common: "common_word t \<Longrightarrow> parse_token cfg self t (embed_state st) = Inr (embed_state (parse_token1 t st))"
proof (cases "t = ''>''")
  case True
  then show ?thesis by (simp add: parse_token_def parse_token1_def embed_steps)
next
  case False
  assume "common_word t"
  then have facts: "t \<noteq> ''printenv''" "t \<noteq> ''setenv''" "t \<noteq> ''who''" "t \<noteq> ''tell''" "t \<noteq> ''yell''" "t \<noteq> ''name''"
    "hd t \<noteq> CHR ''<''" "hd t \<noteq> CHR ''>''" "t \<noteq> ''>''"
    using False by (simp_all only: common_word_def insert_iff empty_iff de_Morgan_disj simp_thms)
  have pipe: "push PipeCommand (push_exe (embed_state st)) = embed_state (push1 PipeCommand1 (push_exe1 st))"
    using embed_push(2) [of PipeCommand1] by (simp add: embed_push(1))
  show ?thesis
    unfolding parse_token_def parse_token1_def facts [THEN eq_False [THEN iffD2]] if_False
    by (simp only: pipe embed_steps split: if_split) simp
qed

lemma iss_of_steps:
  "iss1 (parse_exit1 st) = iss1 st" "iss1 (parse_numbered1 tok st) = iss1 st"
  "iss1 (parse_redirect1 st) = snd (get_word_or_empty (iss1 st))"
  "iss1 (push1 c st) = iss1 st" "iss1 (push_exe1 st) = iss1 st"
  by (simp_all add: parse_exit1_def parse_numbered1_def parse_redirect1_def push1_def push_exe1_def Let_def split: prod.splits)

lemma stream_after_token:
  assumes "common_word t" and "list_all common_word ts" and "iss1 st = stream ts"
  shows "iss1 (parse_token1 t st) \<in> {stream ts, stream (tl ts), at_end}"
proof -
  have "snd (get_word_or_empty (stream ts)) \<in> {stream (tl ts), at_end}"
  proof (cases ts)
    case (Cons f fs)
    then have "is_word f" using assms(2) by (simp add: common_word_def)
    then show ?thesis by (simp add: Cons get_word_or_empty_def get_word_spaced)
  qed (simp add: get_word_or_empty_def)
  moreover have "t \<noteq> ''printenv''" "t \<noteq> ''setenv''" using assms(1) unfolding common_word_def by blast+
  ultimately show ?thesis
    by (simp add: parse_token1_def iss_of_steps assms(3))
qed

lemma loops_at_end:
  "iss1 st = at_end \<Longrightarrow> parse_loop cfg self (embed_state st) = Inr (embed_state st) \<and> parse_loop1 st = st"
  by (subst parse_loop.simps, subst parse_loop1.simps) (simp add: at_end_def get_word_def)

lemma loop_common:
  "list_all common_word ts \<Longrightarrow> iss1 st = stream ts \<Longrightarrow>
     parse_loop cfg self (embed_state st) = Inr (embed_state (parse_loop1 st))"
proof (induction ts arbitrary: st rule: length_induct)
  case (1 ts)
  note IH = 1(1)
  show ?case
  proof (cases ts)
    case Nil
    then show ?thesis
      using 1(3) by (subst parse_loop.simps, subst parse_loop1.simps) simp
  next
    case (Cons t us)
    have t: "common_word t" and us: "list_all common_word us" using 1(2) by (simp_all add: Cons)
    then have word: "is_word t" by (simp add: common_word_def)
    let ?st = "parse_token1 t (st\<lparr>iss1 := stream us\<rparr>)"
    have "parse_loop cfg self (embed_state st) = parse_loop cfg self (embed_state ?st)" "parse_loop1 st = parse_loop1 ?st"
      using 1(3) t word
      by (simp_all add: parse_loop.simps [of cfg self "embed_state st"] parse_loop1.simps [of st] Cons get_word_spaced token_common)
    moreover have "parse_loop cfg self (embed_state ?st) = Inr (embed_state (parse_loop1 ?st))"
    proof -
      consider "iss1 ?st = stream us" | "iss1 ?st = stream (tl us)" | "iss1 ?st = at_end"
        using stream_after_token [OF t us, of "st\<lparr>iss1 := stream us\<rparr>"] by auto
      then show ?thesis
      proof cases
        case 1
        moreover have "length us < length ts" by (simp add: Cons)
        ultimately show ?thesis using IH us by blast
      next
        case 2
        moreover have "list_all common_word (tl us)" using us by (cases us) simp_all
        moreover have "length (tl us) < length ts" by (simp add: Cons)
        ultimately show ?thesis using IH by blast
      next
        case 3
        then show ?thesis by (simp add: loops_at_end)
      qed
    qed
    ultimately show ?thesis by simp
  qed
qed

subsection \<open>Running common lines\<close>

lemma connect_common:
  "connect_next cfg self line rd wr (embed_command nxt) (embed_shell h) w =
     map_sum id (\<lambda>(h', e, w'). (e, embed_shell h', w')) (connect_next1 nxt h w)"
  by (cases "createPipe1 nxt h (kern w)")
    (auto simp: connect_next_def connect_next1_def createPipe_embed)

lemma spawn_common:
  "spawn e args (embed_shell h) w = (embed_shell (fst (spawn1 e args h w)), snd (spawn1 e args h w))"
  by (simp add: spawn_def spawn1_def Let_def split_beta)

lemma run_commands_common:
  "run_commands cfg self line rd wr (map embed_command cs) (embed_shell h) w = embed_result (run_commands1 cs h w)"
proof (induction cs arbitrary: h w)
  case (Cons c cs)
  show ?case
  proof (cases c)
    case (ExeCommand1 args)
    let ?h = "h\<lparr>prevPipe1 := currPipe1 h\<rparr>" and ?w = "w\<lparr>kern := snd (closePipe (prevPipe1 h) (kern w))\<rparr>"
    let ?next = "case cs of [] \<Rightarrow> Inr (?h, False, ?w) | nxt # _ \<Rightarrow> connect_next1 nxt ?h ?w"
    have step: "(case map embed_command cs of [] \<Rightarrow> Inr (False, embed_shell ?h, ?w)
        | nxt # _ \<Rightarrow> connect_next cfg self line rd wr nxt (embed_shell ?h) ?w) =
        map_sum id (\<lambda>(h', e, w'). (e, embed_shell h', w')) ?next"
      by (cases cs) (simp_all add: connect_common)
    show ?thesis
      by (cases ?next) (auto simp: ExeCommand1 Let_def step spawn_common Cons.IH split_beta)
  qed (use Cons in simp_all)
qed simp

lemma finish_line_common:
  "finish_line (map embed_command cs) (embed_shell h) w = embed_result (finish_line1 cs h w)"
  by (auto simp: finish_line_def finish_line1_def Let_def last_map split_beta)

lemma run_line_common: "run_line cfg self line (embed_line l) (embed_shell h) w = embed_result (run_line1 l h w)"
  by (auto simp: run_line_def run_line1_def run_commands_common finish_line_common Let_def split_beta
      intro!: embed_rbind rbind_embed)

lemma run_lines_common: "run_lines cfg self line (map embed_line ls) (embed_shell h) w = embed_result (run_lines1 ls h w)"
  by (induction ls arbitrary: h w) (auto simp: run_line_common intro!: rbind_embed)

lemma parse_common:
  assumes "list_all common_word ts" and "registered 0 w"
  shows "parseCommand cfg (spaced ts) (embed_shell h) w =
     Inr (case parseCommand1 (spaced ts) h w of (ls, h', w') \<Rightarrow> (map embed_line ls, embed_shell h', w'))"
proof -
  obtain i where i: "getServingUserID 0 w = (i, w)"
    using getServingUserID_registered [OF assms(2)] by blast
  let ?st = "\<lparr>iss1 = stream ts, queue1 = [], cur1 = NpCommandLine1, argv1 = [], sh1 = h, wd1 = w\<rparr>"
  have "embed_state ?st = \<lparr>iss = stream ts, queue = [], cur = NpCommandLine, argv = [], sh = embed_shell h, wd = w\<rparr>"
    by (simp add: embed_state_def embed_line_ops)
  moreover have "parse_loop cfg i (embed_state ?st) = Inr (embed_state (parse_loop1 ?st))"
    by (rule loop_common [OF assms(1)]) simp
  ultimately show ?thesis
    using embed_line_ops(2) [of "ExeCommand1 (argv1 (parse_loop1 ?st))" "cur1 (parse_loop1 ?st)"]
    by (simp add: parseCommand_def parseCommand1_def i istringstream_def Let_def)
qed


subsection \<open>End of input\<close>

lemma empty_line: "parseCommand1 [] h w = ([], h, w)"
  by (simp add: parseCommand1_def parse_loop1.simps istringstream_def at_end_def NpCommandLine1_def Let_def)

lemma dead_turn:
  "\<not> cin_good w \<Longrightarrow> running1 h \<Longrightarrow> runShell1 0 h w = Inr (h, cout ''% '' w)"
  by (simp add: runShell1_def getline_cin_dead empty_line)

text \<open>C38. After the end of its input the shell goes on for ever: every round prints another prompt, changes
  nothing else and never ends the loop.\<close>

theorem npshell_spins_at_end_of_input:
  assumes "\<not> cin_good w" and "running1 h"
  shows "npshell_turns n h w = Inr (False, h, ((cout ''% '') ^^ n) w)"
  using assms(1)
proof (induction n arbitrary: w)
  case (Suc n)
  have "\<not> cin_good (cout ''% '' w)" using Suc.prems by (simp add: cout_def emit_def)
  then show ?case
    using Suc assms(2) by (simp add: dead_turn funpow_swap1)
qed (use assms(2) in simp)

theorem npshell_spins_at_end_of_input_witness:
  "npshell_turns 7 CmdHandler1 ((sample_world 9 [] [] [])\<lparr>cin_good := False\<rparr>) =
     Inr (False, CmdHandler1, ((cout ''% '') ^^ 7) ((sample_world 9 [] [] [])\<lparr>cin_good := False\<rparr>))"
  by (rule npshell_spins_at_end_of_input) (simp_all add: CmdHandler1_def)

text \<open>A line, two programs in a pipe, and its words.\<close>

definition sample_words :: "string list" where
  "sample_words = [''ls'', ''|'', ''cat'']"

lemma sample_words:
  "list_all common_word sample_words" "newline \<notin> set (spaced sample_words)"
  by (simp_all add: sample_words_def common_word_def is_word_def isspace_def code_def spaced_def newline_def)


end
