(* ===== verification/Np_Commands.thy ===== *)
theory Np_Commands
  imports Std_Text
begin

text \<open>
  The programs \<open>number\<close>, \<open>removetag\<close> and \<open>removetag0\<close> of \<open>commands/\<close>, which the shells run.  A program
  is a function from its arguments, the files it can open and its standard input to what it writes
  to standard output and standard error.
\<close>

subsection \<open>Input\<close>

text \<open>
  With one argument \<open>cin\<close> reads from that file (from nothing if it cannot be opened); with more, the
  usage line is printed and standard input is read all the same.
\<close>

definition command_input :: "string list \<Rightarrow> (string \<Rightarrow> string option) \<Rightarrow> string \<Rightarrow> string" where
  "command_input argv files stdin =
     (if length argv = 2 then (case files (argv ! 1) of None \<Rightarrow> [] | Some s \<Rightarrow> s) else stdin)"

definition command_usage :: "string list \<Rightarrow> string" where
  "command_usage argv =
     (if 2 < length argv then ''usage: '' @ hd argv @ '' [filename]'' @ [newline] else [])"

text \<open>The lines \<open>getline\<close> returns: a last line without newline counts, an empty rest does not.\<close>

function input_lines :: "string \<Rightarrow> string list" where
  "input_lines s =
     (if s = [] then []
      else takeWhile (\<lambda>c. c \<noteq> newline) s # input_lines (drop 1 (dropWhile (\<lambda>c. c \<noteq> newline) s)))"
  by pat_completeness auto
termination
proof (relation "measure length")
  fix s :: string
  assume "s \<noteq> []"
  then have "0 < length s" by simp
  moreover have "length (dropWhile (\<lambda>c. c \<noteq> newline) s) \<le> length s" by (rule length_dropWhile_le)
  ultimately have "length (drop 1 (dropWhile (\<lambda>c. c \<noteq> newline) s)) < length s"
    unfolding length_drop by linarith
  then show "(drop 1 (dropWhile (\<lambda>c. c \<noteq> newline) s), s) \<in> measure length" by simp
qed simp

declare input_lines.simps [simp del]

subsection \<open>\<open>number\<close>\<close>

text \<open>\<open>setw(4)\<close> pads on the left; a longer number is written whole.\<close>

definition setw :: "nat \<Rightarrow> string \<Rightarrow> string" where
  "setw n s = replicate (n - length s) (CHR '' '') @ s"

fun number_lines :: "nat \<Rightarrow> string list \<Rightarrow> string" where
  "number_lines lineno [] = []"
| "number_lines lineno (line # rest) =
     setw 4 (nat_text (Suc lineno)) @ CHR '' '' # line @ [newline] @ number_lines (Suc lineno) rest"

definition number :: "string list \<Rightarrow> (string \<Rightarrow> string option) \<Rightarrow> string \<Rightarrow> string \<times> string" where
  "number argv files stdin =
     (number_lines 0 (input_lines (command_input argv files stdin)), command_usage argv)"

subsection \<open>\<open>removetag\<close>\<close>

fun strip_tags :: "bool \<Rightarrow> string \<Rightarrow> string" where
  "strip_tags in_tag [] = []"
| "strip_tags in_tag (c # cs) =
     (if c = CHR ''<'' then strip_tags True cs
      else if c = CHR ''>'' then strip_tags False cs
      else if in_tag then strip_tags in_tag cs
      else c # strip_tags in_tag cs)"

definition removetag :: "string list \<Rightarrow> (string \<Rightarrow> string option) \<Rightarrow> string \<Rightarrow> string \<times> string" where
  "removetag argv files stdin = (strip_tags False (command_input argv files stdin), command_usage argv)"

subsection \<open>\<open>removetag0\<close>\<close>

record tag_state =
  in_tag :: bool
  is_illegal :: bool
  tag_name :: string

definition illegal_msg :: "string \<Rightarrow> string" where
  "illegal_msg t = ''Error: illegal tag '' @ [CHR 0x22] @ t @ [CHR 0x22] @ [newline]"

definition tag_char :: "char \<Rightarrow> bool" where
  "tag_char c \<longleftrightarrow> isalpha c \<or> c = CHR ''/''"

text \<open>One round of the loop: the next state and what is written to standard output and error.\<close>

definition tag_step :: "char \<Rightarrow> tag_state \<Rightarrow> tag_state \<times> string \<times> string" where
  "tag_step c s =
     (if c = CHR ''<'' then (s\<lparr>in_tag := True\<rparr>, [], [])
      else if c = CHR ''>'' then (s\<lparr>in_tag := False\<rparr>, [], [])
      else if in_tag s
           then (s\<lparr>tag_name := tag_name s @ [c], is_illegal := is_illegal s \<or> \<not> tag_char c\<rparr>, [], [])
      else if is_illegal s then (s\<lparr>is_illegal := False\<rparr>, [c], illegal_msg (tag_name s))
      else (s, [c], []))"

fun tag_loop :: "string \<Rightarrow> tag_state \<Rightarrow> string \<times> string" where
  "tag_loop [] s = ([], [])"
| "tag_loop (c # cs) s =
     (case tag_step c s of (s', out, err) \<Rightarrow>
        case tag_loop cs s' of (out', err') \<Rightarrow> (out @ out', err @ err'))"

definition removetag0 :: "string list \<Rightarrow> (string \<Rightarrow> string option) \<Rightarrow> string \<Rightarrow> string \<times> string" where
  "removetag0 argv files stdin =
     (case tag_loop (command_input argv files stdin) \<lparr>in_tag = False, is_illegal = False, tag_name = []\<rparr> of
        (out, err) \<Rightarrow> (out, command_usage argv @ err))"

subsection \<open>Lines\<close>

definition is_line :: "string \<Rightarrow> bool" where
  "is_line l \<longleftrightarrow> newline \<notin> set l"

lemma input_lines_step: "is_line l \<Longrightarrow> input_lines (l @ newline # s) = l # input_lines s"
proof -
  assume l: "is_line l"
  have "takeWhile (\<lambda>c. c \<noteq> newline) (l @ newline # s) = l"
      "dropWhile (\<lambda>c. c \<noteq> newline) (l @ newline # s) = newline # s"
    using l by (auto intro!: takeWhile_append_stop dropWhile_append_stop simp: is_line_def)
  then show ?thesis by (subst input_lines.simps) simp
qed

lemma input_lines_Nil [simp]: "input_lines [] = []"
  by (simp add: input_lines.simps)

lemma input_lines_are_lines: "\<forall>l \<in> set (input_lines s). is_line l"
proof (induction s rule: input_lines.induct)
  case (1 s)
  have "is_line (takeWhile (\<lambda>c. c \<noteq> newline) s)"
    by (auto simp: is_line_def dest: set_takeWhileD)
  with 1 show ?case by (subst input_lines.simps) auto
qed

lemma nat_text_line: "is_line (nat_text n)"
  by (auto simp: is_line_def newline_def isdigit_def code_def dest!: nat_text_digits)

lemma setw_line: "is_line s \<Longrightarrow> is_line (setw n s)"
  by (auto simp: setw_def is_line_def newline_def)

lemma length_nat_text: "n < 10000 \<Longrightarrow> length (nat_text n) \<le> 4"
  by (simp add: nat_text.simps [of n] nat_text.simps [of "n div 10"] nat_text.simps [of "n div 10 div 10"]
      nat_text.simps [of "n div 10 div 10 div 10"])

lemma length_setw: "length s \<le> n \<Longrightarrow> length (setw n s) = n"
  by (simp add: setw_def)

lemma number_lines_read:
  "\<forall>l \<in> set ls. is_line l \<Longrightarrow> n + length ls < 10000 \<Longrightarrow>
     map (drop 5) (input_lines (number_lines n ls)) = ls \<and>
     length (input_lines (number_lines n ls)) = length ls"
proof (induction ls arbitrary: n)
  case (Cons l ls)
  let ?p = "setw 4 (nat_text (Suc n))"
  have line: "is_line (?p @ CHR '' '' # l)"
    using setw_line [OF nat_text_line, of 4 "Suc n"] Cons.prems(1) by (auto simp: is_line_def newline_def)
  have "length ?p = 4" using Cons.prems(2) by (intro length_setw length_nat_text) simp
  then have "drop 5 (?p @ CHR '' '' # l) = l" by simp
  then show ?case
    using Cons input_lines_step [OF line, of "number_lines (Suc n) ls"] by simp
qed simp

subsection \<open>Tags\<close>

lemma strip_no_brackets: "CHR ''<'' \<notin> set (strip_tags b s) \<and> CHR ''>'' \<notin> set (strip_tags b s)"
  by (induction b s rule: strip_tags.induct) auto

lemma strip_plain: "CHR ''<'' \<notin> set s \<Longrightarrow> CHR ''>'' \<notin> set s \<Longrightarrow> strip_tags False s = s"
  by (induction s) auto

lemma strip_tag: "CHR ''>'' \<notin> set t \<Longrightarrow> strip_tags True (t @ CHR ''>'' # s) = strip_tags False s"
  by (induction t) auto

lemma strip_append_plain:
  "CHR ''<'' \<notin> set a \<Longrightarrow> CHR ''>'' \<notin> set a \<Longrightarrow> strip_tags False (a @ s) = a @ strip_tags False s"
  by (induction a) auto

lemma tag_loop_out: "fst (tag_loop cs s) = strip_tags (in_tag s) cs"
proof (induction cs arbitrary: s)
  case (Cons c cs)
  show ?case
    using Cons [of "fst (tag_step c s)"] by (auto simp: tag_step_def split: prod.splits)
qed simp

end
