(* ===== verification/Command_Properties.thy ===== *)
theory Command_Properties
  imports Np_Commands
begin

text \<open>
  The properties of the filters: \<open>number\<close> keeps every line, \<open>removetag\<close> leaves no bracket and is
  idempotent, \<open>removetag0\<close> writes the same output and reports the illegal tags.
\<close>

subsection \<open>\<open>number\<close>\<close>

text \<open>C37. \<open>number\<close> writes one line per input line, numbered in a field of four characters: for fewer than
  10000 lines the input lines come back when the first five characters of each line are cut off.\<close>

theorem number_recover:
  assumes "length (input_lines stdin) < 10000"
  shows "map (drop 5) (input_lines (fst (number [argv0] files stdin))) = input_lines stdin"
  using number_lines_read [OF input_lines_are_lines, of 0 stdin] assms
  by (simp add: number_def command_input_def)

theorem number_recover_witness:
  "map (drop 5) (input_lines (fst (number [''number''] (\<lambda>_. None) (''a'' @ [newline] @ ''b'')))) = [''a'', ''b'']"
proof -
  have "input_lines (''a'' @ [newline] @ ''b'') = [''a'', ''b'']"
    by (simp add: input_lines.simps newline_def)
  then show ?thesis
    using number_recover [of "''a'' @ [newline] @ ''b''" "''number''" "\<lambda>_. None"] by simp
qed

subsection \<open>\<open>removetag\<close>\<close>

lemma strip_strip: "strip_tags False (strip_tags b s) = strip_tags b s"
  using strip_no_brackets [of b s] by (simp add: strip_plain)

text \<open>The output of \<open>removetag\<close> has no bracket, running the program on its own output changes
  nothing, and \<open>removetag0\<close> writes the same to standard output.\<close>

theorem removetag_clean:
  "CHR ''<'' \<notin> set (fst (removetag argv files stdin)) \<and> CHR ''>'' \<notin> set (fst (removetag argv files stdin)) \<and>
   fst (removetag [argv0] files (fst (removetag argv files stdin))) = fst (removetag argv files stdin) \<and>
   fst (removetag0 argv files stdin) = fst (removetag argv files stdin)"
  using strip_no_brackets tag_loop_out [of "command_input argv files stdin"]
  by (auto simp: removetag_def removetag0_def command_input_def strip_strip split: prod.splits)
    (metis fst_conv tag_state.select_convs(1) tag_loop_out)+

subsection \<open>Illegal tags\<close>

definition no_brackets :: "string \<Rightarrow> bool" where
  "no_brackets s \<longleftrightarrow> CHR ''<'' \<notin> set s \<and> CHR ''>'' \<notin> set s"

definition legal_tag :: "string \<Rightarrow> bool" where
  "legal_tag t \<longleftrightarrow> list_all tag_char t"

lemma same_state:
  "\<not> in_tag s \<Longrightarrow> s\<lparr>tag_name := n, is_illegal := b, in_tag := False\<rparr> = s\<lparr>tag_name := n, is_illegal := b\<rparr>"
  "\<not> is_illegal s \<Longrightarrow> s\<lparr>is_illegal := False\<rparr> = s"
  by (cases s; simp)+

lemma loop_inside:
  "no_brackets t \<Longrightarrow> in_tag s \<Longrightarrow>
     tag_loop (t @ r) s =
     tag_loop r (s\<lparr>tag_name := tag_name s @ t, is_illegal := is_illegal s \<or> \<not> legal_tag t\<rparr>)"
proof (induction t arbitrary: s)
  case (Cons c t)
  then show ?case
    by (auto simp: no_brackets_def tag_step_def legal_tag_def disj_assoc split: prod.splits)
qed (simp add: legal_tag_def)

lemma loop_tag:
  assumes "no_brackets t" "\<not> in_tag s"
  shows "tag_loop (CHR ''<'' # t @ CHR ''>'' # r) s =
     tag_loop r (s\<lparr>tag_name := tag_name s @ t, is_illegal := is_illegal s \<or> \<not> legal_tag t\<rparr>)"
proof -
  have "tag_loop (CHR ''<'' # t @ CHR ''>'' # r) s = tag_loop (t @ CHR ''>'' # r) (s\<lparr>in_tag := True\<rparr>)"
    by (simp add: tag_step_def split: prod.splits)
  also have "\<dots> = tag_loop (CHR ''>'' # r)
      (s\<lparr>in_tag := True, tag_name := tag_name s @ t, is_illegal := is_illegal s \<or> \<not> legal_tag t\<rparr>)"
    using assms by (subst loop_inside) simp_all
  also have "\<dots> = tag_loop r (s\<lparr>tag_name := tag_name s @ t, is_illegal := is_illegal s \<or> \<not> legal_tag t\<rparr>)"
    using assms by (simp add: tag_step_def same_state split: prod.splits)
  finally show ?thesis .
qed

lemma loop_outside:
  assumes "no_brackets w" "w \<noteq> []" "\<not> in_tag s"
  shows "snd (tag_loop (w @ r) s) =
     (if is_illegal s then illegal_msg (tag_name s) else []) @ snd (tag_loop r (s\<lparr>is_illegal := False\<rparr>))"
  using assms
proof (induction w arbitrary: s)
  case (Cons c w)
  show ?case
  proof (cases "w = []")
    case True
    then show ?thesis using Cons.prems
      by (auto simp: no_brackets_def tag_step_def same_state split: prod.splits)
  next
    case False
    have out: "tag_step c s = (s\<lparr>is_illegal := False\<rparr>, [c], if is_illegal s then illegal_msg (tag_name s) else [])"
      using Cons.prems by (auto simp: no_brackets_def tag_step_def)
    have "no_brackets w" using Cons.prems by (simp add: no_brackets_def)
    then show ?thesis using Cons.IH [of "s\<lparr>is_illegal := False\<rparr>"] False Cons.prems(3)
      by (auto simp: out split: prod.splits)
  qed
qed simp

text \<open>A document: text and a tag, alternating; what must be reported about it, and what is.\<close>

definition document :: "(string \<times> string) list \<Rightarrow> string" where
  "document ps = concat (map (\<lambda>(t, w). CHR ''<'' # t @ CHR ''>'' # w) ps)"

fun reports :: "string \<Rightarrow> (string \<times> string) list \<Rightarrow> string" where
  "reports seen [] = []"
| "reports seen ((t, w) # ps) = (if legal_tag t then [] else illegal_msg (seen @ t)) @ reports (seen @ t) ps"

definition good_piece :: "string \<times> string \<Rightarrow> bool" where
  "good_piece p \<longleftrightarrow> no_brackets (fst p) \<and> no_brackets (snd p) \<and> snd p \<noteq> []"

lemma loop_document:
  "list_all good_piece ps \<Longrightarrow> \<not> in_tag s \<Longrightarrow> \<not> is_illegal s \<Longrightarrow>
     snd (tag_loop (document ps) s) = reports (tag_name s) ps"
proof (induction ps arbitrary: s)
  case (Cons p ps)
  obtain t w where p: "p = (t, w)" by (cases p)
  then have g: "no_brackets t" "no_brackets w" "w \<noteq> []" using Cons.prems(1) by (simp_all add: good_piece_def)
  have "document (p # ps) = CHR ''<'' # t @ CHR ''>'' # w @ document ps" by (simp add: p document_def)
  then show ?case
    using Cons by (simp add: loop_tag g loop_outside same_state p del: tag_loop.simps)
qed (simp add: document_def)

text \<open>On text with tags in it, each followed by some text, \<open>removetag0\<close> reports exactly the tags with
  another character than letters and slashes.  The name it prints is that of all tags so far joined:
  the variable is never cleared.\<close>

theorem removetag0_reports:
  assumes "list_all good_piece ps" and "no_brackets pre"
  shows "snd (removetag0 [argv0] files (pre @ document ps)) = reports [] ps"
proof -
  let ?s = "\<lparr>in_tag = False, is_illegal = False, tag_name = []\<rparr>"
  have "snd (tag_loop (pre @ document ps) ?s) = reports [] ps"
    using loop_document [OF assms(1), of ?s] loop_outside [OF assms(2), of ?s "document ps"]
    by (cases "pre = []") simp_all
  then show ?thesis
    by (simp add: removetag0_def command_input_def command_usage_def split: prod.splits)
qed

theorem removetag0_reports_witness:
  "snd (removetag0 [''removetag0''] (\<lambda>_. None) (''x'' @ document [(''b1'', ''y''), (''i'', ''z''), (''u2'', ''w'')])) =
     illegal_msg ''b1'' @ illegal_msg ''b1iu2''"
proof -
  let ?ps = "[(''b1'', ''y''), (''i'', ''z''), (''u2'', ''w'')]"
  have "list_all good_piece ?ps" "no_brackets ''x''"
    by (simp_all add: good_piece_def no_brackets_def)
  moreover have "reports [] ?ps = illegal_msg ''b1'' @ illegal_msg ''b1iu2''"
    by (simp add: legal_tag_def tag_char_def isalpha_def code_def)
  ultimately show ?thesis
    using removetag0_reports [of ?ps "''x''" "''removetag0''" "\<lambda>_. None"] by simp
qed

end
