(* ===== verification/Std_Regex.thy ===== *)
theory Std_Regex
  imports Std_Text
begin

text \<open>
  The part of \<open>std::regex\<close> (ECMAScript syntax) the programs use: sequences of atoms, each with a greedy
  repetition and possibly captured, and back references.  Matching backtracks over the repetition
  counts from the largest to the smallest, so that the first success is the one the library
  reports.
\<close>

datatype atom =
    Lit char
  | Dot                                \<comment> \<open>any character but a line terminator\<close>
  | Range "(char \<times> char) list"
  | Not_In string

datatype ritem =
    Rep "nat option" atom nat "nat option"   \<comment> \<open>capture group, atom, minimum, maximum\<close>
  | Backref nat

fun atom_ok :: "atom \<Rightarrow> char \<Rightarrow> bool" where
  "atom_ok (Lit d) c \<longleftrightarrow> c = d"
| "atom_ok Dot c \<longleftrightarrow> c \<noteq> newline \<and> code c \<noteq> 13"
| "atom_ok (Range rs) c \<longleftrightarrow> (\<exists>r \<in> set rs. code (fst r) \<le> code c \<and> code c \<le> code (snd r))"
| "atom_ok (Not_In cs) c \<longleftrightarrow> c \<notin> set cs"

definition one :: "atom \<Rightarrow> ritem" where "one a = Rep None a 1 (Some 1)"
abbreviation many :: "atom \<Rightarrow> ritem" where "many a \<equiv> Rep None a 0 None"
abbreviation group_many :: "nat \<Rightarrow> atom \<Rightarrow> ritem" where "group_many g a \<equiv> Rep (Some g) a 0 None"

definition digit_class :: atom where "digit_class = Range [(CHR ''0'', CHR ''9'')]"

type_synonym captures = "nat \<Rightarrow> string"

fun first_some :: "('a \<Rightarrow> 'b option) \<Rightarrow> 'a list \<Rightarrow> 'b option" where
  "first_some f [] = None"
| "first_some f (x # xs) = (case f x of None \<Rightarrow> first_some f xs | Some y \<Rightarrow> Some y)"

definition rep_counts :: "atom \<Rightarrow> nat \<Rightarrow> nat option \<Rightarrow> string \<Rightarrow> nat list" where
  "rep_counts a lo hi s =
     (let m = length (takeWhile (atom_ok a) s); n = (case hi of None \<Rightarrow> m | Some h \<Rightarrow> min h m)
      in rev [lo..<Suc n])"

text \<open>\<open>full\<close>: the whole string must be used up (\<open>regex_match\<close>).\<close>

fun rmatch :: "bool \<Rightarrow> ritem list \<Rightarrow> captures \<Rightarrow> string \<Rightarrow> (captures \<times> string) option" where
  "rmatch full [] caps s = (if full \<and> s \<noteq> [] then None else Some (caps, s))"
| "rmatch full (Rep g a lo hi # ps) caps s =
     first_some (\<lambda>k. rmatch full ps (case g of None \<Rightarrow> caps | Some i \<Rightarrow> caps(i := take k s)) (drop k s))
       (rep_counts a lo hi s)"
| "rmatch full (Backref i # ps) caps s =
     (if take (length (caps i)) s = caps i then rmatch full ps caps (drop (length (caps i)) s) else None)"

definition regex_match :: "ritem list \<Rightarrow> string \<Rightarrow> bool" where
  "regex_match ps s \<longleftrightarrow> rmatch True ps (\<lambda>_. []) s \<noteq> None"

text \<open>\<open>regex_search\<close>: the first position that matches; the captures and the rest after the match.\<close>

fun regex_search :: "ritem list \<Rightarrow> string \<Rightarrow> (captures \<times> string) option" where
  "regex_search ps [] = rmatch False ps (\<lambda>_. []) []"
| "regex_search ps (c # s) =
     (case rmatch False ps (\<lambda>_. []) (c # s) of None \<Rightarrow> regex_search ps s | Some r \<Rightarrow> Some r)"

subsection \<open>Compiling a pattern\<close>

text \<open>
  The constructor \<open>std::regex(pattern)\<close> for patterns of characters, escaped characters, dots and
  stars; \<open>None\<close> for any other pattern (groups, alternatives, classes, other quantifiers), which the
  model leaves open.
\<close>

definition special :: "char \<Rightarrow> bool" where
  "special c \<longleftrightarrow> c \<in> set ''^$()[]{}|+?*''"

fun compile :: "string \<Rightarrow> ritem list option" where
  "compile [] = Some []"
| "compile (c # s) =
     (if special c then None
      else if c = CHR 0x5C then
        (case s of
           [] \<Rightarrow> None
         | d # s' \<Rightarrow>
             if isalnum d then None
             else (case s' of
                     [] \<Rightarrow> Some [one (Lit d)]
                   | q # s'' \<Rightarrow>
                       if q = CHR ''*'' then map_option (Cons (many (Lit d))) (compile s'')
                       else map_option (Cons (one (Lit d))) (compile (q # s''))))
      else let a = (if c = CHR ''.'' then Dot else Lit c)
           in (case s of
                 [] \<Rightarrow> Some [one a]
               | q # s'' \<Rightarrow>
                   if q = CHR ''*'' then map_option (Cons (many a)) (compile s'')
                   else map_option (Cons (one a)) (compile (q # s''))))"

subsection \<open>Matching\<close>

lemma first_some_None: "first_some f xs = None \<longleftrightarrow> (\<forall>x \<in> set xs. f x = None)"
  by (induction xs) (auto split: option.split)

lemma first_some_Some: "first_some f xs = Some y \<Longrightarrow> \<exists>x \<in> set xs. f x = Some y"
  by (induction xs) (auto split: option.splits)

lemma first_some_hd: "f x = Some y \<Longrightarrow> first_some f (x # xs) = Some y"
  by simp

lemma set_rep_counts:
  "set (rep_counts a lo hi s) =
     {k. lo \<le> k \<and> k \<le> length (takeWhile (atom_ok a) s) \<and> (\<forall>h. hi = Some h \<longrightarrow> k \<le> h)}"
  by (auto simp: rep_counts_def Let_def split: option.split)

lemma rmatch_one:
  "rmatch full (one a # ps) caps s =
     (case s of [] \<Rightarrow> None | c # s' \<Rightarrow> if atom_ok a c then rmatch full ps caps s' else None)"
  by (cases s) (auto simp: one_def rep_counts_def split: option.split)

lemma rmatch_rep_iff:
  "rmatch full (Rep g a lo hi # ps) caps s \<noteq> None \<longleftrightarrow>
     (\<exists>k. lo \<le> k \<and> k \<le> length (takeWhile (atom_ok a) s) \<and> (\<forall>h. hi = Some h \<longrightarrow> k \<le> h) \<and>
        rmatch full ps (case g of None \<Rightarrow> caps | Some i \<Rightarrow> caps(i := take k s)) (drop k s) \<noteq> None)"
  unfolding rmatch.simps first_some_None using set_rep_counts [of a lo hi s] by auto

text \<open>A greedy repetition that takes everything up to a character outside its class, after which the
  rest matches.\<close>

lemma rmatch_many_all:
  assumes "rmatch full ps (case g of None \<Rightarrow> caps | Some i \<Rightarrow> caps(i := x)) s = Some r"
    and "\<And>c. c \<in> set x \<Longrightarrow> atom_ok a c" and "s = [] \<or> \<not> atom_ok a (hd s)"
  shows "rmatch full (Rep g a 0 None # ps) caps (x @ s) = Some r"
proof -
  have "takeWhile (atom_ok a) (x @ s) = x" using assms(2,3) by (rule takeWhile_append_stop)
  then have "rep_counts a 0 None (x @ s) = length x # rev [0..<length x]"
    by (simp add: rep_counts_def Let_def)
  then show ?thesis using assms(1) by (cases g) simp_all
qed

lemma rmatch_literals:
  "rmatch full (map (\<lambda>c. one (Lit c)) cs @ ps) caps (cs @ s) = rmatch full ps caps s"
  by (induction cs) (simp_all add: rmatch_one)

end
