(* ===== verification/Socks4.thy ===== *)
theory Socks4
  imports Std_Regex Std_Stream
begin

text \<open>
  The SOCKS 4/4a proxy of \<open>312552017_np_project4/socks4server\<close>: the request header, the firewall rules
  of \<open>socks.conf\<close> and one connection handled by \<open>Socks4Handler\<close>.  What Boost.Asio does is given by
  parameters (the resolver, whether a connection can be made, the port a listener gets, how much one
  \<open>write_some\<close> takes); the peers' addresses are parameters too.
\<close>

subsection \<open>Header\<close>

definition SOCKS4_VERSION :: "8 word" where "SOCKS4_VERSION = 0"
definition SOCKS4_CMD_CONNECT :: "8 word" where "SOCKS4_CMD_CONNECT = 1"
definition SOCKS4_CMD_BIND :: "8 word" where "SOCKS4_CMD_BIND = 2"
definition SOCKS4_REPLY_GRANTED :: "8 word" where "SOCKS4_REPLY_GRANTED = 90"
definition SOCKS4_REPLY_REJECTED :: "8 word" where "SOCKS4_REPLY_REJECTED = 91"

text \<open>The packed struct; its members hold the bytes in network order on a little-endian machine.\<close>

record Socks4Header =
  version :: "8 word"
  cmd :: "8 word"
  dstport :: "16 word"
  dstaddr :: "32 word"

definition byte :: "char \<Rightarrow> 8 word" where "byte c = word_of_nat (code c)"
definition char_of_byte :: "8 word \<Rightarrow> char" where "char_of_byte b = char_of (unat b)"

definition le16 :: "8 word \<Rightarrow> 8 word \<Rightarrow> 16 word" where
  "le16 a b = word_of_nat (unat a + 256 * unat b)"

definition le32 :: "8 word \<Rightarrow> 8 word \<Rightarrow> 8 word \<Rightarrow> 8 word \<Rightarrow> 32 word" where
  "le32 a b c d = word_of_nat (unat a + 256 * unat b + 65536 * unat c + 16777216 * unat d)"

definition byte_of16 :: "nat \<Rightarrow> 16 word \<Rightarrow> 8 word" where
  "byte_of16 i w = word_of_nat (unat w div 256 ^ i)"

definition byte_of32 :: "nat \<Rightarrow> 32 word \<Rightarrow> 8 word" where
  "byte_of32 i w = word_of_nat (unat w div 256 ^ i)"

text \<open>\<open>reinterpret_cast<Socks4Header*>\<close> of a buffer, and a header written as bytes.\<close>

definition header_at :: "string \<Rightarrow> Socks4Header" where
  "header_at buf =
     \<lparr>version = byte (buf ! 0), cmd = byte (buf ! 1), dstport = le16 (byte (buf ! 2)) (byte (buf ! 3)),
      dstaddr = le32 (byte (buf ! 4)) (byte (buf ! 5)) (byte (buf ! 6)) (byte (buf ! 7))\<rparr>"

definition header_bytes :: "Socks4Header \<Rightarrow> string" where
  "header_bytes h = map char_of_byte
     [version h, cmd h, byte_of16 0 (dstport h), byte_of16 1 (dstport h), byte_of32 0 (dstaddr h),
      byte_of32 1 (dstaddr h), byte_of32 2 (dstaddr h), byte_of32 3 (dstaddr h)]"

definition ntohs :: "16 word \<Rightarrow> 16 word" where
  "ntohs w = le16 (byte_of16 1 w) (byte_of16 0 w)"

definition htons :: "16 word \<Rightarrow> 16 word" where "htons = ntohs"

definition ntohl :: "32 word \<Rightarrow> 32 word" where
  "ntohl w = le32 (byte_of32 3 w) (byte_of32 2 w) (byte_of32 1 w) (byte_of32 0 w)"

definition htonl :: "32 word \<Rightarrow> 32 word" where "htonl = ntohl"

subsection \<open>Addresses\<close>

text \<open>\<open>address_v4::to_string\<close>\<close>

definition dotted :: "32 word \<Rightarrow> string" where
  "dotted a = nat_text (unat (byte_of32 3 a)) @ ''.'' @ nat_text (unat (byte_of32 2 a)) @ ''.''
              @ nat_text (unat (byte_of32 1 a)) @ ''.'' @ nat_text (unat (byte_of32 0 a))"

record endpoint =
  address :: "32 word"
  ep_port :: "16 word"

text \<open>The pattern \<open>0\.0\.0\.[1-9][0-9]{0,2}\<close>\<close>

definition socks4a :: "ritem list" where
  "socks4a = map (\<lambda>c. one (Lit c)) ''0.0.0.'' @
     [one (Range [(CHR ''1'', CHR ''9'')]), Rep None digit_class 0 (Some 2)]"

text \<open>A C string inside a buffer: running past its end without a NUL is out of bounds.\<close>

definition c_str_at :: "string \<Rightarrow> nat \<Rightarrow> string result" where
  "c_str_at buf i = (if nul \<in> set (drop i buf) then Inr (c_str (drop i buf)) else Inl Out_Of_Bounds)"

text \<open>\<open>resolve\<close> stands for the Boost resolver; it throws when the name is not found.\<close>

definition resolveEndpoint ::
    "(string \<Rightarrow> string \<Rightarrow> endpoint option) \<Rightarrow> string \<Rightarrow> Socks4Header \<Rightarrow> endpoint result" where
  "resolveEndpoint resolve buf hdr =
     (let addr = ntohl (dstaddr hdr)
      in if regex_match socks4a (dotted addr)
         then rbind (c_str_at buf 8) (\<lambda>userid.
              rbind (c_str_at buf (8 + length userid + 1)) (\<lambda>domain.
              case resolve domain (nat_text (unat (ntohs (dstport hdr)))) of
                None \<Rightarrow> Inl Invalid_Argument
              | Some ep \<Rightarrow> Inr ep))
         else Inr \<lparr>address = addr, ep_port = ntohs (dstport hdr)\<rparr>)"

subsection \<open>Firewall\<close>

text \<open>The position of the first \<open>c\<close> at or after \<open>i\<close>.\<close>

definition find_char :: "char \<Rightarrow> string \<Rightarrow> nat \<Rightarrow> nat option" where
  "find_char c s i =
     (let r = takeWhile (\<lambda>d. d \<noteq> c) (drop i s)
      in if i + length r < length s then Some (i + length r) else None)"

text \<open>The loop that replaces every \<open>c\<close> by the two characters \<open>r\<close> and continues behind them.\<close>

function replace_loop :: "char \<Rightarrow> string \<Rightarrow> nat \<Rightarrow> string \<Rightarrow> string" where
  "replace_loop c r i s =
     (case find_char c s i of
        None \<Rightarrow> s
      | Some p \<Rightarrow> replace_loop c r (p + 2) (take p s @ take 2 r @ drop (p + 1) s))"
  by pat_completeness auto
termination
  by (relation "measure (\<lambda>(c, r, i, s). length s - i)")
    (auto simp: find_char_def Let_def split: if_splits)

declare replace_loop.simps [simp del]

definition convertToRegexPattern :: "string \<Rightarrow> string" where
  "convertToRegexPattern str =
     replace_loop (CHR ''*'') ''.*'' 0 (replace_loop (CHR ''.'') [CHR 0x5C, CHR ''.''] 0 str)"

text \<open>\<open>None\<close> when the rule's pattern is not one of those \<open>compile\<close> covers.\<close>

definition matchFirewallRule :: "char \<Rightarrow> string \<Rightarrow> bool \<Rightarrow> string \<Rightarrow> bool option" where
  "matchFirewallRule operation rule socks4Command dstIP =
     (let configCommand = (operation = CHR ''c'')
      in if (socks4Command \<and> configCommand) \<or> (\<not> socks4Command \<and> \<not> configCommand)
         then map_option (\<lambda>re. regex_match re dstIP) (compile (convertToRegexPattern rule))
         else Some False)"

text \<open>\<open>iss >> c\<close> for a \<open>char\<close>\<close>

definition get_char :: "istream \<Rightarrow> char option \<times> istream" where
  "get_char st =
     (if failed st then (None, st)
      else case dropWhile isspace (unread st) of
             [] \<Rightarrow> (None, at_end)
           | c # r \<Rightarrow> (Some c, st\<lparr>unread := r\<rparr>))"

text \<open>\<open>while (ifs >> permit >> type >> rule) ...\<close>; the first word of a rule is not looked at.\<close>

function rules_allow :: "istream \<Rightarrow> bool \<Rightarrow> string \<Rightarrow> bool option" where
  "rules_allow st command ip =
     (case get_word st of
        (None, _) \<Rightarrow> Some False
      | (Some permit, s1) \<Rightarrow>
          (case get_char s1 of
             (None, _) \<Rightarrow> Some False
           | (Some type, s2) \<Rightarrow>
               (case get_word s2 of
                  (None, _) \<Rightarrow> Some False
                | (Some rule, s3) \<Rightarrow>
                    (case matchFirewallRule type rule command ip of
                       None \<Rightarrow> None
                     | Some True \<Rightarrow> Some True
                     | Some False \<Rightarrow> rules_allow s3 command ip))))"
  by pat_completeness auto
termination
proof (relation "measure (\<lambda>(st, c, ip). length (unread st))", goal_cases)
  case (2 st command ip x1 s1 permit x2 s2 type x3 s3 rule b)
  have "length (unread s1) < length (unread st)" using 2 by (auto dest!: get_word_Some(1) [OF sym])
  moreover have "length (unread s2) \<le> length (unread s1)"
    using 2 length_dropWhile_le [of isspace "unread s1"]
    by (auto simp: get_char_def at_end_def split: if_splits list.splits)
  moreover have "length (unread s3) < length (unread s2)" using 2 by (auto dest!: get_word_Some(1) [OF sym])
  ultimately show ?case by simp
qed simp

declare rules_allow.simps [simp del]

definition isDestinationIPAddressAllowed :: "string option \<Rightarrow> string \<Rightarrow> bool \<Rightarrow> bool option" where
  "isDestinationIPAddressAllowed conf ip command =
     (case conf of None \<Rightarrow> Some False | Some text \<Rightarrow> rules_allow (istringstream text) command ip)"

subsection \<open>One connection\<close>

datatype socks_event =
    Log string                    \<comment> \<open>a line of the log\<close>
  | To_Client string              \<comment> \<open>bytes written to the client\<close>
  | Connect_To endpoint
  | Listen "16 word"
  | Accept_One
  | Relay                         \<comment> \<open>both directions start copying\<close>
  | Shutdown_Client

record socks_env =
  resolver :: "string \<Rightarrow> string \<Rightarrow> endpoint option"
  socks_conf :: "string option"
  client_ep :: endpoint
  reachable :: "endpoint \<Rightarrow> bool"
  listen_port :: "16 word"

text \<open>The reply header is a function-level \<open>static\<close>: only the first call initialises it.\<close>

definition reply :: "16 word \<Rightarrow> Socks4Header option \<Rightarrow> Socks4Header option \<times> socks_event list" where
  "reply p hdr =
     (let h = (case hdr of Some h \<Rightarrow> h
               | None \<Rightarrow> \<lparr>version = SOCKS4_VERSION, cmd = SOCKS4_REPLY_GRANTED, dstport = htons p, dstaddr = 0\<rparr>)
      in (Some h, [To_Client (header_bytes h)]))"

definition connect :: "socks_env \<Rightarrow> endpoint \<Rightarrow> Socks4Header option \<Rightarrow> Socks4Header option \<times> socks_event list" where
  "connect env ep hdr =
     (if reachable env ep then (case reply 0 hdr of (hdr', es) \<Rightarrow> (hdr', Connect_To ep # es))
      else (hdr, [Connect_To ep]))"

definition bind :: "socks_env \<Rightarrow> Socks4Header option \<Rightarrow> Socks4Header option \<times> socks_event list" where
  "bind env hdr =
     (case reply (listen_port env) hdr of (hdr1, es1) \<Rightarrow>
        case reply (listen_port env) hdr1 of (hdr2, es2) \<Rightarrow>
          (hdr2, Listen (listen_port env) # es1 @ Accept_One # es2))"

definition relayTraffic :: "socks_event list" where
  "relayTraffic = [Relay]"

definition handleCommand :: "socks_env \<Rightarrow> 8 word \<Rightarrow> endpoint \<Rightarrow> socks_event list" where
  "handleCommand env command ep =
     Log ''<Reply>: Accept'' #
     (if command = SOCKS4_CMD_CONNECT then snd (connect env ep None) @ relayTraffic
      else if command = SOCKS4_CMD_BIND then snd (bind env None) @ relayTraffic
      else [])"

definition logConnectionDetails :: "socks_env \<Rightarrow> Socks4Header \<Rightarrow> endpoint \<Rightarrow> socks_event list" where
  "logConnectionDetails env hdr ep =
     [Log (''<S_IP>: '' @ dotted (address (client_ep env))),
      Log (''<S_PORT>: '' @ nat_text (unat (ep_port (client_ep env)))),
      Log (''<D_IP>: '' @ dotted (address ep)),
      Log (''<D_PORT>: '' @ nat_text (unat (ep_port ep))),
      Log (''<Command>: '' @ (if cmd hdr = SOCKS4_CMD_CONNECT then ''CONNECT'' else ''BIND''))]"

definition reject_hdr :: Socks4Header where
  "reject_hdr = \<lparr>version = 0, cmd = SOCKS4_REPLY_REJECTED, dstport = 0, dstaddr = 0\<rparr>"

text \<open>
  \<open>handleRead\<close>: \<open>buf\<close> is what the buffer held before, \<open>recv\<close> what the one \<open>read_some\<close> put at its start.
  The outer \<open>None\<close> is the firewall pattern the model leaves open.
\<close>

definition handleRead :: "socks_env \<Rightarrow> string \<Rightarrow> string \<Rightarrow> socks_event list result option" where
  "handleRead env buf recv =
     (let data = recv @ drop (length recv) buf; hdr = header_at data
      in case resolveEndpoint (resolver env) data hdr of
           Inl e \<Rightarrow> Some (Inl e)
         | Inr ep \<Rightarrow>
             let logs = logConnectionDetails env hdr ep; command = (cmd hdr = SOCKS4_CMD_CONNECT)
             in map_option
                  (\<lambda>allowed. Inr (logs @
                     (if allowed then handleCommand env (cmd hdr) ep
                      else [Log ''<Reply>: Reject'', To_Client (header_bytes reject_hdr), Shutdown_Client])))
                  (isDestinationIPAddressAllowed (socks_conf env) (dotted (address ep)) command))"

text \<open>
  One direction of the relay.  Each round is one read, \<open>None\<close> when it fails, and the number of bytes
  the following \<open>write_some\<close> takes, whose result is ignored.  The flag tells that the sending side
  of the other socket was shut down.
\<close>

fun asyncReadWrite :: "(string option \<times> nat) list \<Rightarrow> string \<times> bool" where
  "asyncReadWrite [] = ([], False)"
| "asyncReadWrite ((None, _) # _) = ([], True)"
| "asyncReadWrite ((Some d, n) # rounds) =
     (case asyncReadWrite rounds of (out, closed) \<Rightarrow> (take n d @ out, closed))"

subsection \<open>Words and bytes\<close>

lemma word_bounds:
  "unat (b :: 8 word) < 256" "unat (v :: 16 word) < 65536" "unat (w :: 32 word) < 4294967296"
  using unsigned_less [of b, where 'a = nat] unsigned_less [of v, where 'a = nat]
    unsigned_less [of w, where 'a = nat] by simp_all

lemma unat_word_of_nat_8: "unat (word_of_nat n :: 8 word) = n mod 256"
  by (simp add: unat_of_nat)

lemma unat_word_of_nat_wide:
  "unat (word_of_nat n :: 16 word) = n mod 65536" "unat (word_of_nat n :: 32 word) = n mod 4294967296"
  by (simp_all add: unat_of_nat)

lemma base_256: "a < 256 \<Longrightarrow> (a + 256 * m) div 256 = m" "a < 256 \<Longrightarrow> (a + 256 * m) mod 256 = a" for a m :: nat
  by simp_all

lemma unat_byte [simp]: "unat (byte c) = code c"
  by (simp add: byte_def unat_word_of_nat_8)

lemma code_char_of_byte [simp]: "code (char_of_byte b) = unat b"
  using word_bounds(1) [of b] by (simp add: char_of_byte_def code_char_of)

lemma byte_char_of_byte [simp]: "byte (char_of_byte b) = b"
  by (rule word_unat_eq_iff [THEN iffD2]) simp

lemma unat_byte_of16: "unat (byte_of16 i w) = unat w div 256 ^ i mod 256"
  by (simp add: byte_of16_def unat_word_of_nat_8)

lemma unat_byte_of32: "unat (byte_of32 i w) = unat w div 256 ^ i mod 256"
  by (simp add: byte_of32_def unat_word_of_nat_8)

lemma unat_le16: "unat (le16 a b) = unat a + 256 * unat b"
proof -
  have "unat a < 256" "unat b < 256" by (rule word_bounds)+
  then have "unat a + 256 * unat b < 65536" by linarith
  then show ?thesis by (simp only: le16_def unat_word_of_nat_wide mod_less)
qed

lemma unat_le32: "unat (le32 a b c d) = unat a + 256 * unat b + 65536 * unat c + 16777216 * unat d"
proof -
  have "unat a < 256" "unat b < 256" "unat c < 256" "unat d < 256"
    by (rule word_bounds)+
  then have "unat a + 256 * unat b + 65536 * unat c + 16777216 * unat d < 4294967296" by linarith
  then show ?thesis by (simp only: le32_def unat_word_of_nat_wide mod_less)
qed

lemma byte_of16_le16 [simp]: "byte_of16 0 (le16 a b) = a" "byte_of16 (Suc 0) (le16 a b) = b"
proof -
  have "unat a < 256" "unat b < 256" by (rule word_bounds)+
  then show "byte_of16 0 (le16 a b) = a" "byte_of16 (Suc 0) (le16 a b) = b"
    by (simp_all add: word_unat_eq_iff unat_byte_of16 unat_le16)
qed

lemma le16_bytes [simp]: "le16 (byte_of16 0 w) (byte_of16 (Suc 0) w) = w"
proof -
  have "unat w < 65536" by (rule word_bounds)
  then show ?thesis
    by (simp add: word_unat_eq_iff unat_le16 unat_byte_of16)
qed

lemma byte_of32_le32 [simp]:
  "byte_of32 0 (le32 a b c d) = a" "byte_of32 (Suc 0) (le32 a b c d) = b"
  "byte_of32 2 (le32 a b c d) = c" "byte_of32 3 (le32 a b c d) = d"
proof -
  have bounds: "unat a < 256" "unat b < 256" "unat c < 256" "unat d < 256" by (rule word_bounds)+
  have n: "unat (le32 a b c d) = unat a + 256 * (unat b + 256 * (unat c + 256 * unat d))"
    by (simp add: unat_le32 algebra_simps)
  have 1: "unat (le32 a b c d) div 256 = unat b + 256 * (unat c + 256 * unat d)"
    unfolding n by (rule base_256(1) [OF bounds(1)])
  then have 2: "unat (le32 a b c d) div 256 div 256 = unat c + 256 * unat d"
    by (simp only: base_256(1) [OF bounds(2)])
  then have 3: "unat (le32 a b c d) div 256 div 256 div 256 = unat d"
    by (simp only: base_256(1) [OF bounds(3)])
  have pow: "m div 256 ^ 2 = m div 256 div 256" "m div 256 ^ 3 = m div 256 div 256 div 256" for m :: nat
    by (simp_all add: div_mult2_eq [symmetric])
  show "byte_of32 0 (le32 a b c d) = a"
    unfolding word_unat_eq_iff unat_byte_of32 power_0 div_by_1 n by (rule base_256(2) [OF bounds(1)])
  show "byte_of32 (Suc 0) (le32 a b c d) = b"
    unfolding word_unat_eq_iff unat_byte_of32 power_Suc0_right 1 by (rule base_256(2) [OF bounds(2)])
  show "byte_of32 2 (le32 a b c d) = c"
    unfolding word_unat_eq_iff unat_byte_of32 pow 2 by (rule base_256(2) [OF bounds(3)])
  show "byte_of32 3 (le32 a b c d) = d"
    unfolding word_unat_eq_iff unat_byte_of32 pow 3 by (rule mod_less [OF bounds(4)])
qed

lemma le32_bytes [simp]: "le32 (byte_of32 0 w) (byte_of32 (Suc 0) w) (byte_of32 2 w) (byte_of32 3 w) = w"
proof -
  let ?n = "unat w"
  have "?n < 4294967296" by (rule word_bounds)
  then have "?n div 256 div 256 div 256 < 256" by (simp add: div_mult2_eq [symmetric])
  then have "?n div 256 div 256 div 256 mod 256 = ?n div 256 div 256 div 256" by (rule mod_less)
  moreover have "m = m mod 256 + 256 * (m div 256)" for m :: nat by simp
  ultimately have "?n = ?n mod 256 + 256 * (?n div 256 mod 256 + 256 * (?n div 256 div 256 mod 256
      + 256 * (?n div 256 div 256 div 256 mod 256)))"
    by metis
  moreover have "?n div 256 ^ 2 = ?n div 256 div 256" "?n div 256 ^ 3 = ?n div 256 div 256 div 256"
    by (simp_all add: div_mult2_eq [symmetric])
  moreover have "n = a + 256 * (b + 256 * (c + 256 * d)) \<Longrightarrow> a + 256 * b + 65536 * c + 16777216 * d = n"
    for a b c d n :: nat by simp
  ultimately show ?thesis
    unfolding word_unat_eq_iff unat_le32 unat_byte_of32 by (simp only: power_0 power_Suc0_right div_by_1)
qed

lemma ntohs_htons [simp]: "ntohs (htons w) = w"
  by (simp add: ntohs_def htons_def)

lemma ntohl_htonl [simp]: "ntohl (htonl w) = w"
  by (simp add: ntohl_def htonl_def)

lemma header_at_bytes: "header_at (header_bytes h @ rest) = h"
  by (simp add: header_at_def header_bytes_def)

end
