(* ===== verification/Socks4_Properties.thy ===== *)
theory Socks4_Properties
  imports Socks4
begin

text \<open>
  The properties of the SOCKS proxy: what a firewall rule matches, when a request names its host in
  SOCKS 4a form, which replies a client gets, and what the relay keeps of the data.
\<close>

subsection \<open>Patterns\<close>

lemma find_char_Some:
  assumes "find_char c s i = Some p" "i \<le> length s"
  shows "i \<le> p" "p < length s" "s ! p = c" "c \<notin> set (take (p - i) (drop i s))"
proof -
  define r where "r = takeWhile (\<lambda>d. d \<noteq> c) (drop i s)"
  have p: "p = i + length r" "p < length s"
    using assms(1) by (auto simp: find_char_def Let_def r_def split: if_splits)
  have less: "length r < length (drop i s)" using p by simp
  have "drop i s ! length r = c"
    using nth_length_takeWhile [of "\<lambda>d. d \<noteq> c" "drop i s"] less unfolding r_def by simp
  then show "s ! p = c" using assms(2) by (simp add: p(1))
  have "take (length r) (drop i s) = r" unfolding r_def by (rule takeWhile_eq_take [symmetric])
  moreover have "c \<notin> set r" by (auto simp: r_def dest: set_takeWhileD)
  ultimately show "c \<notin> set (take (p - i) (drop i s))" by (simp add: p(1))
  show "i \<le> p" "p < length s" using p by simp_all
qed

lemma find_char_None: "find_char c s i = None \<Longrightarrow> c \<notin> set (drop i s)"
proof
  assume none: "find_char c s i = None" and "c \<in> set (drop i s)"
  let ?r = "takeWhile (\<lambda>d. d \<noteq> c) (drop i s)"
  have "length (drop i s) \<le> length ?r"
    using none by (auto simp: find_char_def Let_def split: if_splits)
  then have "?r = drop i s" by (metis takeWhile_eq_take take_all)
  then show False using \<open>c \<in> set (drop i s)\<close> set_takeWhileD by metis
qed

definition spread :: "char \<Rightarrow> string \<Rightarrow> string \<Rightarrow> string" where
  "spread c r s = concat (map (\<lambda>d. if d = c then r else [d]) s)"

lemma spread_simps [simp]:
  "spread c r [] = []" "spread c r (d # s) = (if d = c then r else [d]) @ spread c r s"
  "spread c r (s @ t) = spread c r s @ spread c r t"
  by (simp_all add: spread_def)

lemma spread_id: "c \<notin> set s \<Longrightarrow> spread c r s = s"
  by (induction s) auto

lemma replace_loop_spread:
  "length r = 2 \<Longrightarrow> i \<le> length s \<Longrightarrow> replace_loop c r i s = take i s @ spread c r (drop i s)"
proof (induction c r i s rule: replace_loop.induct)
  case (1 c r i s)
  show ?case
  proof (cases "find_char c s i")
    case None
    then show ?thesis
      by (subst replace_loop.simps) (simp add: spread_id find_char_None)
  next
    case (Some p)
    note p = find_char_Some [OF Some 1(3)]
    let ?s = "take p s @ take 2 r @ drop (p + 1) s"
    let ?m = "take (p - i) (drop i s)"
    have d: "drop i s = ?m @ c # drop (p + 1) s"
    proof -
      have "drop i s = ?m @ drop (p - i) (drop i s)" by (rule append_take_drop_id [symmetric])
      also have "drop (p - i) (drop i s) = drop p s" using p(1) by simp
      also have "drop p s = c # drop (p + 1) s" using p(2,3) by (simp add: Cons_nth_drop_Suc [symmetric])
      finally show ?thesis .
    qed
    have t: "take p s = take i s @ ?m"
      using p(1,2) by (metis le_add_diff_inverse take_add)
    have len: "length (take p s) = p" "length (take 2 r) = 2" using p(2) 1(2) by simp_all
    have "replace_loop c r i s = replace_loop c r (p + 2) ?s"
      using Some by (subst replace_loop.simps) simp
    also have "\<dots> = take (p + 2) ?s @ spread c r (drop (p + 2) ?s)"
      using 1(2) len p(2) by (intro "1.IH" [OF Some]) simp_all
    also have "\<dots> = take p s @ r @ spread c r (drop (p + 1) s)"
      using len 1(2) by simp
    also have "\<dots> = take i s @ spread c r (?m @ c # drop (p + 1) s)"
      using p(4) by (simp add: t spread_id)
    finally show ?thesis by (simp only: d [symmetric])
  qed
qed

text \<open>A rule: any characters without a meaning in patterns, dots, and stars.\<close>

definition plain_rule :: "string \<Rightarrow> bool" where
  "plain_rule r \<longleftrightarrow> (\<forall>c \<in> set r. (\<not> special c \<or> c = CHR ''*'') \<and> c \<noteq> CHR 0x5C)"

definition rule_item :: "char \<Rightarrow> ritem" where
  "rule_item c = (if c = CHR ''*'' then many Dot else one (Lit c))"

definition rule_text :: "char \<Rightarrow> string" where
  "rule_text c = (if c = CHR ''.'' then [CHR 0x5C, CHR ''.''] else if c = CHR ''*'' then ''.*'' else [c])"

lemma convert_concat: "convertToRegexPattern r = concat (map rule_text r)"
proof -
  have "convertToRegexPattern r = spread (CHR ''*'') ''.*'' (spread (CHR ''.'') [CHR 0x5C, CHR ''.''] r)"
    by (simp add: convertToRegexPattern_def replace_loop_spread)
  also have "\<dots> = concat (map rule_text r)"
    by (induction r) (simp_all add: rule_text_def)
  finally show ?thesis .
qed

lemma compile_lit:
  "\<not> special c \<Longrightarrow> c \<noteq> CHR 0x5C \<Longrightarrow> c \<noteq> CHR ''.'' \<Longrightarrow> s = [] \<or> hd s \<noteq> CHR ''*'' \<Longrightarrow>
     compile (c # s) = map_option (Cons (one (Lit c))) (compile s)"
  by (cases s) simp_all

lemma compile_dot: "s = [] \<or> hd s \<noteq> CHR ''*'' \<Longrightarrow>
    compile (CHR 0x5C # CHR ''.'' # s) = map_option (Cons (one (Lit (CHR ''.'')))) (compile s)"
  by (cases s) (simp_all add: special_def isalnum_def isalpha_def isdigit_def code_def)

lemma compile_star: "compile (CHR ''.'' # CHR ''*'' # s) = map_option (Cons (many Dot)) (compile s)"
  by (simp add: special_def)

lemma compile_rule: "plain_rule r \<Longrightarrow> compile (concat (map rule_text r)) = Some (map rule_item r)"
proof (induction r)
  case (Cons c r)
  let ?s = "concat (map rule_text r)"
  have IH: "compile ?s = Some (map rule_item r)" using Cons by (simp add: plain_rule_def)
  have "?s = [] \<or> hd ?s \<noteq> CHR ''*''" by (cases r) (auto simp: rule_text_def)
  note lit = compile_lit [of c ?s, OF _ _ _ this] and dot = compile_dot [OF this]
  consider "c = CHR ''.''" | "c = CHR ''*''" | "c \<noteq> CHR ''.''" "c \<noteq> CHR ''*''" by blast
  then show ?case
  proof cases
    case 1
    then have "rule_text c = [CHR 0x5C, CHR ''.'']" "rule_item c = one (Lit (CHR ''.''))"
      by (simp_all add: rule_text_def rule_item_def)
    then show ?thesis using dot IH by (simp del: compile.simps)
  next
    case 2
    then have "rule_text c = ''.*''" "rule_item c = many Dot"
      by (simp_all add: rule_text_def rule_item_def)
    then show ?thesis using compile_star [of ?s] IH by (simp del: compile.simps)
  next
    case 3
    then have "rule_text c = [c]" "rule_item c = one (Lit c)"
      by (simp_all add: rule_text_def rule_item_def)
    moreover have "\<not> special c" "c \<noteq> CHR 0x5C" using Cons.prems 3 by (auto simp: plain_rule_def)
    ultimately show ?thesis using lit IH 3 by (simp del: compile.simps)
  qed
qed simp

text \<open>The intended meaning: a star stands for any text, every other character for itself.\<close>

fun glob :: "string \<Rightarrow> string \<Rightarrow> bool" where
  "glob [] s \<longleftrightarrow> s = []"
| "glob (p # ps) s \<longleftrightarrow>
     (if p = CHR ''*'' then (\<exists>k \<in> {0..length s}. glob ps (drop k s))
      else s \<noteq> [] \<and> hd s = p \<and> glob ps (tl s))"

lemma rmatch_glob:
  "(\<And>c. c \<in> set s \<Longrightarrow> atom_ok Dot c) \<Longrightarrow> rmatch True (map rule_item r) caps s \<noteq> None \<longleftrightarrow> glob r s"
proof (induction r arbitrary: s caps)
  case (Cons p r)
  show ?case
  proof (cases "p = CHR ''*''")
    case True
    have tw: "takeWhile (atom_ok Dot) s = s" using Cons.prems by (rule takeWhile_id)
    have IH: "rmatch True (map rule_item r) caps (drop k s) \<noteq> None \<longleftrightarrow> glob r (drop k s)" for k
      using Cons.prems by (intro Cons.IH) (auto dest: in_set_dropD)
    have items: "map rule_item (p # r) = many Dot # map rule_item r"
      using True by (simp add: rule_item_def)
    show ?thesis
      unfolding items rmatch_rep_iff tw option.case IH glob.simps(2) using True by auto
  next
    case False
    then show ?thesis
      using Cons.prems Cons.IH [of "tl s" caps]
      by (cases s) (auto simp: rule_item_def rmatch_one simp del: rmatch.simps)
  qed
qed simp

lemma dotted_chars: "c \<in> set (dotted a) \<Longrightarrow> isdigit c \<or> c = CHR ''.''"
  by (auto simp: dotted_def dest: nat_text_digits)

lemma dotted_dot: "c \<in> set (dotted a) \<Longrightarrow> atom_ok Dot c"
  by (drule dotted_chars) (auto simp: isdigit_def newline_def code_def)

lemma match_rule:
  "plain_rule r \<Longrightarrow> matchFirewallRule t r con (dotted a) =
     Some ((con \<longleftrightarrow> t = CHR ''c'') \<and> glob r (dotted a))"
  using rmatch_glob [of "dotted a" r "\<lambda>_. []", OF dotted_dot]
  by (auto simp: matchFirewallRule_def convert_concat compile_rule regex_match_def Let_def)

text \<open>C13. A firewall rule of ordinary characters, dots and stars matches an address exactly when the rule's
  kind fits the command and the address is the rule with every star replaced by some text: the
  conversion to a regular expression and the backtracking match implement globbing.\<close>

theorem firewall_rule_is_glob:
  assumes "plain_rule r"
  shows "matchFirewallRule t r con (dotted a) = Some ((con \<longleftrightarrow> t = CHR ''c'') \<and> glob r (dotted a))"
  using assms by (rule match_rule)

definition sample_address :: "32 word" where
  "sample_address = le32 2 1 113 140"

lemma dotted_example: "dotted sample_address = ''140.113.1.2''"
proof -
  have "nat_text 140 = ''140''" "nat_text 113 = ''113''" "nat_text 1 = ''1''" "nat_text 2 = ''2''"
    by code_simp+
  then show ?thesis by (simp add: dotted_def sample_address_def)
qed

theorem firewall_rule_is_glob_witness:
  "matchFirewallRule (CHR ''c'') ''140.113.*.*'' True ''140.113.1.2'' = Some True"
proof -
  have "plain_rule ''140.113.*.*''" "glob ''140.113.*.*'' ''140.113.1.2''" by code_simp+
  then show ?thesis
    using firewall_rule_is_glob [of "''140.113.*.*''" "CHR ''c''" True sample_address] by (simp add: dotted_example)
qed

subsection \<open>The rules file\<close>

definition rule_line :: "string \<times> char \<times> string \<Rightarrow> string" where
  "rule_line l = (case l of (w, t, r) \<Rightarrow> w @ CHR '' '' # t # CHR '' '' # r @ [newline])"

definition good_rule :: "string \<times> char \<times> string \<Rightarrow> bool" where
  "good_rule l \<longleftrightarrow> (case l of (w, t, r) \<Rightarrow> is_word w \<and> \<not> isspace t \<and> is_word r \<and> plain_rule r)"

lemma isspace_blank: "isspace (CHR '' '')" "isspace newline"
  by (simp_all add: isspace_def code_def newline_def)

lemma get_word_at:
  "is_word w \<Longrightarrow> isspace c \<Longrightarrow> (pre = [] \<or> pre = [newline] \<or> pre = [CHR '' '']) \<Longrightarrow>
     get_word \<lparr>unread = pre @ w @ c # s, failed = False\<rparr> = (Some w, \<lparr>unread = c # s, failed = False\<rparr>)"
  using get_word_prefix [of w "c # s"] by (auto simp: get_word_skip isspace_blank)

lemma rules_allow_lines:
  "\<forall>l \<in> set ls. good_rule l \<Longrightarrow> pre = [] \<or> pre = [newline] \<Longrightarrow>
     rules_allow \<lparr>unread = pre @ concat (map rule_line ls), failed = False\<rparr> con (dotted a) =
       Some (\<exists>(w, t, r) \<in> set ls. (con \<longleftrightarrow> t = CHR ''c'') \<and> glob r (dotted a))"
proof (induction ls arbitrary: pre)
  case Nil
  then have "get_word \<lparr>unread = pre, failed = False\<rparr> = (None, at_end)"
    by (auto simp: get_word_skip isspace_blank)
  then show ?case by (subst rules_allow.simps) simp
next
  case (Cons l ls)
  obtain w t r where l: "l = (w, t, r)" by (cases l)
  then have g: "is_word w" "\<not> isspace t" "is_word r" "plain_rule r"
    using Cons.prems(1) by (auto simp: good_rule_def)
  let ?rest = "concat (map rule_line ls)"
  have 1: "get_word \<lparr>unread = pre @ w @ CHR '' '' # t # CHR '' '' # r @ newline # ?rest, failed = False\<rparr> =
      (Some w, \<lparr>unread = CHR '' '' # t # CHR '' '' # r @ newline # ?rest, failed = False\<rparr>)"
    using Cons.prems(2) by (intro get_word_at g isspace_blank) auto
  have 2: "get_char \<lparr>unread = CHR '' '' # t # CHR '' '' # r @ newline # ?rest, failed = False\<rparr> =
      (Some t, \<lparr>unread = CHR '' '' # r @ newline # ?rest, failed = False\<rparr>)"
    using g(2) by (simp add: get_char_def isspace_blank)
  have 3: "get_word \<lparr>unread = CHR '' '' # r @ newline # ?rest, failed = False\<rparr> =
      (Some r, \<lparr>unread = newline # ?rest, failed = False\<rparr>)"
    using get_word_at [OF g(3) isspace_blank(2), of "[CHR '' '']" ?rest] by simp
  have IH: "rules_allow \<lparr>unread = newline # ?rest, failed = False\<rparr> con (dotted a) =
      Some (\<exists>(w, t, r) \<in> set ls. (con \<longleftrightarrow> t = CHR ''c'') \<and> glob r (dotted a))"
    using Cons.IH [of "[newline]"] Cons.prems(1) by simp
  have shown: "pre @ concat (map rule_line (l # ls)) =
      pre @ w @ CHR '' '' # t # CHR '' '' # r @ newline # ?rest"
    by (simp add: l rule_line_def)
  show ?case
    unfolding shown
    by (subst rules_allow.simps) (auto simp: 1 2 3 IH match_rule [OF g(4)] l split: bool.split)
qed

text \<open>C20. A destination is allowed exactly when some rule of the file has the right kind and matches it;
  the first word of a rule plays no part, so \<open>deny c *\<close> permits as well as \<open>permit c *\<close>.\<close>

theorem firewall_file:
  assumes "\<forall>l \<in> set ls. good_rule l"
  shows "isDestinationIPAddressAllowed (Some (concat (map rule_line ls))) (dotted a) con =
     Some (\<exists>(w, t, r) \<in> set ls. (con \<longleftrightarrow> t = CHR ''c'') \<and> glob r (dotted a))"
  using rules_allow_lines [OF assms, of "[]" con a]
  by (simp add: isDestinationIPAddressAllowed_def istringstream_def)

theorem firewall_file_witness:
  "isDestinationIPAddressAllowed (Some (''deny c 140.*.*.*'' @ [newline])) ''140.113.1.2'' True = Some True"
proof -
  have "good_rule (''deny'', CHR ''c'', ''140.*.*.*'')" "glob ''140.*.*.*'' ''140.113.1.2''" by code_simp+
  moreover have "concat (map rule_line [(''deny'', CHR ''c'', ''140.*.*.*'')]) = ''deny c 140.*.*.*'' @ [newline]"
    by (simp add: rule_line_def)
  ultimately show ?thesis
    using firewall_file [of "[(''deny'', CHR ''c'', ''140.*.*.*'')]" sample_address True] by (simp add: dotted_example)
qed

subsection \<open>SOCKS 4a\<close>

lemma rmatch_prefix:
  "rmatch full (map (\<lambda>c. one (Lit c)) cs @ ps) caps s \<noteq> None \<longleftrightarrow>
     (\<exists>s'. s = cs @ s' \<and> rmatch full ps caps s' \<noteq> None)"
proof (induction cs arbitrary: s)
  case (Cons c cs)
  then show ?case by (cases s) (auto simp: rmatch_one simp del: rmatch.simps)
qed simp

lemma nat_text_leading: "0 < n \<Longrightarrow> code (hd (nat_text n)) \<noteq> 48"
proof (induction n rule: nat_text.induct)
  case (1 n)
  show ?case
  proof (cases "n < 10")
    case True
    then show ?thesis using 1(2) by (subst nat_text.simps) (simp add: code_digit_char)
  next
    case False
    then have "code (hd (nat_text (n div 10))) \<noteq> 48" using 1 by simp
    then show ?thesis using False by (subst nat_text.simps) simp
  qed
qed

lemma octet_pattern:
  assumes "n < 256"
  shows "rmatch True [one (Range [(CHR ''1'', CHR ''9'')]), Rep None digit_class 0 (Some 2)] caps
     (nat_text n) \<noteq> None \<longleftrightarrow> n \<noteq> 0"
proof -
  obtain d ds where t: "nat_text n = d # ds" by (meson list.exhaust nat_text_not_Nil)
  have dig: "isdigit c" if "c \<in> set (d # ds)" for c using nat_text_digits that t by metis
  have len: "length ds \<le> 2"
  proof -
    have "length (nat_text n) \<le> 3"
      using assms by (simp add: nat_text.simps [of n] nat_text.simps [of "n div 10"]
          nat_text.simps [of "n div 10 div 10"])
    then show ?thesis by (simp add: t)
  qed
  have tw: "takeWhile (atom_ok digit_class) ds = ds"
    using dig by (intro takeWhile_id) (auto simp: digit_class_def isdigit_def code_def)
  have "rmatch True [] c (drop (length ds) ds) \<noteq> None" for c by simp
  then have rest: "rmatch True [Rep None digit_class 0 (Some 2)] caps ds \<noteq> None"
    unfolding rmatch_rep_iff tw using len by (intro exI [of _ "length ds"]) simp
  have "code d = 48 \<longleftrightarrow> n = 0"
  proof (cases "n = 0")
    case True
    then have "d = digit_char 0" using t by (simp add: nat_text.simps)
    then show ?thesis using True by (simp add: code_digit_char)
  next
    case False
    then show ?thesis using nat_text_leading [of n] by (simp add: t)
  qed
  moreover have "48 \<le> code d" "code d \<le> 57" using dig [of d] by (simp_all add: isdigit_def)
  moreover have "code (CHR ''1'') = 49" "code (CHR ''9'') = 57" by (simp_all add: code_def)
  ultimately have "atom_ok (Range [(CHR ''1'', CHR ''9'')]) d \<longleftrightarrow> n \<noteq> 0" by auto
  then show ?thesis using rest by (simp add: rmatch_one t del: rmatch.simps atom_ok.simps)
qed

lemma nat_text_split:
  "nat_text m @ CHR ''.'' # s = nat_text n @ CHR ''.'' # t \<longleftrightarrow> m = n \<and> s = t"
proof
  assume eq: "nat_text m @ CHR ''.'' # s = nat_text n @ CHR ''.'' # t"
  have stop: "\<not> isdigit (CHR ''.'')" by (simp add: isdigit_def code_def)
  have "takeWhile isdigit (nat_text k @ CHR ''.'' # u) = nat_text k" for k u
    by (rule takeWhile_append_stop) (auto simp: stop dest: nat_text_digits)
  then have "nat_text m = nat_text n" using eq by metis
  then show "m = n \<and> s = t" using eq by simp
qed simp

lemma last_octet_only:
  "a < 256 \<Longrightarrow> ((d = 0 \<and> c = 0 \<and> b = 0) \<and> a \<noteq> 0) \<longleftrightarrow>
     1 \<le> a + 256 * b + 65536 * c + 16777216 * d \<and> a + 256 * b + 65536 * c + 16777216 * d \<le> (255::nat)"
proof (cases "d = 0 \<and> c = 0 \<and> b = 0")
  case False
  then have "0 < b \<or> 0 < c \<or> 0 < d" by auto
  then have "255 < a + 256 * b + 65536 * c + 16777216 * d" by linarith
  then show ?thesis using False by auto
qed auto

lemma dotted_socks4a: "regex_match socks4a (dotted a) \<longleftrightarrow> 1 \<le> unat a \<and> unat a \<le> 255"
proof -
  let ?b = "\<lambda>i. unat (byte_of32 i a)"
  let ?zeros = "?b 3 = 0 \<and> ?b 2 = 0 \<and> ?b (Suc 0) = 0"
  have lit: "''0.0.0.'' = nat_text 0 @ CHR ''.'' # nat_text 0 @ CHR ''.'' # nat_text 0 @ ''.''"
    by (simp add: nat_text_0)
  have "(\<exists>s. dotted a = ''0.0.0.'' @ s \<and> P s) \<longleftrightarrow> ?zeros \<and> P (nat_text (?b 0))" for P
    unfolding lit dotted_def append.simps append_assoc nat_text_split by auto
  moreover have less: "?b 0 < 256" by (rule word_bounds)
  ultimately have "regex_match socks4a (dotted a) \<longleftrightarrow> ?zeros \<and> ?b 0 \<noteq> 0"
    unfolding regex_match_def socks4a_def rmatch_prefix using octet_pattern [OF less] by simp
  moreover have "unat a = ?b 0 + 256 * ?b (Suc 0) + 65536 * ?b 2 + 16777216 * ?b 3"
    using unat_le32 [of "byte_of32 0 a" "byte_of32 (Suc 0) a" "byte_of32 2 a" "byte_of32 3 a"] by simp
  ultimately show ?thesis by (simp only: last_octet_only [OF less])
qed

text \<open>The pattern for SOCKS 4a recognises exactly the addresses \<open>0.0.0.1\<close> to \<open>0.0.0.255\<close>.\<close>

theorem socks4a_pattern: "regex_match socks4a (dotted a) = (1 \<le> unat a \<and> unat a \<le> 255)"
  by (rule dotted_socks4a)

lemma c_str_at_skip:
  "nul \<notin> set u \<Longrightarrow> length p = n \<Longrightarrow> c_str_at (p @ u @ nul # s) n = Inr u"
proof -
  assume "nul \<notin> set u" "length p = n"
  moreover from this have "takeWhile (\<lambda>c. c \<noteq> nul) (u @ nul # s) = u"
    by (intro takeWhile_append_stop) auto
  ultimately show ?thesis by (auto simp: c_str_at_def c_str_def)
qed

lemma length_header_bytes [simp]: "length (header_bytes h) = 8"
  by (simp add: header_bytes_def)

text \<open>A request for such an address is resolved by the host name that follows the user id in the
  buffer, with the port of the header; other requests go to the address and port of the header.\<close>

theorem socks4a_resolution:
  assumes "nul \<notin> set userid" and "nul \<notin> set domain"
  shows "resolveEndpoint resolve (header_bytes h @ userid @ nul # domain @ nul # rest) h =
     (if 1 \<le> unat (ntohl (dstaddr h)) \<and> unat (ntohl (dstaddr h)) \<le> 255
      then (case resolve domain (nat_text (unat (ntohs (dstport h)))) of
              None \<Rightarrow> Inl Invalid_Argument | Some ep \<Rightarrow> Inr ep)
      else Inr \<lparr>address = ntohl (dstaddr h), ep_port = ntohs (dstport h)\<rparr>)"
proof -
  let ?buf = "header_bytes h @ userid @ nul # domain @ nul # rest"
  have "c_str_at ?buf 8 = Inr userid"
    using assms(1) by (intro c_str_at_skip) simp_all
  moreover have "c_str_at ?buf (8 + length userid + 1) = Inr domain"
    using c_str_at_skip [OF assms(2), of "header_bytes h @ userid @ [nul]" "8 + length userid + 1" rest] by simp
  ultimately show ?thesis by (simp add: resolveEndpoint_def Let_def dotted_socks4a)
qed


theorem socks4a_resolution_witness:
  "resolveEndpoint (\<lambda>name port. if name = ''np'' then Some \<lparr>address = sample_address, ep_port = 80\<rparr> else None)
     (header_bytes \<lparr>version = 4, cmd = 1, dstport = htons 80, dstaddr = htonl 7\<rparr> @ ''me'' @ nul # ''np'' @ nul # [])
     \<lparr>version = 4, cmd = 1, dstport = htons 80, dstaddr = htonl 7\<rparr>
     = Inr \<lparr>address = sample_address, ep_port = 80\<rparr>"
  by (subst socks4a_resolution) (simp_all add: nul_def)

subsection \<open>Replies\<close>

definition client_bytes :: "socks_event list \<Rightarrow> string" where
  "client_bytes es = concat (map (\<lambda>e. case e of To_Client s \<Rightarrow> s | _ \<Rightarrow> []) es)"

lemma client_bytes_simps [simp]:
  "client_bytes [] = []" "client_bytes (es @ fs) = client_bytes es @ client_bytes fs"
  "client_bytes (To_Client s # es) = s @ client_bytes es" "client_bytes (Log l # es) = client_bytes es"
  "client_bytes (Connect_To ep # es) = client_bytes es" "client_bytes (Listen p # es) = client_bytes es"
  "client_bytes (Accept_One # es) = client_bytes es" "client_bytes (Relay # es) = client_bytes es"
  "client_bytes (Shutdown_Client # es) = client_bytes es"
  by (simp_all add: client_bytes_def)

lemma logs_quiet:
  "client_bytes (logConnectionDetails env h ep) = []" "Relay \<notin> set (logConnectionDetails env h ep)"
  by (simp_all add: logConnectionDetails_def)

definition direct :: "Socks4Header \<Rightarrow> bool" where
  "direct h \<longleftrightarrow> unat (ntohl (dstaddr h)) \<notin> {1..255}"

definition target :: "Socks4Header \<Rightarrow> endpoint" where
  "target h = \<lparr>address = ntohl (dstaddr h), ep_port = ntohs (dstport h)\<rparr>"

lemma handleRead_direct:
  assumes "direct h"
  shows "handleRead env buf (header_bytes h @ rest) =
     map_option (\<lambda>allowed. Inr (logConnectionDetails env h (target h) @
         (if allowed then handleCommand env (cmd h) (target h)
          else [Log ''<Reply>: Reject'', To_Client (header_bytes reject_hdr), Shutdown_Client])))
       (isDestinationIPAddressAllowed (socks_conf env) (dotted (ntohl (dstaddr h))) (cmd h = SOCKS4_CMD_CONNECT))"
proof -
  have "\<not> regex_match socks4a (dotted (ntohl (dstaddr h)))"
    using assms by (simp add: dotted_socks4a direct_def)
  then have "resolveEndpoint (resolver env) d h = Inr (target h)" for d
    by (simp add: resolveEndpoint_def target_def Let_def)
  then show ?thesis
    by (simp add: handleRead_def header_at_bytes Let_def cong: if_cong) (simp add: target_def cong: if_cong)
qed

definition granted :: "16 word \<Rightarrow> Socks4Header" where
  "granted p = \<lparr>version = SOCKS4_VERSION, cmd = SOCKS4_REPLY_GRANTED, dstport = htons p, dstaddr = 0\<rparr>"

text \<open>C36. A CONNECT request to a plain address: the client receives the rejection when the firewall
  refuses, the grant when the connection is made, and nothing at all when the target cannot be reached;
  the relay is started in both of the last two cases, also on the socket that is not connected.\<close>

theorem connect_request_replies:
  assumes "direct h" and "cmd h = SOCKS4_CMD_CONNECT"
    and "isDestinationIPAddressAllowed (socks_conf env) (dotted (ntohl (dstaddr h))) True = Some allowed"
  shows "\<exists>es. handleRead env buf (header_bytes h @ rest) = Some (Inr es) \<and>
     client_bytes es = (if \<not> allowed then header_bytes reject_hdr
                        else if reachable env (target h) then header_bytes (granted 0) else []) \<and>
     (Relay \<in> set es \<longleftrightarrow> allowed)"
  using assms(2,3)
  by (auto simp: handleRead_direct [OF assms(1)] logs_quiet handleCommand_def connect_def reply_def
      granted_def relayTraffic_def Let_def)

text \<open>Every other command is judged by the rules for BIND.  A BIND request gets the same reply twice,
  with the port listened on, before and after the one connection is accepted; an unknown command that
  is allowed is logged as accepted and gets no reply and no relay.\<close>

theorem bind_request_replies:
  assumes "direct h" and "cmd h \<noteq> SOCKS4_CMD_CONNECT"
    and "isDestinationIPAddressAllowed (socks_conf env) (dotted (ntohl (dstaddr h))) False = Some allowed"
  shows "\<exists>es. handleRead env buf (header_bytes h @ rest) =
       Some (Inr (logConnectionDetails env h (target h) @ es)) \<and>
     es = (if \<not> allowed then [Log ''<Reply>: Reject'', To_Client (header_bytes reject_hdr), Shutdown_Client]
           else if cmd h = SOCKS4_CMD_BIND
           then [Log ''<Reply>: Accept'', Listen (listen_port env),
                 To_Client (header_bytes (granted (listen_port env))), Accept_One,
                 To_Client (header_bytes (granted (listen_port env))), Relay]
           else [Log ''<Reply>: Accept''])"
  using assms(2,3)
  by (auto simp: handleRead_direct [OF assms(1)] handleCommand_def bind_def reply_def
      granted_def relayTraffic_def Let_def SOCKS4_CMD_BIND_def SOCKS4_CMD_CONNECT_def)

definition sample_env :: socks_env where
  "sample_env = \<lparr>resolver = \<lambda>_ _. None, socks_conf = Some (''permit c *'' @ [newline] @ ''permit b *'' @ [newline]),
     client_ep = \<lparr>address = sample_address, ep_port = 9\<rparr>, reachable = \<lambda>_. False, listen_port = 5000\<rparr>"

definition sample_request :: "8 word \<Rightarrow> Socks4Header" where
  "sample_request c = \<lparr>version = 4, cmd = c, dstport = htons 80, dstaddr = htonl sample_address\<rparr>"

lemma sample_allowed: "isDestinationIPAddressAllowed (socks_conf sample_env) (dotted a) con = Some True"
proof -
  let ?rules = "[(''permit'', CHR ''c'', ''*''), (''permit'', CHR ''b'', ''*'')]"
  have all: "glob ''*'' s" for s by auto
  have "\<forall>l \<in> set ?rules. good_rule l" by code_simp
  from rules_allow_lines [OF this, of "[]" con a] show ?thesis
    using all [of "dotted a"]
    by (cases con) (simp_all add: sample_env_def isDestinationIPAddressAllowed_def istringstream_def rule_line_def)
qed

lemma sample_direct: "direct (sample_request c)"
  by (simp add: direct_def sample_request_def sample_address_def unat_le32)

theorem connect_request_replies_witness:
  "\<exists>es. handleRead sample_env [] (header_bytes (sample_request 1) @ [nul]) = Some (Inr es) \<and> client_bytes es = []"
  using connect_request_replies [OF sample_direct _ sample_allowed, of 1 "[]" "[nul]"]
  by (auto simp: sample_request_def sample_env_def SOCKS4_CMD_CONNECT_def)

theorem bind_request_replies_witness:
  "handleRead sample_env [] (header_bytes (sample_request 3) @ [nul]) =
     Some (Inr (logConnectionDetails sample_env (sample_request 3) (target (sample_request 3)) @ [Log ''<Reply>: Accept'']))"
  using bind_request_replies [OF sample_direct _ sample_allowed, of 3 "[]" "[nul]"]
  by (auto simp: sample_request_def SOCKS4_CMD_CONNECT_def SOCKS4_CMD_BIND_def)

subsection \<open>Relay\<close>

definition rounds_of :: "(string \<times> nat) list \<Rightarrow> (string option \<times> nat) list" where
  "rounds_of ws = map (\<lambda>(d, n). (Some d, n)) ws @ [(None, 0)]"

lemma relay_rounds: "asyncReadWrite (rounds_of ws) = (concat (map (\<lambda>(d, n). take n d) ws), True)"
  by (induction ws) (auto simp: rounds_of_def)

lemma short_total: "length (concat (map (\<lambda>(d, n). take n d) ws)) \<le> length (concat (map fst ws))"
  by (induction ws) auto

lemma no_loss: "concat (map (\<lambda>(d, n). take n d) ws) = concat (map fst ws) \<longleftrightarrow>
    list_all (\<lambda>(d, n). length d \<le> n) ws"
proof (induction ws)
  case (Cons w ws)
  obtain d n where w: "w = (d, n)" by (cases w)
  let ?out = "concat (map (\<lambda>(d, n). take n d) ws)" and ?all = "concat (map fst ws)"
  show ?case
  proof (cases "length d \<le> n")
    case True
    then show ?thesis using Cons by (simp add: w)
  next
    case False
    have "length (take n d @ ?out) < length (d @ ?all)" using short_total [of ws] False by simp
    then have "take n d @ ?out \<noteq> d @ ?all" by (auto simp only: less_irrefl)
    then show ?thesis using False by (simp add: w)
  qed
qed simp

text \<open>Until the sender closes, the relay passes on what each \<open>write_some\<close> takes of each block and
  then shuts the other side down: the other end gets all the data exactly when no write is short.\<close>

theorem relay_complete_without_short_writes:
  "snd (asyncReadWrite (rounds_of ws)) \<and>
   (fst (asyncReadWrite (rounds_of ws)) = concat (map fst ws)) = list_all (\<lambda>(d, n). length d \<le> n) ws"
  by (simp add: relay_rounds no_loss)

end
