(* ===== verification/Cgi_Util.thy ===== *)
theory Cgi_Util
  imports Std_Regex Std_Stream "HOL-Library.Char_ord" "HOL-Library.List_Lexorder"
begin

text \<open>
  \<open>cgi_util.cpp\<close> and \<open>cgi_util.hpp\<close> of \<open>312552017_np_project4/cgiserver\<close>: the query string of the
  console, the two pages, and the scripts that append to the console page.  The console's template file
  and the directory of test cases are arguments; the Boost string algorithms are parameters.
\<close>

record ServerInfo =
  host :: string
  port :: string
  fileName :: string

record ClientInfo =
  sessionId :: int
  userCommand :: string
  shellOutput :: string

definition dq :: string where "dq = [CHR 0x22]"
definition crlf :: string where "crlf = [CHR 0x0D, newline]"

fun unlines :: "string list \<Rightarrow> string" where
  "unlines [] = []"
| "unlines [l] = l"
| "unlines (l # ls) = l @ newline # unlines ls"

text \<open>\<open>std::string::find\<close>\<close>

fun find_sub :: "string \<Rightarrow> string \<Rightarrow> nat option" where
  "find_sub pat [] = (if pat = [] then Some 0 else None)"
| "find_sub pat (c # s) =
     (if take (length pat) (c # s) = pat then Some 0 else map_option Suc (find_sub pat s))"

definition find_from_char :: "char \<Rightarrow> string \<Rightarrow> nat option" where
  "find_from_char c s = find_sub [c] s"

subsection \<open>The query string\<close>

text \<open>\<open>tok.substr(tok.find("=") + 1)\<close>: without \<open>=\<close> the sum wraps to 0 and the whole token is taken.\<close>

definition after_equals :: "string \<Rightarrow> string" where
  "after_equals tok = (case find_from_char (CHR ''='') tok of None \<Rightarrow> tok | Some i \<Rightarrow> drop (i + 1) tok)"

text \<open>
  \<open>parseQueryString\<close>: \<open>split\<close> is \<open>boost::split\<close> at \<open>&\<close> with compressed delimiters.  The loop reads three
  tokens a round; fewer are out of bounds.
\<close>

fun server_rows :: "string list \<Rightarrow> ServerInfo list result" where
  "server_rows [] = Inr []"
| "server_rows (h # p # f # toks) =
     rbind (server_rows toks) (\<lambda>rows.
       Inr (\<lparr>host = after_equals h, port = after_equals p, fileName = after_equals f\<rparr> # rows))"
| "server_rows toks = Inl Out_Of_Bounds"

definition parseQueryString :: "(string \<Rightarrow> string list) \<Rightarrow> string \<Rightarrow> ServerInfo list result" where
  "parseQueryString split query = server_rows (split query)"

text \<open>The patterns \<open>h(\d)=([^&]*)&p\1=([^&]*)&f\1=([^&]*)\<close> and \<open>sh=([^&]*)&sp=([^&]*)\<close>\<close>

abbreviation lit :: "char \<Rightarrow> ritem" where "lit c \<equiv> one (Lit c)"

definition value_class :: atom where "value_class = Not_In ''&''"

definition QUERY_STRING :: "ritem list" where
  "QUERY_STRING =
     [lit (CHR ''h''), Rep (Some 1) digit_class 1 (Some 1), lit (CHR ''=''), group_many 2 value_class, lit (CHR ''&''),
      lit (CHR ''p''), Backref 1, lit (CHR ''=''), group_many 3 value_class, lit (CHR ''&''),
      lit (CHR ''f''), Backref 1, lit (CHR ''=''), group_many 4 value_class]"

definition SOCKS_PROXY_QUERY_STRING :: "ritem list" where
  "SOCKS_PROXY_QUERY_STRING =
     map lit ''sh='' @ group_many 1 value_class # map lit ''&sp='' @ [group_many 2 value_class]"

lemma rmatch_shorter: "rmatch full ps caps s = Some (c, r) \<Longrightarrow> length r \<le> length s"
proof (induction full ps caps s arbitrary: c r rule: rmatch.induct)
  case (2 full g a lo hi ps caps s)
  then obtain k where "rmatch full ps (case g of None \<Rightarrow> caps | Some i \<Rightarrow> caps(i := take k s)) (drop k s) = Some (c, r)"
    by (auto dest: first_some_Some)
  from "2.IH" [OF this] show ?case by simp
next
  case (3 full i ps caps s)
  then have "length r \<le> length (drop (length (caps i)) s)" by (auto split: if_splits)
  then show ?case by simp
qed (auto split: if_splits)

lemma search_shorter:
  assumes "regex_search (one a # ps) s = Some (c, r)"
  shows "length r < length s"
  using assms
proof (induction s)
  case Nil
  then show ?case by (simp add: rmatch_one del: rmatch.simps)
next
  case (Cons d s)
  show ?case
  proof (cases "rmatch False (one a # ps) (\<lambda>_. []) (d # s)")
    case None
    then show ?thesis using Cons by (simp del: rmatch.simps)
  next
    case (Some x)
    then have "rmatch False ps (\<lambda>_. []) s = Some (c, r)"
      using Cons.prems by (auto simp: rmatch_one simp del: rmatch.simps split: if_splits)
    then show ?thesis using rmatch_shorter by fastforce
  qed
qed

function query_rows :: "string \<Rightarrow> ServerInfo list" where
  "query_rows s =
     (case regex_search QUERY_STRING s of
        None \<Rightarrow> []
      | Some (m, rest) \<Rightarrow>
          (if length (m 2) \<noteq> 0 \<or> length (m 3) \<noteq> 0 \<or> length (m 4) \<noteq> 0
           then [\<lparr>host = m 2, port = m 3, fileName = m 4\<rparr>] else []) @ query_rows rest)"
  by pat_completeness auto
termination
  by (relation "measure length") (auto simp: QUERY_STRING_def dest: search_shorter)

declare query_rows.simps [simp del]

text \<open>\<open>None\<close> is the null pointer of an unset variable.\<close>

definition parseHTTPQueryString :: "string option \<Rightarrow> ServerInfo list" where
  "parseHTTPQueryString query =
     (case query of
        None \<Rightarrow> []
      | Some q \<Rightarrow>
          query_rows q @
          (case regex_search SOCKS_PROXY_QUERY_STRING q of
             None \<Rightarrow> []
           | Some (m, _) \<Rightarrow> [\<lparr>host = m 1, port = m 2, fileName = []\<rparr>]))"

subsection \<open>Scripts\<close>

text \<open>\<open>static_cast<int>\<close> of a signed \<open>char\<close>\<close>

definition schar :: "char \<Rightarrow> int" where
  "schar c = (if code c < 128 then int (code c) else int (code c) - 256)"

definition printEscape :: "string \<Rightarrow> string" where
  "printEscape content =
     concat (map (\<lambda>c. if isalnum c then [c] else ''&#'' @ to_string (schar c) @ '';'') content)"

definition output_command :: "ClientInfo \<Rightarrow> string" where
  "output_command ci =
     ''<script>document.getElementById('s'' @ to_string (sessionId ci) @ [CHR 0x27] @ '').innerHTML += '<b>''
     @ printEscape (userCommand ci) @ ''</b>';</script>'' @ [newline]"

definition output_shell :: "ClientInfo \<Rightarrow> string" where
  "output_shell ci =
     ''<script>document.getElementById('s'' @ to_string (sessionId ci) @ [CHR 0x27] @ '').innerHTML += '' @ [CHR 0x27]
     @ printEscape (shellOutput ci) @ [CHR 0x27] @ '';</script>'' @ [newline]"

text \<open>The older escaping, for \<open>cgi_server.cpp\<close>; \<open>replace_all\<close> is \<open>boost::replace_all\<close>.\<close>

definition cgi_html_escape :: "(string \<Rightarrow> string \<Rightarrow> string \<Rightarrow> string) \<Rightarrow> string \<Rightarrow> string" where
  "cgi_html_escape replace_all context0 =
     (let c1 = replace_all context0 ''&'' ''&amp;'';
          c2 = replace_all c1 ''>'' ''&gt;'';
          c3 = replace_all c2 ''<'' ''&lt;'';
          c4 = replace_all c3 dq ''&quot;'';
          c5 = replace_all c4 [CHR 0x27] ''&apos;'';
          c6 = replace_all c5 [newline] ''&NewLine;''
      in replace_all c6 [CHR 0x0D] [])"

definition cgi_output_shell :: "(string \<Rightarrow> string \<Rightarrow> string \<Rightarrow> string) \<Rightarrow> string \<Rightarrow> int \<Rightarrow> string" where
  "cgi_output_shell replace_all content sid =
     ''<script>document.getElementById('s'' @ to_string sid @ [CHR 0x27] @ '').innerHTML += '' @ [CHR 0x27]
     @ cgi_html_escape replace_all content @ [CHR 0x27] @ '';</script>''"

definition cgi_output_command :: "(string \<Rightarrow> string \<Rightarrow> string \<Rightarrow> string) \<Rightarrow> string \<Rightarrow> int \<Rightarrow> string" where
  "cgi_output_command replace_all content sid =
     ''<script>document.getElementById('s'' @ to_string sid @ [CHR 0x27] @ '').innerHTML += '<b>''
     @ cgi_html_escape replace_all content @ ''</b>';</script>''"

subsection \<open>The console page\<close>

definition HTML_CONTENT_TYPE :: string where
  "HTML_CONTENT_TYPE = ''Content-type: text/html'' @ crlf @ crlf"

definition HTTP200 :: string where
  "HTTP200 = ''HTTP/1.1 200 OK'' @ crlf"

definition console_head :: "string list" where
  "console_head =
     ['''',
      ''<!DOCTYPE html>'',
      ''<html lang=\"en\">'',
      ''  <head>'',
      ''    <meta charset=\"UTF-8\" />'',
      ''    <title>NP Project 3 Sample Console</title>'',
      ''    <link'',
      ''      rel=\"stylesheet\"'',
      ''      href=\"https://cdn.jsdelivr.net/npm/bootstrap@4.5.3/dist/css/bootstrap.min.css\"'',
      ''      integrity=\"sha384-TX8t27EcRE3e/ihU7zmQxVncDAy5uIKz4rEkgIXeMed4M0jlfIDPvg6uqKI2xXr2\"'',
      ''      crossorigin=\"anonymous\"'',
      ''    />'',
      ''    <link'',
      ''      href=\"https://fonts.googleapis.com/css?family=Source+Code+Pro\"'',
      ''      rel=\"stylesheet\"'',
      ''    />'',
      ''    <link'',
      ''      rel=\"icon\"'',
      ''      type=\"image/png\"'',
      ''      href=\"https://cdn0.iconfinder.com/data/icons/small-n-flat/24/678068-terminal-512.png\"'',
      ''    />'',
      ''    <style>'',
      ''      * {'',
      ''        font-family: 'Source Code Pro', monospace;'',
      ''        font-size: 1rem !important;'',
      ''      }'',
      ''      body {'',
      ''        background-color: #212529;'',
      ''      }'',
      ''      pre {'',
      ''        color: #cccccc;'',
      ''      }'',
      ''      b {'',
      ''        color: #01b468;'',
      ''      }'',
      ''    </style>'',
      ''  </head>'',
      ''  <body>'',
      ''    <table class=\"table table-dark table-bordered\">'',
      ''      <thead>'',
      ''        <tr>'']"

definition npshell_webconsole :: string where
  "npshell_webconsole = unlines (console_head @
     [''          <th scope=\"col\"></th>'',
      ''        </tr>'',
      ''      </thead>'',
      ''      <tbody>'',
      ''        <tr>'',
      ''          <td><pre id=\"s0\" class=\"mb-0\"></pre></td>'',
      ''        </tr>'',
      ''      </tbody>'',
      ''    </table>'',
      ''  </body>'',
      ''</html>''])"

definition th_mark :: string where "th_mark = ''<th scope='' @ dq @ ''col'' @ dq @ ''></th>''"

definition td_tag :: "nat \<Rightarrow> string" where
  "td_tag i = ''<td><pre id='' @ dq @ ''s'' @ nat_text i @ dq @ '' class='' @ dq @ ''mb-0'' @ dq @ ''></pre></td>''"

definition th_tag :: "ServerInfo \<Rightarrow> string" where
  "th_tag s = ''<th scope='' @ dq @ ''col'' @ dq @ ''>'' @ host s @ '':'' @ port s @ ''</th>''"

text \<open>The loops that join the tags, with a line break only between them.\<close>

fun join_tags :: "string list \<Rightarrow> string" where
  "join_tags [] = []"
| "join_tags (t # ts) = t @ (if ts = [] then [] else crlf @ ''          '') @ join_tags ts"

definition replace_first :: "string \<Rightarrow> string \<Rightarrow> string \<Rightarrow> string" where
  "replace_first pat new s =
     (case find_sub pat s of None \<Rightarrow> s | Some i \<Rightarrow> take i s @ new @ drop (i + length pat) s)"

definition generateHTTPNPShellWebConsole :: "string option \<Rightarrow> ServerInfo list \<Rightarrow> string" where
  "generateHTTPNPShellWebConsole file hosts =
     (let base0 = (case file of None \<Rightarrow> npshell_webconsole | Some s \<Rightarrow> s);
          base1 = replace_first th_mark (join_tags (map th_tag hosts)) base0;
          base2 = replace_first (td_tag 0) (join_tags (map td_tag [0..<length hosts])) base1
      in HTML_CONTENT_TYPE @ base2)"

subsection \<open>The panel\<close>

text \<open>The directory as the iterator delivers it, and whether reading it ends with an exception, which
  also skips the sorting.\<close>

record listing =
  entries :: "(string \<times> bool) list"    \<comment> \<open>name, regular file\<close>
  throws :: bool

definition menu_option :: "string \<Rightarrow> string \<Rightarrow> string" where
  "menu_option v t = ''<option value='' @ dq @ v @ dq @ ''>'' @ t @ ''</option>''"

definition generatePanelTestCaseMenu :: "listing \<Rightarrow> string" where
  "generatePanelTestCaseMenu dir =
     (let found = map fst (filter snd (entries dir));
          test_cases = (if throws dir then found else sort found)
      in concat (map (\<lambda>t. menu_option t t) test_cases))"

definition generatePanelHostMenu :: "nat \<Rightarrow> string \<Rightarrow> string" where
  "generatePanelHostMenu num_hosts domain =
     concat (map (\<lambda>i. let h = ''nplinux'' @ nat_text (i + 1) in menu_option (h @ ''.'' @ domain) h) [0..<num_hosts])"

definition PANEL_N_SERVERS :: nat where "PANEL_N_SERVERS = 5"
definition PANEL_N_NP_HOST :: nat where "PANEL_N_NP_HOST = 12"
definition PANEL_FORM_METHOD :: string where "PANEL_FORM_METHOD = ''GET''"
definition PANEL_FORM_ACTION :: string where "PANEL_FORM_ACTION = ''console.cgi''"
definition PANEL_DOMAIN :: string where "PANEL_DOMAIN = ''cs.nycu.edu.tw''"

definition panel_head :: string where
  "panel_head =
     unlines
       ['''',
        ''<!DOCTYPE html>'',
        ''<html lang=\"en\">'',
        ''  <head>'',
        ''    <title>NP Project 3 Panel</title>'',
        ''    <link'',
        ''      rel=\"stylesheet\"'',
        ''      href=\"https://cdn.jsdelivr.net/npm/bootstrap@4.5.3/dist/css/bootstrap.min.css\"'',
        ''      integrity=\"sha384-TX8t27EcRE3e/ihU7zmQxVncDAy5uIKz4rEkgIXeMed4M0jlfIDPvg6uqKI2xXr2\"'',
        ''      crossorigin=\"anonymous\"'',
        ''    />'',
        ''    <link'',
        ''      href=\"https://fonts.googleapis.com/css?family=Source+Code+Pro\"'',
        ''      rel=\"stylesheet\"'',
        ''    />'',
        ''    <link'',
        ''      rel=\"icon\"'',
        ''      type=\"image/png\"'',
        ''      href=\"https://cdn4.iconfinder.com/data/icons/iconsimple-setting-time/512/dashboard-512.png\"'',
        ''    />'',
        ''    <style>'',
        ''      * {'',
        ''        font-family: 'Source Code Pro', monospace;'',
        ''      }'',
        ''    </style>'',
        ''  </head>'',
        ''  <body class=\"bg-secondary pt-5\">'']"

definition panel_form :: string where
  "panel_form =
     unlines
       ['''',
        ''    <form action=\"''] @ PANEL_FORM_ACTION @ ''\" method=\"'' @ PANEL_FORM_METHOD @
     unlines
       [''\">'',
        ''      <table class=\"table mx-auto bg-light\" style=\"width: inherit\">'',
        ''        <thead class=\"thead-dark\">'',
        ''          <tr>'',
        ''            <th scope=\"col\">#</th>'',
        ''            <th scope=\"col\">Host</th>'',
        ''            <th scope=\"col\">Port</th>'',
        ''            <th scope=\"col\">Input File</th>'',
        ''          </tr>'',
        ''        </thead>'',
        ''        <tbody>'']"

definition panel_row :: "string \<Rightarrow> string \<Rightarrow> nat \<Rightarrow> string" where
  "panel_row host_menu test_case_menu i =
     unlines
       ['''',
        ''          <tr>'',
        ''            <th scope=\"row\" class=\"align-middle\">Session ''] @ nat_text (i + 1) @
     unlines
       [''</th>'',
        ''            <td>'',
        ''              <div class=\"input-group\">'',
        ''                <select name=\"h''] @ nat_text i @
     unlines
       [''\" class=\"custom-select\">'',
        ''                  <option></option>''] @ host_menu @
     unlines
       ['''',
        ''                </select>'',
        ''                <div class=\"input-group-append\">'',
        ''                  <span class=\"input-group-text\">.cs.nycu.edu.tw</span>'',
        ''                </div>'',
        ''              </div>'',
        ''            </td>'',
        ''            <td>'',
        ''              <input name=\"p''] @ nat_text i @
     unlines
       [''\" type=\"text\" class=\"form-control\" size=\"5\" />'',
        ''            </td>'',
        ''            <td>'',
        ''              <select name=\"f''] @ nat_text i @
     unlines
       [''\" class=\"custom-select\">'',
        ''                <option></option>''] @ test_case_menu @
     unlines
       ['''',
        ''              </select>'',
        ''            </td>'',
        ''          </tr>'']"

definition panel_tail :: string where
  "panel_tail =
     unlines
       ['''',
        ''          <tr>'',
        ''            <td colspan=\"3\"></td>'',
        ''            <td>'',
        ''              <button type=\"submit\" class=\"btn btn-info btn-block\">Run</button>'',
        ''            </td>'',
        ''          </tr>'',
        ''        </tbody>'',
        ''      </table>'',
        ''    </form>'',
        ''  </body>'',
        ''</html>'']"

definition generatePanel :: "listing \<Rightarrow> string" where
  "generatePanel dir =
     (let test_case_menu = generatePanelTestCaseMenu dir;
          host_menu = generatePanelHostMenu PANEL_N_NP_HOST PANEL_DOMAIN
      in HTML_CONTENT_TYPE @ panel_head @ panel_form
         @ concat (map (panel_row host_menu test_case_menu) [0..<PANEL_N_SERVERS]) @ panel_tail)"

end
