(* ===== verification/Cgi_Facts.thy ===== *)
theory Cgi_Facts
  imports Cgi_Util "HOL-Library.Sublist"
begin

text \<open>
  What the two patterns of the query string match in the text a browser sends for the panel's form.
\<close>

subsection \<open>Matching a field list\<close>

lemma lit_step: "rmatch full (lit c # ps) caps (c # s) = rmatch full ps caps s"
  by (simp add: rmatch_one del: rmatch.simps)

lemma digit_step:
  assumes "isdigit d"
  shows "rmatch full (Rep (Some g) digit_class 1 (Some 1) # ps) caps (d # s) = rmatch full ps (caps(g := [d])) s"
proof -
  have "atom_ok digit_class d" using assms by (simp add: digit_class_def isdigit_def code_def)
  then have "rep_counts digit_class 1 (Some 1) (d # s) = [1]" by (simp add: rep_counts_def)
  then show ?thesis by (simp split: option.split)
qed

lemma backref_step: "caps i = [d] \<Longrightarrow> rmatch full (Backref i # ps) caps (d # s) = rmatch full ps caps s"
  by simp

definition good_value :: "string \<Rightarrow> bool" where
  "good_value v \<longleftrightarrow> CHR ''&'' \<notin> set v"

lemma group_step:
  assumes "rmatch full ps (caps(g := v)) s = Some r" and "good_value v" and "s = [] \<or> hd s = CHR ''&''"
  shows "rmatch full (group_many g value_class # ps) caps (v @ s) = Some r"
  using assms by (intro rmatch_many_all) (auto simp: value_class_def good_value_def)

definition row_text :: "char \<Rightarrow> ServerInfo \<Rightarrow> string" where
  "row_text d s = ''h'' @ d # ''='' @ host s @ ''&p'' @ d # ''='' @ port s @ ''&f'' @ d # ''='' @ fileName s"

definition good_row :: "char \<times> ServerInfo \<Rightarrow> bool" where
  "good_row r \<longleftrightarrow> isdigit (fst r) \<and> good_value (host (snd r)) \<and> good_value (port (snd r)) \<and> good_value (fileName (snd r))"

lemma row_match:
  assumes "good_row (d, s)" and "rest = [] \<or> hd rest = CHR ''&''"
  shows "\<exists>m. rmatch False QUERY_STRING caps (row_text d s @ rest) = Some (m, rest) \<and>
     m 2 = host s \<and> m 3 = port s \<and> m 4 = fileName s"
proof -
  let ?m = "caps(1 := [d], 2 := host s, 3 := port s, 4 := fileName s)"
  have g: "isdigit d" "good_value (host s)" "good_value (port s)" "good_value (fileName s)"
    using assms(1) by (simp_all add: good_row_def)
  have f: "rmatch False [lit (CHR ''&''), lit (CHR ''f''), Backref 1, lit (CHR ''=''), group_many 4 value_class]
      (caps(1 := [d], 2 := host s, 3 := port s)) (CHR ''&'' # CHR ''f'' # d # CHR ''='' # fileName s @ rest) = Some (?m, rest)"
    unfolding lit_step by (subst backref_step, simp) (unfold lit_step, rule group_step [OF _ g(4) assms(2)], simp)
  have p: "rmatch False ([lit (CHR ''&''), lit (CHR ''p''), Backref 1, lit (CHR ''=''), group_many 3 value_class] @
      [lit (CHR ''&''), lit (CHR ''f''), Backref 1, lit (CHR ''=''), group_many 4 value_class])
      (caps(1 := [d], 2 := host s)) (CHR ''&'' # CHR ''p'' # d # CHR ''='' # port s @ CHR ''&'' # CHR ''f'' # d # CHR ''='' # fileName s @ rest) = Some (?m, rest)"
    unfolding lit_step append.simps
    by (subst backref_step, simp) (unfold lit_step, rule group_step [OF f g(3)], simp)
  have "rmatch False QUERY_STRING caps (row_text d s @ rest) = Some (?m, rest)"
    unfolding QUERY_STRING_def row_text_def append.simps append_assoc lit_step digit_step [OF g(1)]
    by (rule group_step [OF p [unfolded append.simps] g(2)]) simp
  then show ?thesis by auto
qed

subsection \<open>Where a pattern cannot start\<close>

lemma search_here: "rmatch False ps (\<lambda>_. []) s = Some r \<Longrightarrow> regex_search ps s = Some r"
  by (cases s) simp_all

lemma search_skip: "rmatch False ps (\<lambda>_. []) (c # s) = None \<Longrightarrow> regex_search ps (c # s) = regex_search ps s"
  by simp

lemma search_skip_lit: "c \<noteq> d \<Longrightarrow> regex_search (lit d # ps) (c # s) = regex_search (lit d # ps) s"
  by (rule search_skip) (simp add: rmatch_one del: rmatch.simps)

lemma lit_elim:
  "rmatch full (lit c # ps) caps s \<noteq> None \<longleftrightarrow> (\<exists>t. s = c # t \<and> rmatch full ps caps t \<noteq> None)"
  by (cases s) (auto simp: rmatch_one simp del: rmatch.simps)

lemma digit_elim:
  "rmatch full (Rep (Some g) digit_class 1 (Some 1) # ps) caps s \<noteq> None \<Longrightarrow>
     \<exists>d t. s = d # t \<and> rmatch full ps (caps(g := [d])) t \<noteq> None"
  unfolding rmatch_rep_iff by (cases s) (auto simp: le_Suc_eq)

lemma group_elim:
  "rmatch full (group_many g value_class # ps) caps s \<noteq> None \<Longrightarrow>
     \<exists>x t. s = x @ t \<and> good_value x \<and> rmatch full ps (caps(g := x)) t \<noteq> None"
proof -
  assume "rmatch full (group_many g value_class # ps) caps s \<noteq> None"
  then obtain k where k: "k \<le> length (takeWhile (atom_ok value_class) s)"
      "rmatch full ps (caps(g := take k s)) (drop k s) \<noteq> None"
    unfolding rmatch_rep_iff by auto
  have "take k s = take k (takeWhile (atom_ok value_class) s)"
    using k(1) by (metis length_take min_def order_refl take_take takeWhile_eq_take)
  then have "good_value (take k s)"
    by (auto simp: good_value_def value_class_def dest!: in_set_takeD set_takeWhileD)
  then show ?thesis using k(2) append_take_drop_id by metis
qed

text \<open>A match of the row pattern contains \<open>&p\<close>.\<close>

lemma row_needs_p:
  assumes "rmatch False QUERY_STRING caps s \<noteq> None"
  shows "sublist ''&p'' s"
proof -
  let ?fs = "[Backref 1, lit (CHR ''=''), group_many 3 value_class, lit (CHR ''&''),
      lit (CHR ''f''), Backref 1, lit (CHR ''=''), group_many 4 value_class]"
  let ?ps = "group_many 2 value_class # lit (CHR ''&'') # lit (CHR ''p'') # ?fs"
  obtain s1 where s1: "s = CHR ''h'' # s1"
      "rmatch False (Rep (Some 1) digit_class 1 (Some 1) # lit (CHR ''='') # ?ps) caps s1 \<noteq> None"
    using assms unfolding QUERY_STRING_def lit_elim by blast
  from digit_elim [OF s1(2)] obtain d s2 where s2: "s1 = d # s2"
      "rmatch False (lit (CHR ''='') # ?ps) (caps(1 := [d])) s2 \<noteq> None" by blast
  from lit_elim [THEN iffD1, OF s2(2)] obtain s3 where s3: "s2 = CHR ''='' # s3"
      "rmatch False ?ps (caps(1 := [d])) s3 \<noteq> None" by blast
  from group_elim [OF s3(2)] obtain x s4 where s4: "s3 = x @ s4"
      "rmatch False (lit (CHR ''&'') # lit (CHR ''p'') # ?fs) (caps(1 := [d], 2 := x)) s4 \<noteq> None" by blast
  then obtain u where "s4 = CHR ''&'' # CHR ''p'' # u" unfolding lit_elim by blast
  then have "s = (CHR ''h'' # d # CHR ''='' # x) @ ''&p'' @ u" by (simp add: s1(1) s2(1) s3(1) s4(1))
  then show ?thesis unfolding sublist_def by blast
qed

lemma no_row: "\<not> sublist ''&p'' s \<Longrightarrow> regex_search QUERY_STRING s = None"
proof (induction s)
  case Nil
  have "rmatch False QUERY_STRING (\<lambda>_. []) [] = None"
    using row_needs_p [of "\<lambda>_. []" "[]"] by (metis sublist_Nil_right list.distinct(1))
  then show ?case by simp
next
  case (Cons c s)
  have "rmatch False QUERY_STRING (\<lambda>_. []) (c # s) = None"
    using row_needs_p [of "\<lambda>_. []" "c # s"] Cons.prems by blast
  moreover have "\<not> sublist ''&p'' s" using Cons.prems by (simp add: sublist_Cons_right)
  ultimately show ?case using Cons.IH by simp
qed

lemma sublist_value: "good_value v \<Longrightarrow> sublist (CHR ''&'' # ps) (v @ s) \<longleftrightarrow> sublist (CHR ''&'' # ps) s"
  by (induction v) (auto simp: good_value_def sublist_Cons_right)

text \<open>A match of the proxy pattern is \<open>sh=\<close>, a value and \<open>&sp=\<close>.\<close>

lemma proxy_shape:
  assumes "rmatch False SOCKS_PROXY_QUERY_STRING caps s \<noteq> None"
  shows "\<exists>x y. s = ''sh='' @ x @ ''&sp='' @ y \<and> good_value x"
proof -
  from assms obtain t where s: "s = ''sh='' @ t"
    and t: "rmatch False (group_many 1 value_class # map lit ''&sp='' @ [group_many 2 value_class]) caps t \<noteq> None"
    unfolding SOCKS_PROXY_QUERY_STRING_def list.map append.simps lit_elim by auto
  from group_elim [OF t] obtain x u where "t = x @ u" "good_value x"
      "rmatch False (map lit ''&sp='' @ [group_many 2 value_class]) (caps(1 := x)) u \<noteq> None"
    by blast
  moreover from this obtain y where "u = ''&sp='' @ y"
    unfolding list.map append.simps lit_elim by auto
  ultimately show ?thesis using s by blast
qed

lemma takeWhile_value: "good_value v \<Longrightarrow> s = [] \<or> hd s = CHR ''&'' \<Longrightarrow> takeWhile (\<lambda>c. c \<noteq> CHR ''&'') (v @ s) = v"
  by (rule takeWhile_append_stop) (auto simp: good_value_def)

lemma proxy_skip_value:
  assumes "good_value v" and "s = [] \<or> hd s = CHR ''&''" and "\<not> prefix ''&sp='' s"
  shows "regex_search SOCKS_PROXY_QUERY_STRING (v @ s) = regex_search SOCKS_PROXY_QUERY_STRING s"
  using assms(1)
proof (induction v)
  case (Cons c v)
  have "rmatch False SOCKS_PROXY_QUERY_STRING (\<lambda>_. []) (c # v @ s) = None"
  proof (rule ccontr)
    assume "rmatch False SOCKS_PROXY_QUERY_STRING (\<lambda>_. []) (c # v @ s) \<noteq> None"
    from proxy_shape [OF this] obtain x y where
      eq: "(c # v) @ s = (''sh='' @ x) @ ''&sp='' @ y" and x: "good_value x" by auto
    have "good_value (''sh='' @ x)" using x by (simp add: good_value_def)
    then have "takeWhile (\<lambda>c. c \<noteq> CHR ''&'') ((''sh='' @ x) @ ''&sp='' @ y) = ''sh='' @ x"
      by (rule takeWhile_value) simp
    moreover have "takeWhile (\<lambda>c. c \<noteq> CHR ''&'') ((c # v) @ s) = c # v"
      by (rule takeWhile_value [OF Cons.prems assms(2)])
    ultimately have "c # v = ''sh='' @ x" by (simp only: eq)
    then have "s = ''&sp='' @ y" using eq by (simp only: same_append_eq)
    then show False using assms(3) by simp
  qed
  then show ?case using Cons by (simp add: good_value_def)
qed simp

lemma proxy_skip_and: "regex_search SOCKS_PROXY_QUERY_STRING (CHR ''&'' # s) = regex_search SOCKS_PROXY_QUERY_STRING s"
  unfolding SOCKS_PROXY_QUERY_STRING_def list.map append.simps by (rule search_skip_lit) simp

subsection \<open>The form's query string\<close>

text \<open>What a browser sends for rows of the panel: the rows, then a tail (the proxy fields).\<close>

fun query_text :: "(char \<times> ServerInfo) list \<Rightarrow> string \<Rightarrow> string" where
  "query_text [] tail = tail"
| "query_text ((d, s) # rows) tail =
     row_text d s @ (if rows = [] \<and> tail = [] then [] else CHR ''&'' # query_text rows tail)"

definition used_row :: "ServerInfo \<Rightarrow> bool" where
  "used_row s \<longleftrightarrow> host s \<noteq> [] \<or> port s \<noteq> [] \<or> fileName s \<noteq> []"

definition proxy_text :: "string \<Rightarrow> string \<Rightarrow> string" where
  "proxy_text h p = ''sh='' @ h @ ''&sp='' @ p"

lemma query_rows_None: "regex_search QUERY_STRING s = None \<Longrightarrow> query_rows s = []"
  by (simp add: query_rows.simps)

lemma query_rows_and: "query_rows (CHR ''&'' # s) = query_rows s"
proof -
  have "regex_search QUERY_STRING (CHR ''&'' # s) = regex_search QUERY_STRING s"
    unfolding QUERY_STRING_def by (rule search_skip_lit) simp
  then show ?thesis by (subst (1 2) query_rows.simps) simp
qed

lemma query_rows_row:
  assumes "good_row (d, s)" and "rest = [] \<or> hd rest = CHR ''&''"
  shows "query_rows (row_text d s @ rest) = (if used_row s then [s\<lparr>fileName := fileName s\<rparr>] else []) @ query_rows rest"
proof -
  obtain c where c: "rmatch False QUERY_STRING (\<lambda>_. []) (row_text d s @ rest) = Some (c, rest)"
    "c 2 = host s" "c 3 = port s" "c 4 = fileName s"
    using row_match [OF assms] by blast
  then have "regex_search QUERY_STRING (row_text d s @ rest) = Some (c, rest)" by (intro search_here)
  then show ?thesis
    by (subst query_rows.simps) (simp add: c used_row_def)
qed

lemma query_rows_query:
  "list_all good_row rows \<Longrightarrow> query_rows tail = [] \<Longrightarrow>
     query_rows (query_text rows tail) = filter used_row (map snd rows)"
proof (induction rows)
  case (Cons r rows)
  obtain d s where r: "r = (d, s)" by (cases r)
  have good: "good_row (d, s)" using Cons.prems by (simp add: r)
  have empty: "query_rows [] = []" by (rule query_rows_None, rule no_row) simp
  show ?case
  proof (cases "rows = [] \<and> tail = []")
    case True
    then show ?thesis using query_rows_row [OF good, of "[]"] by (simp add: r empty)
  next
    case False
    then show ?thesis
      using Cons query_rows_row [OF good, of "CHR ''&'' # query_text rows tail"]
      by (auto simp: r query_rows_and)
  qed
qed simp

lemma proxy_skip_field:
  "good_value v \<Longrightarrow> s = [] \<or> hd s = CHR ''&'' \<Longrightarrow> \<not> prefix ''&sp='' s \<Longrightarrow>
     regex_search SOCKS_PROXY_QUERY_STRING (CHR ''&'' # n # d # CHR ''='' # v @ s) = regex_search SOCKS_PROXY_QUERY_STRING s"
  if "n \<noteq> CHR ''&''" "d \<noteq> CHR ''&''"
  using proxy_skip_value [of "n # d # CHR ''='' # v" s] that
  by (simp add: proxy_skip_and good_value_def del: regex_search.simps)

lemma proxy_skip_row:
  assumes "good_row (d, s)" and "rest = [] \<or> hd rest = CHR ''&''" and "\<not> prefix ''&sp='' rest"
  shows "regex_search SOCKS_PROXY_QUERY_STRING (row_text d s @ rest) = regex_search SOCKS_PROXY_QUERY_STRING rest"
proof -
  have g: "isdigit d" "good_value (host s)" "good_value (port s)" "good_value (fileName s)"
    using assms(1) by (simp_all add: good_row_def)
  have d: "d \<noteq> CHR ''&''" using g(1) by (auto simp: isdigit_def code_def)
  let ?f = "CHR ''&'' # CHR ''f'' # d # CHR ''='' # fileName s @ rest"
  let ?p = "CHR ''&'' # CHR ''p'' # d # CHR ''='' # port s @ ?f"
  have "regex_search SOCKS_PROXY_QUERY_STRING (row_text d s @ rest)
      = regex_search SOCKS_PROXY_QUERY_STRING ((CHR ''h'' # d # CHR ''='' # host s) @ ?p)"
    by (simp add: row_text_def del: regex_search.simps)
  also have "\<dots> = regex_search SOCKS_PROXY_QUERY_STRING ?p"
    using d g(2) by (intro proxy_skip_value) (auto simp: good_value_def)
  also have "\<dots> = regex_search SOCKS_PROXY_QUERY_STRING ?f"
    using d g(3) by (intro proxy_skip_field) auto
  also have "\<dots> = regex_search SOCKS_PROXY_QUERY_STRING rest"
    using d g(4) assms(2,3) by (intro proxy_skip_field) auto
  finally show ?thesis .
qed

lemma proxy_skip_query:
  "list_all good_row rows \<Longrightarrow> \<not> prefix ''sp='' tail \<Longrightarrow>
     regex_search SOCKS_PROXY_QUERY_STRING (query_text rows tail) = regex_search SOCKS_PROXY_QUERY_STRING tail"
proof (induction rows)
  case (Cons r rows)
  obtain d s where r: "r = (d, s)" by (cases r)
  have good: "good_row (d, s)" using Cons.prems by (simp add: r)
  have start: "\<not> prefix ''sp='' (query_text rows tail)"
    using Cons.prems(2) by (cases rows) (auto simp: row_text_def)
  show ?case
  proof (cases "rows = [] \<and> tail = []")
    case True
    then show ?thesis using proxy_skip_row [OF good, of "[]"] by (simp add: r del: regex_search.simps)
  next
    case False
    then show ?thesis
      using Cons start proxy_skip_row [OF good, of "CHR ''&'' # query_text rows tail"]
      by (auto simp: r proxy_skip_and simp del: regex_search.simps)
  qed
qed simp

lemma proxy_found:
  assumes "good_value h" and "good_value p"
  shows "\<exists>m r. regex_search SOCKS_PROXY_QUERY_STRING (proxy_text h p) = Some (m, r) \<and> m 1 = h \<and> m 2 = p"
proof -
  let ?m = "(\<lambda>_. [])(1 := h, 2 := p)"
  have 2: "rmatch False (map lit ''&sp='' @ [group_many 2 value_class]) ((\<lambda>_. [])(1 := h)) (''&sp='' @ p) = Some (?m, [])"
    using group_step [of False "[]" "(\<lambda>_. [])(1 := h)" 2 p "[]" "(?m, [])", OF _ assms(2)]
    unfolding rmatch_literals by simp
  have "rmatch False SOCKS_PROXY_QUERY_STRING (\<lambda>_. []) (proxy_text h p) = Some (?m, [])"
    unfolding SOCKS_PROXY_QUERY_STRING_def proxy_text_def rmatch_literals
    by (rule group_step [OF 2 assms(1)]) simp
  then have "regex_search SOCKS_PROXY_QUERY_STRING (proxy_text h p) = Some (?m, [])" by (rule search_here)
  then show ?thesis by auto
qed

lemma proxy_no_row:
  assumes "good_value h" and "good_value p"
  shows "query_rows (proxy_text h p) = []"
proof -
  have "\<not> sublist ''&p'' (p @ [])" using assms(2) unfolding sublist_value [OF assms(2)] by simp
  then have "\<not> sublist ''&p'' (''sh='' @ h @ ''&sp='' @ p)"
    using sublist_value [OF assms(1), of "''p''" "''&sp='' @ p"] by (simp add: sublist_Cons_right)
  then show ?thesis unfolding proxy_text_def by (intro query_rows_None no_row)
qed

subsection \<open>The panel's query string\<close>

lemma parse_panel_query:
  assumes "list_all good_row rows" and "good_value h" and "good_value p"
  shows "parseHTTPQueryString (Some (query_text rows (proxy_text h p))) =
     filter used_row (map snd rows) @ [\<lparr>host = h, port = p, fileName = []\<rparr>]"
proof -
  have "\<not> prefix ''sp='' (proxy_text h p)" by (simp add: proxy_text_def)
  then show ?thesis
    using proxy_found [OF assms(2,3)] query_rows_query [OF assms(1) proxy_no_row [OF assms(2,3)]]
    by (auto simp: parseHTTPQueryString_def proxy_skip_query [OF assms(1)] simp del: regex_search.simps)
qed

end
