(* ===== verification/Cgi_Properties.thy ===== *)
theory Cgi_Properties
  imports Cgi_Facts
begin

text \<open>
  The properties of the web console: the query string of the panel's form and the scripts that append
  text to the page.
\<close>

text \<open>C16. The query string a browser sends for the panel's form (rows with any one-digit numbers, then the
  proxy) is parsed back into the rows that are not empty, in order, and the proxy at the end.\<close>

theorem panel_query_roundtrip:
  assumes "list_all good_row rows" and "good_value h" and "good_value p"
  shows "parseHTTPQueryString (Some (query_text rows (proxy_text h p))) =
     filter used_row (map snd rows) @ [\<lparr>host = h, port = p, fileName = []\<rparr>]"
  using assms by (rule parse_panel_query)

theorem panel_query_roundtrip_witness:
  "parseHTTPQueryString (Some ''h0=np1&p0=80&f0=t1&h1=&p1=&f1=&sh=px&sp=90'') =
     [\<lparr>host = ''np1'', port = ''80'', fileName = ''t1''\<rparr>, \<lparr>host = ''px'', port = ''90'', fileName = []\<rparr>]"
proof -
  let ?rows = "[(CHR ''0'', \<lparr>host = ''np1'', port = ''80'', fileName = ''t1''\<rparr>),
      (CHR ''1'', \<lparr>host = [], port = [], fileName = []\<rparr>)]"
  have "list_all good_row ?rows" "good_value ''px''" "good_value ''90''"
    by (simp_all add: good_row_def good_value_def isdigit_def code_def)
  from panel_query_roundtrip [OF this] show ?thesis
    by (simp add: row_text_def proxy_text_def used_row_def)
qed

subsection \<open>Scripts\<close>

text \<open>What a browser makes of numeric character references.\<close>

function unescape :: "string \<Rightarrow> string" where
  "unescape s =
     (case s of
        [] \<Rightarrow> []
      | c # r \<Rightarrow>
          if c = CHR ''&'' \<and> r \<noteq> [] \<and> hd r = CHR ''#''
          then char_of (dec_val (takeWhile isdigit (tl r))) # unescape (drop 1 (dropWhile isdigit (tl r)))
          else c # unescape r)"
  by pat_completeness auto
termination
proof (relation "measure length")
  fix s c r
  assume "s = c # (r :: string)"
  moreover have "length (dropWhile isdigit (tl r)) \<le> length (tl r)" by (rule length_dropWhile_le)
  ultimately show "(drop 1 (dropWhile isdigit (tl r)), s) \<in> measure length" by simp
qed simp_all

declare unescape.simps [simp del]

definition ascii :: "char \<Rightarrow> bool" where
  "ascii c \<longleftrightarrow> code c < 128"

definition script_safe :: "char \<Rightarrow> bool" where
  "script_safe c \<longleftrightarrow> isalnum c \<or> c \<in> set ''&#;-''"

lemma unescape_alnum: "isalnum c \<Longrightarrow> unescape (c # s) = c # unescape s"
  by (subst unescape.simps) (auto simp: isalnum_def isalpha_def isdigit_def code_def)

lemma unescape_reference:
  assumes "ascii c"
  shows "unescape (''&#'' @ nat_text (code c) @ '';'' @ s) = c # unescape s"
proof -
  let ?d = "nat_text (code c)"
  have stop: "\<not> isdigit (CHR '';'')" by (simp add: isdigit_def code_def)
  have "takeWhile isdigit (?d @ CHR '';'' # s) = ?d" "dropWhile isdigit (?d @ CHR '';'' # s) = CHR '';'' # s"
    by (auto intro!: takeWhile_append_stop dropWhile_append_stop simp: stop dest: nat_text_digits)
  then show ?thesis by (subst unescape.simps) (simp add: code_def)
qed

lemma unescape_printEscape: "list_all ascii s \<Longrightarrow> unescape (printEscape s) = s"
proof (induction s)
  case Nil
  then show ?case by (simp add: printEscape_def unescape.simps)
next
  case (Cons c s)
  then have a: "ascii c" "unescape (printEscape s) = s" by simp_all
  have "to_string (schar c) = nat_text (code c)" using a(1) by (simp add: ascii_def schar_def to_string_def)
  then show ?case
    using a unescape_reference [OF a(1), of "printEscape s"]
    by (simp add: printEscape_def unescape_alnum)
qed

lemma to_string_safe: "c \<in> set (to_string i) \<Longrightarrow> script_safe c"
  by (auto simp: to_string_def script_safe_def isalnum_def dest!: nat_text_digits split: if_splits)

lemma printEscape_safe: "list_all script_safe (printEscape s)"
  by (induction s) (auto simp: printEscape_def script_safe_def list_all_iff dest: to_string_safe [unfolded script_safe_def])

text \<open>The escaped text holds only letters, digits and \<open>&#;-\<close>, whatever the shell wrote, so it cannot
  leave the string of the script; for ASCII text the browser decodes it to the text itself.\<close>

theorem printEscape_safe_and_exact:
  "list_all script_safe (printEscape s) \<and> (list_all ascii s \<longrightarrow> unescape (printEscape s) = s)"
  using printEscape_safe unescape_printEscape by blast

theorem printEscape_safe_and_exact_witness: "unescape (printEscape ''% <b>'') = ''% <b>''"
proof -
  have "list_all ascii ''% <b>''" by (simp add: ascii_def code_def)
  then show ?thesis using printEscape_safe_and_exact [of "''% <b>''"] by blast
qed

end
