(* ===== verification/Cgi_Application.thy ===== *)
theory Cgi_Application
  imports Cgi_Util Socks4
begin

text \<open>
  \<open>CGI::Application\<close> of \<open>312552017_np_project4/cgiserver\<close>: one session of the web console, which relays
  between a remote shell and the page and types the lines of a test case.  Names are resolved,
  connections made and data delivered by the environment: a round is one completed read, \<open>None\<close> when it
  failed, and the number of bytes the write that may follow it takes, \<open>None\<close> when it failed.
\<close>

text \<open>\<open>std::getline(ifs, line)\<close>\<close>

definition get_line :: "istream \<Rightarrow> string option \<times> istream" where
  "get_line st =
     (if failed st then (None, st)
      else if unread st = [] then (None, at_end)
      else (Some (takeWhile (\<lambda>c. c \<noteq> newline) (unread st)),
            st\<lparr>unread := drop 1 (dropWhile (\<lambda>c. c \<noteq> newline) (unread st))\<rparr>))"

record application =
  clientInfo :: ClientInfo
  serverinfo :: ServerInfo
  cgiInput :: istream

text \<open>The constructor; \<open>sessionId\<close> is not initialised, so its value is an argument.\<close>

definition Application :: "int \<Rightarrow> (string \<Rightarrow> string option) \<Rightarrow> ServerInfo \<Rightarrow> application" where
  "Application sid0 files info =
     (let f = ''test_case/'' @ fileName info
      in \<lparr>clientInfo = \<lparr>sessionId = sid0, userCommand = [], shellOutput = []\<rparr>,
          serverinfo = \<lparr>host = host info, port = port info, fileName = f\<rparr>,
          cgiInput = (case files f of None \<Rightarrow> at_end | Some s \<Rightarrow> istringstream s)\<rparr>)"

datatype app_event =
    Output string          \<comment> \<open>written to the page\<close>
  | To_Shell string        \<comment> \<open>the bytes the remote shell gets\<close>
  | Shutdown_Send

type_synonym round = "string option \<times> nat option"

fun handleShellInteraction :: "round list \<Rightarrow> application \<Rightarrow> app_event list" where
  "handleShellInteraction [] a = []"
| "handleShellInteraction ((None, _) # rounds) a = []"
| "handleShellInteraction ((Some d, wr) # rounds) a =
     (let ci = (clientInfo a)\<lparr>shellOutput := d\<rparr>
      in Output (output_shell ci) #
         (if find_sub ''% '' d = None then handleShellInteraction rounds (a\<lparr>clientInfo := ci\<rparr>)
          else (case get_line (cgiInput a) of
                  (None, st) \<Rightarrow> [Shutdown_Send]
                | (Some line, st) \<Rightarrow>
                    let ci' = ci\<lparr>userCommand := line @ [newline]\<rparr>
                    in Output (output_command ci') #
                       (case wr of
                          None \<Rightarrow> []
                        | Some n \<Rightarrow> To_Shell (take n (userCommand ci')) #
                            handleShellInteraction rounds (a\<lparr>clientInfo := ci', cgiInput := st\<rparr>)))))"

definition forwardforkedNPShellHTTPResp :: "round list \<Rightarrow> application \<Rightarrow> app_event list" where
  "forwardforkedNPShellHTTPResp rounds a = handleShellInteraction rounds a"

definition run ::
    "(string \<Rightarrow> string \<Rightarrow> endpoint option) \<Rightarrow> (endpoint \<Rightarrow> bool) \<Rightarrow> int \<Rightarrow> round list \<Rightarrow> application \<Rightarrow> app_event list" where
  "run resolve reach_ep sid rounds a =
     (let a' = a\<lparr>clientInfo := (clientInfo a)\<lparr>sessionId := sid\<rparr>\<rparr>
      in case resolve (host (serverinfo a')) (port (serverinfo a')) of
           None \<Rightarrow> []
         | Some ep \<Rightarrow> if reach_ep ep then forwardforkedNPShellHTTPResp rounds a' else [])"

subsection \<open>Through the proxy\<close>

text \<open>The 13 bytes \<open>socks4Request\<close> with the port and the address filled in.\<close>

definition socks4Request :: "endpoint \<Rightarrow> string" where
  "socks4Request ep =
     header_bytes \<lparr>version = 4, cmd = 1, dstport = htons (ep_port ep), dstaddr = htonl (address ep)\<rparr> @ ''MEOW'' @ [nul]"

datatype proxy_result =
    Resolve_Error                \<comment> \<open>\<open>resolve\<close> throws\<close>
  | No_Answer                    \<comment> \<open>\<open>read_some\<close> waits, or throws at the end of the stream\<close>
  | Refused
  | Session "app_event list"

text \<open>
  \<open>answer\<close> is what the one \<open>read_some\<close> of at most eight bytes delivers after the request; \<open>buf\<close> is what
  the array held before.
\<close>

definition connectProxy ::
    "(string \<Rightarrow> string \<Rightarrow> endpoint option) \<Rightarrow> (string \<Rightarrow> string option) \<Rightarrow> string \<Rightarrow> int \<Rightarrow> round list \<Rightarrow> application
      \<Rightarrow> proxy_result" where
  "connectProxy resolve answer buf sid rounds a =
     (let a' = a\<lparr>clientInfo := (clientInfo a)\<lparr>sessionId := sid\<rparr>\<rparr>
      in case resolve (host (serverinfo a')) (port (serverinfo a')) of
           None \<Rightarrow> Resolve_Error
         | Some ep \<Rightarrow>
             (case answer (socks4Request ep) of
                None \<Rightarrow> No_Answer
              | Some got \<Rightarrow>
                  let recv = take 8 got; hdr = header_at (recv @ drop (length recv) buf)
                  in if cmd hdr = SOCKS4_REPLY_GRANTED then Session (forwardforkedNPShellHTTPResp rounds a') else Refused))"

subsection \<open>\<open>console.cgi\<close>\<close>

text \<open>
  \<open>main\<close> of \<open>console.cpp\<close>: the last entry of the query is taken for the proxy.  The result is the page,
  the proxy and the sessions' hosts, which are connected one after the other with their index as id.
\<close>

definition console_main :: "string option \<Rightarrow> string option \<Rightarrow> (string \<times> ServerInfo \<times> (nat \<times> ServerInfo) list) result" where
  "console_main query file =
     (let httpReq = parseHTTPQueryString query
      in if httpReq = [] then Inl Out_Of_Bounds
         else let socks4Server = last httpReq; hosts = butlast httpReq
              in Inr (generateHTTPNPShellWebConsole file hosts, socks4Server, enumerate 0 hosts))"

end
