(* ===== verification/Page_Facts.thy ===== *)
theory Page_Facts
  imports Cgi_Application
begin

text \<open>
  The console page made from the built-in template: where the headers of the hosts and the cells of the
  sessions are, and which ids the cells have.
\<close>

definition pre_mark :: string where "pre_mark = ''<pre id='' @ dq"

text \<open>The ids of the page's \<open>pre\<close> elements, in order.\<close>

fun cell_ids :: "string \<Rightarrow> string list" where
  "cell_ids [] = []"
| "cell_ids (c # s) =
     (if take (length pre_mark) (c # s) = pre_mark
      then [takeWhile (\<lambda>d. d \<noteq> CHR 0x22) (drop (length pre_mark) (c # s))] else []) @ cell_ids s"

subsection \<open>Text without a pattern\<close>

text \<open>No occurrence of the pattern starts in the text, whatever follows the text.\<close>

fun clear :: "string \<Rightarrow> string \<Rightarrow> bool" where
  "clear p [] \<longleftrightarrow> True"
| "clear p (c # s) \<longleftrightarrow> take (length (c # s)) p \<noteq> take (length p) (c # s) \<and> clear p s"

lemma take_within: "take (length u) (take m (u @ y)) = take m u"
  by (cases "m \<le> length u") auto

lemma clear_start:
  assumes "clear p (c # s)"
  shows "take (length p) ((c # s) @ y) \<noteq> p"
proof
  assume "take (length p) ((c # s) @ y) = p"
  then have "take (length p) (c # s) = take (length (c # s)) p" using take_within by metis
  then show False using assms by simp
qed

lemma clear_append: "clear p x \<Longrightarrow> clear p y \<Longrightarrow> clear p (x @ y)"
proof (induction x)
  case (Cons c x)
  have "take (length ((c # x) @ y)) p \<noteq> take (length p) ((c # x) @ y)"
  proof
    assume "take (length ((c # x) @ y)) p = take (length p) ((c # x) @ y)"
    then have "take (length (c # x)) (take (length ((c # x) @ y)) p) = take (length p) (c # x)"
      by (simp only: take_within)
    then have "take (length (c # x)) p = take (length p) (c # x)" by (simp add: min_def)
    then show False using Cons.prems(1) by simp
  qed
  then show ?case using Cons by simp
qed simp

lemma clear_plain: "hd p \<notin> set x \<Longrightarrow> p \<noteq> [] \<Longrightarrow> clear p x"
  by (induction x) (auto simp: neq_Nil_conv)

lemma clear_Cons: "clear (q # p) (c # s) \<longleftrightarrow>
     (if c = q then take (length s) p \<noteq> take (length p) s \<and> clear (q # p) s else clear (q # p) s)"
  by auto

lemma find_sub_miss: "take (length p) (c # s) \<noteq> p \<Longrightarrow> find_sub p (c # s) = map_option Suc (find_sub p s)"
  by simp

lemma find_after: "clear p x \<Longrightarrow> find_sub p (x @ y) = map_option (\<lambda>i. length x + i) (find_sub p y)"
proof (induction x)
  case (Cons c x)
  have "find_sub p ((c # x) @ y) = map_option Suc (find_sub p (x @ y))"
    using clear_start [OF Cons.prems, of y] unfolding append_Cons [of c x y] by (rule find_sub_miss)
  then show ?case using Cons by (simp add: option.map_comp comp_def)
qed (cases "find_sub p y", simp_all)

lemma cells_after: "clear pre_mark x \<Longrightarrow> cell_ids (x @ y) = cell_ids y"
proof (induction x)
  case (Cons c x)
  then show ?case using clear_start [OF Cons.prems, of y] by simp
qed simp

lemma find_here: "find_sub p (p @ y) = Some 0"
proof (cases "p @ y")
  case (Cons a z)
  then have "take (length p) (a # z) = p" by (metis append_eq_conv_conj)
  then show ?thesis unfolding Cons by simp
qed simp

lemma replace_first_at: "clear p x \<Longrightarrow> replace_first p new (x @ p @ y) = x @ new @ y"
  by (simp add: replace_first_def find_after find_here)

subsection \<open>Lines\<close>

definition ended :: "string list \<Rightarrow> string" where
  "ended ls = concat (map (\<lambda>l. l @ [newline]) ls)"

lemma unlines_ended: "unlines (xs @ y # ys) = ended xs @ unlines (y # ys)"
  by (induction xs rule: unlines.induct) (auto simp: ended_def neq_Nil_conv)

lemma clear_ended:
  assumes "p \<noteq> []" "hd p \<noteq> newline"
  shows "list_all (clear p) ls \<Longrightarrow> clear p (ended ls)"
proof (induction ls)
  case (Cons l ls)
  have "clear p [newline]" using assms by (intro clear_plain) auto
  then have "clear p ((l @ [newline]) @ ended ls)" using Cons by (intro clear_append) simp_all
  then show ?case by (simp add: ended_def)
qed (simp add: ended_def)

subsection \<open>The built-in template\<close>

definition template_top :: string where
  "template_top = ended console_head @ ''          ''"

definition template_middle :: string where
  "template_middle = newline # ended [''        </tr>'', ''      </thead>'', ''      <tbody>'', ''        <tr>''] @ ''          ''"

definition template_end :: string where
  "template_end = newline # unlines [''        </tr>'', ''      </tbody>'', ''    </table>'', ''  </body>'', ''</html>'']"

lemma template_split: "npshell_webconsole = template_top @ th_mark @ template_middle @ td_tag 0 @ template_end"
  unfolding npshell_webconsole_def unlines_ended
  by (simp add: template_top_def template_middle_def template_end_def th_mark_def td_tag_def dq_def nat_text_0 ended_def)

lemma td_tag_0: "td_tag 0 = ''<td><pre id='' @ dq @ ''s0'' @ dq @ '' class='' @ dq @ ''mb-0'' @ dq @ ''></pre></td>''"
  by (simp add: td_tag_def nat_text_0)

lemma console_head_clear:
  "list_all (clear th_mark) console_head" "list_all (clear pre_mark) console_head" "list_all (clear (td_tag 0)) console_head"
  by (simp_all add: console_head_def th_mark_def pre_mark_def td_tag_0 dq_def clear_Cons del: clear.simps(2))

text \<open>All three patterns start with \<open><\<close>.\<close>

lemma pattern_start [simp]:
  "hd th_mark = CHR ''<''" "hd pre_mark = CHR ''<''" "hd (td_tag 0) = CHR ''<''"
  "th_mark \<noteq> []" "pre_mark \<noteq> []" "td_tag 0 \<noteq> []"
  by (simp_all add: th_mark_def pre_mark_def td_tag_0)

lemma newline_not_tag [simp]: "CHR ''<'' \<noteq> newline"
  by (simp add: newline_def)

lemma clear_text: "hd p = CHR ''<'' \<Longrightarrow> p \<noteq> [] \<Longrightarrow> CHR ''<'' \<notin> set x \<Longrightarrow> clear p x"
  by (simp add: clear_plain)

lemma template_clear:
  "clear th_mark template_top" "clear pre_mark template_top" "clear (td_tag 0) template_top"
  unfolding template_top_def
  by (intro clear_append clear_ended console_head_clear clear_text; simp)+

lemma template_middle_clear: "clear pre_mark template_middle" "clear (td_tag 0) template_middle"
  by (simp_all add: template_middle_def ended_def pre_mark_def td_tag_0 dq_def clear_Cons newline_def del: clear.simps(2))

lemma template_end_clear: "clear pre_mark template_end"
  by (simp add: template_end_def pre_mark_def dq_def clear_Cons newline_def del: clear.simps(2))

definition plain_host :: "ServerInfo \<Rightarrow> bool" where
  "plain_host s \<longleftrightarrow> CHR ''<'' \<notin> set (host s) \<and> CHR ''<'' \<notin> set (port s)"

lemma th_tag_clear:
  assumes "plain_host s"
  shows "clear pre_mark (th_tag s)" "clear (td_tag 0) (th_tag s)"
proof -
  have v: "clear pre_mark (host s @ '':'' @ port s)" "clear (td_tag 0) (host s @ '':'' @ port s)"
    using assms by (auto simp: plain_host_def intro!: clear_text)
  have a: "clear pre_mark (''<th scope='' @ dq @ ''col'' @ dq @ ''>'')" "clear pre_mark ''</th>''"
    by (simp_all add: pre_mark_def dq_def clear_Cons del: clear.simps(2))
  have b: "clear (td_tag 0) (''<th scope='' @ dq @ ''col'' @ dq @ ''>'')" "clear (td_tag 0) ''</th>''"
    by (simp_all add: td_tag_0 dq_def clear_Cons del: clear.simps(2))
  have eq: "th_tag s = (''<th scope='' @ dq @ ''col'' @ dq @ ''>'') @ (host s @ '':'' @ port s) @ ''</th>''"
    by (simp add: th_tag_def)
  show "clear pre_mark (th_tag s)" unfolding eq by (intro clear_append a v)
  show "clear (td_tag 0) (th_tag s)" unfolding eq by (intro clear_append b v)
qed

lemma clear_join:
  assumes "p \<noteq> []" "hd p = CHR ''<''"
  shows "list_all (clear p) ts \<Longrightarrow> clear p (join_tags ts)"
proof (induction ts)
  case (Cons t ts)
  have gap: "clear p (crlf @ ''          '')" using assms by (intro clear_text) (auto simp: crlf_def newline_def)
  have "clear p (t @ (crlf @ ''          '') @ join_tags ts)" using Cons by (intro clear_append gap) simp_all
  then show ?case using Cons by simp
qed simp

text \<open>The page: the headers of the hosts and the cells of the sessions in the places of the template's.\<close>

lemma console_page_layout:
  assumes "list_all plain_host hosts"
  shows "generateHTTPNPShellWebConsole None hosts =
    HTML_CONTENT_TYPE @ template_top @ join_tags (map th_tag hosts) @ template_middle
      @ join_tags (map td_tag [0..<length hosts]) @ template_end"
proof -
  let ?ths = "join_tags (map th_tag hosts)"
  have one: "replace_first th_mark ?ths npshell_webconsole = template_top @ ?ths @ template_middle @ td_tag 0 @ template_end"
    unfolding template_split by (rule replace_first_at [OF template_clear(1)])
  have "list_all (clear (td_tag 0)) (map th_tag hosts)"
    using assms th_tag_clear(2) by (simp add: list_all_iff)
  then have "clear (td_tag 0) ?ths" by (intro clear_join) simp_all
  then have "clear (td_tag 0) (template_top @ ?ths @ template_middle)"
    by (intro clear_append template_clear template_middle_clear)
  from replace_first_at [OF this, of "join_tags (map td_tag [0..<length hosts])" template_end]
  show ?thesis by (simp add: generateHTTPNPShellWebConsole_def one)
qed

subsection \<open>The cells\<close>

lemma cell_ids_mark:
  assumes "CHR 0x22 \<notin> set v"
  shows "cell_ids (pre_mark @ v @ dq @ y) = v # cell_ids (drop 1 pre_mark @ v @ dq @ y)"
proof -
  have "takeWhile (\<lambda>d. d \<noteq> CHR 0x22) (v @ CHR 0x22 # y) = v"
    using assms by (intro takeWhile_append_stop) auto
  then show ?thesis by (simp add: pre_mark_def dq_def)
qed

lemma nat_text_plain: "CHR ''<'' \<notin> set (nat_text i)" "CHR 0x22 \<notin> set (nat_text i)"
  using nat_text_digits [of "CHR ''<''" i] nat_text_digits [of "CHR 0x22" i] by (auto simp: isdigit_def code_def)

lemma cell_ids_td: "cell_ids (td_tag i @ y) = (''s'' @ nat_text i) # cell_ids y"
proof -
  let ?v = "''s'' @ nat_text i"
  let ?e = "'' class='' @ dq @ ''mb-0'' @ dq @ ''></pre></td>''"
  have eq: "td_tag i @ y = ''<td>'' @ pre_mark @ ?v @ dq @ ?e @ y"
    by (simp add: td_tag_def pre_mark_def)
  have c: "clear pre_mark ''<td>''" "clear pre_mark ?e"
    by (simp_all add: pre_mark_def dq_def clear_Cons del: clear.simps(2))
  have d: "clear pre_mark (drop 1 pre_mark @ ?v @ dq)"
    using nat_text_plain by (intro clear_text) (auto simp: pre_mark_def dq_def)
  have "cell_ids (drop 1 pre_mark @ ?v @ dq @ ?e @ y) = cell_ids y"
    using cells_after [OF clear_append [OF d c(2)], of y] by simp
  moreover have "cell_ids (pre_mark @ ?v @ dq @ ?e @ y) = ?v # cell_ids (drop 1 pre_mark @ ?v @ dq @ ?e @ y)"
    using nat_text_plain by (intro cell_ids_mark) simp
  ultimately show ?thesis unfolding eq cells_after [OF c(1)] by (simp only:)
qed

lemma cell_ids_join: "cell_ids (join_tags (map td_tag is) @ y) = map (\<lambda>i. ''s'' @ nat_text i) is @ cell_ids y"
proof (induction "is")
  case (Cons i "is")
  have "clear pre_mark (crlf @ ''          '')"
    by (intro clear_text) (auto simp: crlf_def newline_def)
  then show ?case
    using Cons cells_after [of "crlf @ ''          ''"] by (cases "is = []") (simp_all add: cell_ids_td)
qed simp

lemma cell_ids_page:
  assumes "list_all plain_host hosts"
  shows "cell_ids (generateHTTPNPShellWebConsole None hosts) = map (\<lambda>i. ''s'' @ nat_text i) [0..<length hosts]"
proof -
  have "clear pre_mark HTML_CONTENT_TYPE"
    by (intro clear_text) (auto simp: HTML_CONTENT_TYPE_def crlf_def newline_def)
  moreover have "clear pre_mark (join_tags (map th_tag hosts))"
    using assms th_tag_clear(1) by (intro clear_join) (auto simp: list_all_iff)
  moreover have "cell_ids template_end = []"
    using cells_after [OF template_end_clear, of "[]"] by simp
  ultimately show ?thesis
    by (simp add: console_page_layout [OF assms] cells_after template_clear template_middle_clear cell_ids_join)
qed

end
