(* ===== verification/Console_Properties.thy ===== *)
theory Console_Properties
  imports Page_Facts Cgi_Facts Socks4_Properties Np_Commands
begin

text \<open>
  The properties of the web console's sessions: the test case is typed in step with the prompts, a
  session through the proxy of project 4 starts exactly when the proxy grants it, and which entry of
  the query string \<open>console.cgi\<close> takes for the proxy.
\<close>

subsection \<open>Typing a test case\<close>

lemma get_line_lines:
  "get_line \<lparr>unread = s, failed = False\<rparr> =
     (case input_lines s of
        [] \<Rightarrow> (None, at_end)
      | l # _ \<Rightarrow> (Some l, \<lparr>unread = drop 1 (dropWhile (\<lambda>c. c \<noteq> newline) s), failed = False\<rparr>))"
  by (subst input_lines.simps) (simp add: get_line_def)

lemma input_lines_rest:
  "s \<noteq> [] \<Longrightarrow> input_lines (drop 1 (dropWhile (\<lambda>c. c \<noteq> newline) s)) = tl (input_lines s)"
  by (subst (2) input_lines.simps) simp

lemma input_lines_empty [simp]: "input_lines s = [] \<longleftrightarrow> s = []"
  by (subst input_lines.simps) simp

fun typed :: "app_event list \<Rightarrow> string list" where
  "typed [] = []"
| "typed (To_Shell s # es) = s # typed es"
| "typed (_ # es) = typed es"

definition prompts :: "round list \<Rightarrow> nat" where
  "prompts rounds = length (filter (\<lambda>r. find_sub ''% '' (the (fst r)) \<noteq> None) rounds)"

text \<open>A round whose read succeeds and whose write takes \<open>n\<close> bytes or more.\<close>

definition full_round :: "nat \<Rightarrow> round \<Rightarrow> bool" where
  "full_round n r \<longleftrightarrow> (case r of (Some _, Some m) \<Rightarrow> n \<le> m | _ \<Rightarrow> False)"

lemma typed_rounds:
  "list_all (full_round n) rounds \<Longrightarrow> list_all (\<lambda>l. length l < n) (input_lines s) \<Longrightarrow>
     cgiInput a = \<lparr>unread = s, failed = False\<rparr> \<Longrightarrow>
     typed (handleShellInteraction rounds a) = map (\<lambda>l. l @ [newline]) (take (prompts rounds) (input_lines s)) \<and>
     (Shutdown_Send \<in> set (handleShellInteraction rounds a) \<longleftrightarrow> length (input_lines s) < prompts rounds)"
proof (induction rounds arbitrary: s a)
  case Nil
  then show ?case by (simp add: prompts_def)
next
  case (Cons r rounds)
  obtain d m where r: "r = (Some d, Some m)" "n \<le> m"
    using Cons.prems(1) by (cases r) (auto simp: full_round_def split: option.splits)
  have rounds: "list_all (full_round n) rounds" using Cons.prems(1) by simp
  show ?case
  proof (cases "find_sub ''% '' d")
    case None
    then show ?thesis
      using Cons.IH [OF rounds Cons.prems(2)] Cons.prems(3) by (simp add: r prompts_def Let_def)
  next
    case (Some i)
    then have p: "prompts ((Some d, Some m) # rounds) = Suc (prompts rounds)" by (simp add: prompts_def)
    show ?thesis
    proof (cases "input_lines s")
      case Nil
      then show ?thesis using Some Cons.prems(3) by (simp add: r p get_line_lines Let_def)
    next
      case (Cons l ls)
      let ?rest = "drop (Suc 0) (dropWhile (\<lambda>c. c \<noteq> newline) s)"
      have rest: "input_lines ?rest = ls" using Cons input_lines_rest [of s] by (cases "s = []") simp_all
      have "list_all (\<lambda>l. length l < n) (input_lines ?rest)" "length l < n"
        using Cons.prems(2) by (simp_all add: rest Cons)
      moreover have "take m (l @ [newline]) = l @ [newline]"
        using \<open>length l < n\<close> r(2) by (intro take_all) simp
      ultimately show ?thesis
        using Cons.IH [OF rounds, of ?rest] Some Cons.prems(3) by (simp add: r p get_line_lines Cons Let_def rest del: take_append)
    qed
  qed
qed

text \<open>C18. A session types the lines of its test case in order, one at each prompt it sees and none
  before: after \<open>k\<close> prompts exactly the first \<open>k\<close> lines were sent, and the sending side is shut down
  at the first prompt after the last line.\<close>

theorem interaction_lockstep:
  assumes "list_all (full_round n) rounds" and "list_all (\<lambda>l. length l < n) (input_lines text)"
  shows "typed (handleShellInteraction rounds (Application i (\<lambda>_. Some text) info)) =
      map (\<lambda>l. l @ [newline]) (take (prompts rounds) (input_lines text)) \<and>
    (Shutdown_Send \<in> set (handleShellInteraction rounds (Application i (\<lambda>_. Some text) info)))
      = (length (input_lines text) < prompts rounds)"
  using typed_rounds [OF assms, of "Application i (\<lambda>_. Some text) info"]
  by (simp add: Application_def istringstream_def Let_def)

theorem interaction_lockstep_witness:
  "typed (handleShellInteraction [(Some ''% '', Some 9), (Some ''a'', Some 9), (Some ''b% '', Some 9)]
      (Application 0 (\<lambda>_. Some (''ls'' @ [newline] @ ''exit'')) \<lparr>host = [], port = [], fileName = ''t1''\<rparr>))
     = [''ls'' @ [newline], ''exit'' @ [newline]]"
proof -
  let ?rounds = "[(Some ''% '', Some 9), (Some ''a'', Some 9), (Some ''b% '', Some 9)] :: round list"
  have lines: "input_lines (''ls'' @ [newline] @ ''exit'') = [''ls'', ''exit'']"
    by (simp add: input_lines.simps newline_def)
  have "list_all (full_round 9) ?rounds" by (simp add: full_round_def)
  moreover have "list_all (\<lambda>l. length l < 9) (input_lines (''ls'' @ [newline] @ ''exit''))"
    unfolding lines by simp
  moreover have "prompts ?rounds = 2" by (simp add: prompts_def)
  ultimately show ?thesis
    using interaction_lockstep [of 9 ?rounds "''ls'' @ [newline] @ ''exit''" 0] lines by simp
qed

subsection \<open>Through the proxy\<close>

text \<open>What the SOCKS server of project 4 sends back for a request.\<close>

definition socks_answer :: "socks_env \<Rightarrow> string \<Rightarrow> string \<Rightarrow> string option" where
  "socks_answer env buf req =
     (case handleRead env buf req of
        Some (Inr es) \<Rightarrow> if client_bytes es = [] then None else Some (client_bytes es)
      | _ \<Rightarrow> None)"

definition request_header :: "endpoint \<Rightarrow> Socks4Header" where
  "request_header ep = \<lparr>version = 4, cmd = 1, dstport = htons (ep_port ep), dstaddr = htonl (address ep)\<rparr>"

lemma request_header:
  "socks4Request ep = header_bytes (request_header ep) @ ''MEOW'' @ [nul]"
  "cmd (request_header ep) = SOCKS4_CMD_CONNECT" "target (request_header ep) = ep"
  "direct (request_header ep) \<longleftrightarrow> unat (address ep) \<notin> {1..255}"
  by (simp_all add: socks4Request_def request_header_def SOCKS4_CMD_CONNECT_def target_def direct_def)

lemma answer_of_request:
  assumes "unat (address ep) \<notin> {1..255}"
    and "isDestinationIPAddressAllowed (socks_conf env) (dotted (address ep)) True = Some allowed"
  shows "socks_answer env buf (socks4Request ep) =
     (if \<not> allowed then Some (header_bytes reject_hdr)
      else if reachable env ep then Some (header_bytes (granted 0)) else None)"
proof -
  have d: "direct (request_header ep)" using assms(1) request_header(4) by blast
  have dst: "ntohl (dstaddr (request_header ep)) = address ep" by (simp add: request_header_def)
  have nonempty: "header_bytes h \<noteq> []" for h by (simp add: header_bytes_def)
  show ?thesis
    using assms(2)
    by (auto simp: socks_answer_def request_header handleRead_direct [OF d] dst logs_quiet nonempty
        handleCommand_def connect_def reply_def relayTraffic_def granted_def Let_def)
qed

text \<open>C14. The console's request and the proxy of project 4 fit together: for a resolved address that is not
  one of \<open>0.0.0.1 \<dots> 0.0.0.255\<close> the session starts exactly when the firewall allows the
  destination and it can be reached; a refusal is noticed; when the destination cannot be reached
  the proxy says nothing and the console never gets an answer.\<close>

theorem proxy_tunnel:
  assumes "resolve (host (serverinfo a)) (port (serverinfo a)) = Some ep"
    and "unat (address ep) \<notin> {1..255}"
    and "isDestinationIPAddressAllowed (socks_conf env) (dotted (address ep)) True = Some allowed"
  shows "connectProxy resolve (socks_answer env buf) junk sid rounds a =
     (if \<not> allowed then Refused
      else if reachable env ep
      then Session (handleShellInteraction rounds (a\<lparr>clientInfo := (clientInfo a)\<lparr>sessionId := sid\<rparr>\<rparr>))
      else No_Answer)"
  using header_at_bytes [of reject_hdr] header_at_bytes [of "granted 0"]
  by (simp add: connectProxy_def assms(1) answer_of_request [OF assms(2,3)] Let_def
      forwardforkedNPShellHTTPResp_def)
    (simp add: reject_hdr_def granted_def SOCKS4_REPLY_GRANTED_def SOCKS4_REPLY_REJECTED_def)

definition sample_app :: application where
  "sample_app = \<lparr>clientInfo = \<lparr>sessionId = 0, userCommand = [], shellOutput = []\<rparr>,
     serverinfo = \<lparr>host = ''np1'', port = ''80'', fileName = ''t1''\<rparr>, cgiInput = at_end\<rparr>"

theorem proxy_tunnel_witness:
  "connectProxy (\<lambda>_ _. Some \<lparr>address = sample_address, ep_port = 80\<rparr>) (socks_answer sample_env []) [] 0 [] sample_app
     = No_Answer"
proof -
  have "unat sample_address \<notin> {1..255}" by (simp add: sample_address_def unat_le32)
  then show ?thesis
    using proxy_tunnel [of "\<lambda>_ _. Some \<lparr>address = sample_address, ep_port = 80\<rparr>" sample_app,
        OF refl _ sample_allowed]
    by (simp add: sample_env_def)
qed

subsection \<open>\<open>console.cgi\<close>\<close>

lemma no_proxy_fields: "regex_search SOCKS_PROXY_QUERY_STRING [] = None"
proof -
  have "rmatch False SOCKS_PROXY_QUERY_STRING (\<lambda>_. []) [] = None"
    using proxy_shape [of "\<lambda>_. []" "[]"] by (metis append_is_Nil_conv list.distinct(1))
  then show ?thesis by simp
qed

lemma parse_without_proxy:
  assumes "list_all good_row rows"
  shows "parseHTTPQueryString (Some (query_text rows [])) = filter used_row (map snd rows)"
proof -
  have "query_rows [] = []" by (rule query_rows_None, rule no_row) simp
  then show ?thesis
    by (simp add: parseHTTPQueryString_def query_rows_query [OF assms] proxy_skip_query [OF assms]
        no_proxy_fields del: regex_search.simps)
qed

text \<open>\<open>console.cgi\<close> takes the last entry for the proxy whether the query has proxy fields or not: with
  the form of project 3, which has none, the last server is used as the proxy and gets no session, and
  a form without any server is undefined behaviour.\<close>

theorem console_without_proxy:
  assumes "list_all good_row rows"
  shows "console_main (Some (query_text rows [])) file =
     (let servers = filter used_row (map snd rows)
      in if servers = [] then Inl Out_Of_Bounds
         else Inr (generateHTTPNPShellWebConsole file (butlast servers), last servers,
                   enumerate 0 (butlast servers)))"
  by (simp add: console_main_def parse_without_proxy [OF assms] Let_def)

theorem console_without_proxy_witness:
  "console_main (Some ''h0=np1&p0=80&f0=t1'') None =
     Inr (generateHTTPNPShellWebConsole None [], \<lparr>host = ''np1'', port = ''80'', fileName = ''t1''\<rparr>, [])"
proof -
  let ?rows = "[(CHR ''0'', \<lparr>host = ''np1'', port = ''80'', fileName = ''t1''\<rparr>)]"
  have "list_all good_row ?rows" by (simp add: good_row_def good_value_def isdigit_def code_def)
  from console_without_proxy [OF this] show ?thesis
    by (simp add: row_text_def used_row_def)
qed

subsection \<open>Where the output goes\<close>

text \<open>The id of the element a script appends to.\<close>

definition script_target :: "string \<Rightarrow> string" where
  "script_target s = takeWhile (\<lambda>c. c \<noteq> CHR 0x27) (drop (length ''<script>document.getElementById('' + 1) s)"

lemma script_targets:
  "script_target (output_shell ci) = ''s'' @ to_string (sessionId ci)"
  "script_target (output_command ci) = ''s'' @ to_string (sessionId ci)"
proof -
  have "CHR 0x27 \<notin> set (to_string (sessionId ci))"
    using nat_text_digits [of "CHR 0x27"] by (auto simp: to_string_def isdigit_def code_def)
  then have "takeWhile (\<lambda>c. c \<noteq> CHR 0x27) (to_string (sessionId ci) @ CHR 0x27 # y) = to_string (sessionId ci)" for y
    by (intro takeWhile_append_stop) auto
  then show "script_target (output_shell ci) = ''s'' @ to_string (sessionId ci)"
      "script_target (output_command ci) = ''s'' @ to_string (sessionId ci)"
    by (simp_all add: script_target_def output_shell_def output_command_def)
qed

lemma interaction_targets:
  "Output s \<in> set (handleShellInteraction rounds a) \<Longrightarrow>
     script_target s = ''s'' @ to_string (sessionId (clientInfo a))"
  by (induction rounds a rule: handleShellInteraction.induct)
    (auto simp: Let_def script_targets split: if_splits option.splits prod.splits)

lemma proxy_session_targets:
  assumes "connectProxy resolve answer buf sid rounds a = Session es" and "Output s \<in> set es"
  shows "script_target s = ''s'' @ to_string sid"
  using assms interaction_targets
  by (fastforce simp: connectProxy_def forwardforkedNPShellHTTPResp_def Let_def split: option.splits if_splits)



end
