(* ===== verification/Cgi_Session.thy ===== *)
theory Cgi_Session
  imports Cgi_Application Reach
begin

text \<open>
  \<open>CGI::Session\<close> of \<open>312552017_np_project4/cgiserver\<close>: one HTTP request, the program it starts and its
  environment, the built-in pages of the other platform (\<open>routeAPI\<close>), and the queue of text still to be
  written.  \<open>boost::split\<close> is a parameter.  Beast's string views are passed on by their \<open>data()\<close>, which
  is read up to the next NUL: the request has a field for each such text, next to the target itself.
\<close>

record http_request =
  req_target :: string
  target_data :: string
  method_data :: string
  host_data :: string
  http_version :: nat

record connection =
  server_addr :: string
  server_port :: nat
  remote_addr :: string
  remote_port :: nat

subsection \<open>Starting the program\<close>

definition addEnv :: "string \<Rightarrow> string \<Rightarrow> string list \<Rightarrow> string list" where
  "addEnv format arg envs = envs @ [format @ arg]"

definition saveParms :: "http_request \<Rightarrow> connection \<Rightarrow> string \<Rightarrow> string list \<Rightarrow> string list" where
  "saveParms req con query parms =
     addEnv ''REMOTE_PORT='' (nat_text (remote_port con))
    (addEnv ''REMOTE_ADDR='' (remote_addr con)
    (addEnv ''SERVER_PORT='' (nat_text (server_port con))
    (addEnv ''SERVER_ADDR='' (server_addr con)
    (addEnv ''HTTP_HOST='' (host_data req)
    (addEnv ''SERVER_PROTOCOL=HTTP/'' (nat_text (http_version req div 10) @ ''.'' @ nat_text (http_version req mod 10))
    (addEnv ''QUERY_STRING='' query
    (addEnv ''REQUEST_URI='' (target_data req)
    (addEnv ''REQUEST_METHOD='' (method_data req) parms))))))))"

datatype session_event =
    Http_Out string
  | Exec_CGI string "string list" "string list"    \<comment> \<open>the file, \<open>argv\<close> and the environment\<close>
  | Stop_Context
  | Http_Shutdown                                   \<comment> \<open>\<open>handleHttpError\<close>: no more output\<close>

text \<open>
  What the forked child does: \<open>can_open\<close> and \<open>can_exec\<close> tell which files can be opened and executed,
  \<open>wr\<close> is the number of bytes the one write takes, \<open>None\<close> when it fails.
\<close>

definition forkCGI ::
    "(string \<Rightarrow> bool) \<Rightarrow> (string \<Rightarrow> bool) \<Rightarrow> nat option \<Rightarrow> string \<Rightarrow> string list \<Rightarrow> session_event list" where
  "forkCGI can_open can_exec wr programPath envp =
     (if \<not> can_open (c_str programPath) then [Stop_Context]
      else (case wr of
              None \<Rightarrow> []
            | Some n \<Rightarrow>
                Http_Out (take n HTTP200) #
                (if can_exec (c_str programPath)
                 then [Exec_CGI (c_str programPath) [c_str programPath] (map c_str envp)]
                 else [Stop_Context])))"

text \<open>The path and the query of a target, \<open>splitter[0]\<close> and \<open>splitter[1]\<close>.\<close>

definition split_target :: "(string \<Rightarrow> string list) \<Rightarrow> string \<Rightarrow> (string \<times> string) result" where
  "split_target split t =
     (let sp = split t; splitter = (if length sp < 2 then sp @ [[]] else sp)
      in if length splitter < 2 then Inl Out_Of_Bounds else Inr (''.'' @ splitter ! 0, splitter ! 1))"

definition handleHttpRequest ::
    "(string \<Rightarrow> string list) \<Rightarrow> (string \<Rightarrow> bool) \<Rightarrow> (string \<Rightarrow> bool) \<Rightarrow> nat option \<Rightarrow> http_request \<Rightarrow> connection
      \<Rightarrow> session_event list result" where
  "handleHttpRequest split can_open can_exec wr req con =
     rbind (split_target split (req_target req)) (\<lambda>(path, query).
       Inr (forkCGI can_open can_exec wr path (saveParms req con query [])))"

text \<open>\<open>run\<close>: the handler of the read that delivers the request, which is \<open>request\<close> if it succeeded.\<close>

datatype http_read = No_Error | End_Of_Stream | Other_Error

definition run_session :: "http_read \<Rightarrow> session_event list result \<Rightarrow> session_event list result" where
  "run_session ec request =
     (let es = (if ec = End_Of_Stream then [Http_Shutdown] else [])
      in if ec = No_Error then rbind request (\<lambda>hs. Inr (es @ hs)) else Inr es)"

subsection \<open>Built-in pages\<close>

datatype route =
    Panel_Page string
  | Console_Page string "(nat \<times> ServerInfo) list"    \<comment> \<open>the text written, and the sessions started after it\<close>
  | No_Route

definition routeAPI :: "listing \<Rightarrow> string option \<Rightarrow> string \<Rightarrow> string \<Rightarrow> route" where
  "routeAPI dir file programPath query =
     (if programPath = ''./panel.cgi'' then Panel_Page (generatePanel dir)
      else if programPath = ''./console.cgi'' then
        (let queryString = parseHTTPQueryString (Some (c_str query))
         in Console_Page (HTTP200 @ HTML_CONTENT_TYPE @ generateHTTPNPShellWebConsole file queryString @ [newline])
              (enumerate 0 queryString))
      else No_Route)"

subsection \<open>Text waiting to be written\<close>

text \<open>
  \<open>outstanding\<close> counts the writes started and not completed.  The last three fields are history: what was
  handed to \<open>write\<close>, what each completed write took, and whether one has failed.
\<close>

record write_queue =
  htmlContent :: "string list"
  outstanding :: nat
  offered :: "string list"
  sent :: "string list"
  broken :: bool

definition doWrite :: "write_queue \<Rightarrow> write_queue" where
  "doWrite q = (if htmlContent q = [] then q else q\<lparr>outstanding := outstanding q + 1\<rparr>)"

definition session_write :: "string \<Rightarrow> write_queue \<Rightarrow> write_queue" where
  "session_write data q =
     (let isEmpty = (htmlContent q = []);
          q' = q\<lparr>htmlContent := htmlContent q @ [data], offered := offered q @ [data]\<rparr>
      in if isEmpty then doWrite q' else q')"

text \<open>The completion handler of a write that took \<open>n\<close> bytes; \<open>pop\<close> of an empty queue is undefined.\<close>

definition write_done :: "nat \<Rightarrow> write_queue \<Rightarrow> write_queue result" where
  "write_done n q =
     (case htmlContent q of
        [] \<Rightarrow> Inl Out_Of_Bounds
      | d # ds \<Rightarrow> Inr (doWrite (q\<lparr>outstanding := outstanding q - 1, htmlContent := ds, sent := sent q @ [take n d]\<rparr>)))"

inductive queue_step :: "write_queue \<Rightarrow> write_queue \<Rightarrow> bool" where
  Write: "queue_step q (session_write data q)"
| Done: "0 < outstanding q \<Longrightarrow> write_done n q = Inr q' \<Longrightarrow> queue_step q q'"
| Error: "0 < outstanding q \<Longrightarrow> queue_step q (q\<lparr>outstanding := outstanding q - 1, broken := True\<rparr>)"

definition empty_queue :: "write_queue \<Rightarrow> bool" where
  "empty_queue q \<longleftrightarrow> q = \<lparr>htmlContent = [], outstanding = 0, offered = [], sent = [], broken = False\<rparr>"

inductive_cases queue_stepE: "queue_step q q'"

end
