(* ===== verification/Cgi_Server.thy ===== *)
theory Cgi_Server
  imports Cgi_Application
begin

text \<open>
  \<open>cgi_server.cpp\<close> of \<open>312552017_np_project3\<close>: the panel and the console in one server.  \<open>NPShellApp\<close>
  relays between one remote shell and the page through two arrays of \<open>BUFFER_SIZE\<close> bytes, \<open>Session\<close>
  answers one request.  \<open>boost::split\<close> and \<open>boost::replace_all\<close> are parameters.  A round is one completed
  read, \<open>None\<close> when it failed, and whether the write that may follow it succeeds.
\<close>

definition BUFFER_SIZE :: nat where "BUFFER_SIZE = 1024"

record np_shell_app =
  app_sid :: int
  npServerInput :: istream

datatype server_event =
    Page_Text string       \<comment> \<open>handed to the client socket\<close>
  | Shell_Text string      \<comment> \<open>sent to the remote shell\<close>
  | Server_Closed

definition NPShellApp :: "(string \<Rightarrow> string option) \<Rightarrow> ServerInfo \<Rightarrow> int \<Rightarrow> np_shell_app" where
  "NPShellApp files info sid =
     \<lparr>app_sid = sid,
      npServerInput = (case files (''test_case/'' @ fileName info) of None \<Rightarrow> at_end | Some s \<Rightarrow> istringstream s)\<rparr>"

text \<open>
  \<open>std::string s = buf\<close> after \<open>async_read_some(buffer(buf, BUFFER_SIZE))\<close> into a zeroed array: a read
  that fills the array without a NUL leaves no terminator inside it.
\<close>

definition string_of_buffer :: "string \<Rightarrow> string result" where
  "string_of_buffer got =
     (let d = take BUFFER_SIZE got
      in if length d = BUFFER_SIZE \<and> nul \<notin> set d then Inl Out_Of_Bounds else Inr (c_str d))"

type_synonym server_round = "string option \<times> bool"

fun do_read :: "(string \<Rightarrow> string \<Rightarrow> string \<Rightarrow> string) \<Rightarrow> server_round list \<Rightarrow> np_shell_app \<Rightarrow> server_event list result" where
  "do_read replace_all [] a = Inr []"
| "do_read replace_all ((None, _) # rounds) a = Inr []"
| "do_read replace_all ((Some got, wr) # rounds) a =
     rbind (string_of_buffer got) (\<lambda>output.
     let page = Page_Text (cgi_output_shell replace_all output (app_sid a))
     in if find_sub ''%'' output = None
        then rbind (do_read replace_all rounds a) (\<lambda>es. Inr (page # es))
        else
          (case get_line (npServerInput a) of (got_line, st) \<Rightarrow>
           let npCommand = (case got_line of None \<Rightarrow> [] | Some l \<Rightarrow> l @ [newline]);
               echo = (case got_line of
                         None \<Rightarrow> []
                       | Some _ \<Rightarrow> [Page_Text (cgi_output_command replace_all npCommand (app_sid a))])
           in rbind (strcpy_into BUFFER_SIZE npCommand) (\<lambda>npShellCommand.
              let before = page # echo @ [Shell_Text npShellCommand]
              in if \<not> wr then Inr before
                 else if find_sub ''exit'' npShellCommand \<noteq> None then Inr (before @ [Server_Closed])
                 else rbind (do_read replace_all rounds (a\<lparr>npServerInput := st\<rparr>)) (\<lambda>es. Inr (before @ es)))))"

definition start ::
    "(string \<Rightarrow> string \<Rightarrow> endpoint option) \<Rightarrow> (endpoint \<Rightarrow> bool) \<Rightarrow> (string \<Rightarrow> string \<Rightarrow> string \<Rightarrow> string) \<Rightarrow> ServerInfo
      \<Rightarrow> server_round list \<Rightarrow> np_shell_app \<Rightarrow> server_event list result" where
  "start resolve reach_ep replace_all info rounds a =
     (case resolve (host info) (port info) of
        None \<Rightarrow> Inr []
      | Some ep \<Rightarrow> if reach_ep ep then do_read replace_all rounds a else Inr [])"

subsection \<open>Requests\<close>

text \<open>
  \<open>handleHttpRequest\<close>: \<open>splits\<close> holds the three calls of \<open>boost::split\<close>, at line ends, at blanks and at
  \<open>?\<close>; an index outside a token list is out of bounds.
\<close>

record splits =
  at_lines :: "string \<Rightarrow> string list"
  at_blanks :: "string \<Rightarrow> string list"
  at_question :: "string \<Rightarrow> string list"

definition nth_token :: "string list \<Rightarrow> nat \<Rightarrow> string result" where
  "nth_token xs i = (if i < length xs then Inr (xs ! i) else Inl Out_Of_Bounds)"

definition server_request :: "splits \<Rightarrow> string \<Rightarrow> (string \<times> string) result" where
  "server_request sp got =
     rbind (string_of_buffer got) (\<lambda>request.
     rbind (nth_token (at_lines sp request) 0) (\<lambda>line.
     rbind (nth_token (at_blanks sp line) 1) (\<lambda>queryUrl.
     let toks = at_question sp queryUrl;
         splitter = (if length toks < 2 then toks @ [[]] else toks)
     in rbind (nth_token splitter 0) (\<lambda>p. rbind (nth_token splitter 1) (\<lambda>q. Inr (''.'' @ p, q))))))"

datatype server_reply =
    Panel_Reply string
  | Console_Reply string "(nat \<times> ServerInfo) list"    \<comment> \<open>the page and the sessions started\<close>
  | Close_Client

definition server_route ::
    "(string \<Rightarrow> string list) \<Rightarrow> listing \<Rightarrow> string option \<Rightarrow> string \<Rightarrow> string \<Rightarrow> server_reply result" where
  "server_route split dir file programPath query =
     (if programPath = ''./panel.cgi'' then Inr (Panel_Reply (HTTP200 @ generatePanel dir))
      else if programPath = ''./console.cgi'' then
        rbind (parseQueryString split query) (\<lambda>queryNPServer.
          Inr (Console_Reply (HTTP200 @ generateHTTPNPShellWebConsole file queryNPServer)
                 (filter (\<lambda>(i, s). host s \<noteq> [] \<and> port s \<noteq> [] \<and> fileName s \<noteq> []) (enumerate 0 queryNPServer))))
      else Inr Close_Client)"

definition server_session ::
    "splits \<Rightarrow> (string \<Rightarrow> string list) \<Rightarrow> listing \<Rightarrow> string option \<Rightarrow> string \<Rightarrow> server_reply result" where
  "server_session sp split dir file got =
     rbind (server_request sp got) (\<lambda>(path, query). server_route split dir file path query)"

subsection \<open>The query string and the console of project 3\<close>

text \<open>The older \<open>parseHTTPQueryString\<close>, without the proxy fields, and \<open>main\<close> of \<open>console.cpp\<close>.\<close>

definition parseHTTPQueryString3 :: "string option \<Rightarrow> ServerInfo list" where
  "parseHTTPQueryString3 query = (case query of None \<Rightarrow> [] | Some q \<Rightarrow> query_rows q)"

definition console_main3 :: "string option \<Rightarrow> string option \<Rightarrow> string \<times> (nat \<times> ServerInfo) list" where
  "console_main3 query file =
     (let httpReq = parseHTTPQueryString3 query
      in (generateHTTPNPShellWebConsole file httpReq, enumerate 0 httpReq))"

end
