(* ===== verification/Cgi_Session3.thy ===== *)
theory Cgi_Session3
  imports Cgi_Session Cgi_Server
begin

text \<open>
  \<open>CGI::Session\<close> of \<open>312552017_np_project3/cgiserver\<close> where it differs from project 4: the handler of the
  read, and the built-in pages, whose query string has no proxy fields.  The rest of the class is the
  same text and is modelled in Cgi_Session.
\<close>

definition run_session3 :: "http_read \<Rightarrow> session_event list result \<Rightarrow> session_event list result" where
  "run_session3 ec request =
     (if ec = No_Error then request
      else if ec = End_Of_Stream then Inr [Http_Shutdown]
      else Inr [])"

definition routeAPI3 :: "listing \<Rightarrow> string option \<Rightarrow> string \<Rightarrow> string \<Rightarrow> route" where
  "routeAPI3 dir file programPath query =
     (if programPath = ''./panel.cgi'' then Panel_Page (generatePanel dir)
      else if programPath = ''./console.cgi'' then
        (let queryString = parseHTTPQueryString3 (Some (c_str query))
         in Console_Page (HTTP200 @ HTML_CONTENT_TYPE @ generateHTTPNPShellWebConsole file queryString @ [newline])
              (enumerate 0 queryString))
      else No_Route)"

text \<open>Both handlers of the read do the same.\<close>

lemma run_session_same: "run_session3 ec request = run_session ec request"
  by (cases ec; cases request) (simp_all add: run_session3_def run_session_def)

end
