(* ===== verification/Session_Properties.thy ===== *)
theory Session_Properties
  imports Cgi_Session3 Cgi_Facts "HOL-Library.Sublist"
begin

text \<open>
  The properties of a web session: which program a request starts, the order and completeness of the
  queued text, and the page \<open>routeAPI\<close> sends.
\<close>

subsection \<open>Requests\<close>

text \<open>The program of a request is the path of its target with a dot in front, whatever that path
  contains (also \<open>/../\<close>): if the file can be opened and executed, it is started with nine variables,
  among them the query as \<open>QUERY_STRING\<close>; if it cannot be opened the client gets no response.\<close>

theorem request_starts_any_file:
  assumes "split (req_target req) = p # rest" and "nul \<notin> set p"
  shows "\<exists>envp. length envp = 9 \<and>
     c_str (''QUERY_STRING='' @ (case rest of [] \<Rightarrow> [] | query # _ \<Rightarrow> query)) \<in> set envp \<and>
     handleHttpRequest split can_open can_exec (Some n) req con =
       Inr (if \<not> can_open (''.'' @ p) then [Stop_Context]
            else Http_Out (take n HTTP200) #
                 (if can_exec (''.'' @ p) then [Exec_CGI (''.'' @ p) [''.'' @ p] envp] else [Stop_Context]))"
proof -
  let ?query = "case rest of [] \<Rightarrow> [] | query # _ \<Rightarrow> query"
  let ?envp = "map c_str (saveParms req con ?query [])"
  have t: "split_target split (req_target req) = Inr (''.'' @ p, ?query)"
    using assms(1) by (cases rest) (auto simp: split_target_def)
  have "nul \<notin> set (''.'' @ p)" using assms(2) by (simp add: nul_def)
  then have p: "c_str (''.'' @ p) = ''.'' @ p" by (rule c_str_id)
  have "length ?envp = 9" "c_str (''QUERY_STRING='' @ ?query) \<in> set ?envp"
    by (simp_all add: saveParms_def addEnv_def)
  then show ?thesis
    unfolding handleHttpRequest_def t rbind_Inr prod.case forkCGI_def p option.case
    by (intro exI [of _ ?envp]) auto
qed

theorem request_starts_any_file_witness:
  "\<exists>envp. handleHttpRequest (\<lambda>_. [''/../../usr/bin/id'', ''a=1'']) (\<lambda>_. True) (\<lambda>_. True) (Some 17)
      \<lparr>req_target = ''/../../usr/bin/id?a=1'', target_data = [], method_data = ''GET'', host_data = [], http_version = 11\<rparr>
      \<lparr>server_addr = [], server_port = 80, remote_addr = [], remote_port = 9\<rparr>
     = Inr [Http_Out HTTP200, Exec_CGI ''./../../usr/bin/id'' [''./../../usr/bin/id''] envp]"
proof -
  let ?req = "\<lparr>req_target = ''/../../usr/bin/id?a=1'', target_data = [], method_data = ''GET'', host_data = [], http_version = 11\<rparr>"
  have "length HTTP200 = 17" by (simp add: HTTP200_def crlf_def)
  then show ?thesis
    using request_starts_any_file [of "\<lambda>_. [''/../../usr/bin/id'', ''a=1'']" ?req "''/../../usr/bin/id''" "[''a=1'']"
        "\<lambda>_. True" "\<lambda>_. True" 17]
    by (auto simp: nul_def)
qed

subsection \<open>The write queue\<close>

definition queue_inv :: "write_queue \<Rightarrow> bool" where
  "queue_inv q \<longleftrightarrow>
     outstanding q = (if htmlContent q = [] \<or> broken q then 0 else 1) \<and>
     (broken q \<longrightarrow> htmlContent q \<noteq> []) \<and>
     (\<exists>done_blocks. offered q = done_blocks @ htmlContent q \<and> list_all2 prefix (sent q) done_blocks)"

lemma queue_inv_write:
  assumes "queue_inv q"
  shows "queue_inv (session_write data q)"
proof -
  obtain bs where bs: "offered q = bs @ htmlContent q" "list_all2 prefix (sent q) bs"
    using assms by (auto simp: queue_inv_def)
  then have "\<exists>ds. offered (session_write data q) = ds @ htmlContent (session_write data q) \<and>
      list_all2 prefix (sent (session_write data q)) ds"
    by (intro exI [of _ bs]) (simp add: session_write_def doWrite_def Let_def)
  then show ?thesis
    using assms by (simp add: queue_inv_def session_write_def doWrite_def Let_def split: if_splits)
qed

lemma queue_inv_done:
  assumes "queue_inv q" and "0 < outstanding q" and "write_done n q = Inr q'"
  shows "queue_inv q'"
proof -
  have q: "htmlContent q \<noteq> []" "\<not> broken q" "outstanding q = 1"
    using assms(1,2) by (auto simp: queue_inv_def split: if_splits)
  obtain d ds where d: "htmlContent q = d # ds" using q(1) by (cases "htmlContent q") simp_all
  obtain bs where bs: "offered q = bs @ d # ds" "list_all2 prefix (sent q) bs"
    using assms(1) by (auto simp: queue_inv_def d)
  have "prefix (take n d) d" by (rule take_is_prefix)
  then have "list_all2 prefix (sent q @ [take n d]) (bs @ [d])"
    using bs(2) by (intro list_all2_appendI) simp_all
  then have "\<exists>cs. offered q = cs @ ds \<and> list_all2 prefix (sent q @ [take n d]) cs"
    using bs(1) by (intro exI [of _ "bs @ [d]"]) simp
  moreover have "q' = doWrite (q\<lparr>outstanding := 0, htmlContent := ds, sent := sent q @ [take n d]\<rparr>)"
    using assms(3) q(3) by (simp add: write_done_def d)
  ultimately show ?thesis using q(2) by (auto simp: queue_inv_def doWrite_def)
qed

lemma queue_inv_error:
  "queue_inv q \<Longrightarrow> 0 < outstanding q \<Longrightarrow> queue_inv (q\<lparr>outstanding := outstanding q - Suc 0, broken := True\<rparr>)"
  by (auto simp: queue_inv_def split: if_splits)

interpretation writes: invariant empty_queue queue_step queue_inv
proof unfold_locales
  show "empty_queue q \<Longrightarrow> queue_inv q" for q by (simp add: empty_queue_def queue_inv_def)
  show "queue_inv q \<Longrightarrow> queue_step q q' \<Longrightarrow> queue_inv q'" for q q'
    by (auto elim!: queue_stepE intro: queue_inv_write queue_inv_done queue_inv_error)
qed



subsection \<open>Built-in pages\<close>

text \<open>The console page \<open>routeAPI\<close> writes repeats the content type: the text after the blank line that
  ends the header begins with another header line.\<close>

theorem console_header_repeated:
  "\<exists>page sessions. routeAPI dir file ''./console.cgi'' query =
     Console_Page (HTTP200 @ HTML_CONTENT_TYPE @ HTML_CONTENT_TYPE @ page) sessions"
  by (simp add: routeAPI_def generateHTTPNPShellWebConsole_def Let_def)

text \<open>C40. The built-in console of the two versions, on the query string of the panel: project 3 starts a
  session for every row that is used; project 4 starts one more, which connects to the proxy itself as if
  it were a remote shell, and gives it a cell of the page.  The other paths are answered alike.\<close>

theorem route_versions:
  assumes "list_all good_row rows" and "good_value h" and "good_value p"
    and "nul \<notin> set (query_text rows (proxy_text h p))"
  shows "(\<exists>page. routeAPI3 dir file ''./console.cgi'' (query_text rows (proxy_text h p)) =
        Console_Page page (enumerate 0 (filter used_row (map snd rows)))) \<and>
     (\<exists>page. routeAPI dir file ''./console.cgi'' (query_text rows (proxy_text h p)) =
        Console_Page page (enumerate 0 (filter used_row (map snd rows) @ [\<lparr>host = h, port = p, fileName = []\<rparr>]))) \<and>
     (\<forall>path query. path \<noteq> ''./console.cgi'' \<longrightarrow> routeAPI3 dir file path query = routeAPI dir file path query)"
proof -
  have c: "c_str (query_text rows (proxy_text h p)) = query_text rows (proxy_text h p)"
    using assms(4) by (auto simp: c_str_def intro!: takeWhile_id)
  have "query_rows (query_text rows (proxy_text h p)) = filter used_row (map snd rows)"
    by (rule query_rows_query [OF assms(1) proxy_no_row [OF assms(2,3)]])
  then show ?thesis
    using parse_panel_query [OF assms(1-3)]
    by (simp add: routeAPI_def routeAPI3_def parseHTTPQueryString3_def c Let_def)
qed

theorem route_versions_witness:
  "\<exists>page. routeAPI \<lparr>entries = [], throws = False\<rparr> None ''./console.cgi'' ''h0=np1&p0=80&f0=t1&sh=px&sp=90'' =
     Console_Page page [(0, \<lparr>host = ''np1'', port = ''80'', fileName = ''t1''\<rparr>),
                        (1, \<lparr>host = ''px'', port = ''90'', fileName = []\<rparr>)]"
proof -
  let ?rows = "[(CHR ''0'', \<lparr>host = ''np1'', port = ''80'', fileName = ''t1''\<rparr>)]"
  have "list_all good_row ?rows" "good_value ''px''" "good_value ''90''"
    by (simp_all add: good_row_def good_value_def isdigit_def code_def)
  moreover have "nul \<notin> set (query_text ?rows (proxy_text ''px'' ''90''))"
    by (simp add: row_text_def proxy_text_def nul_def)
  ultimately show ?thesis
    using route_versions [of ?rows "''px''" "''90''" "\<lparr>entries = [], throws = False\<rparr>" None]
    by (simp add: row_text_def proxy_text_def used_row_def)
qed

end
