(* ===== verification/Cgi_Server_Properties.thy ===== *)
theory Cgi_Server_Properties
  imports Cgi_Server Cgi_Facts Np_Commands
begin

text \<open>
  The properties of project 3's server: what a session types and when it ends, the bounds of its arrays,
  its query parser against the regular expression, and the older escaping of page text.
\<close>

subsection \<open>Sessions\<close>

fun shell_texts :: "server_event list \<Rightarrow> string list" where
  "shell_texts [] = []"
| "shell_texts (Shell_Text s # es) = s # shell_texts es"
| "shell_texts (_ # es) = shell_texts es"

lemma shell_texts_append [simp]: "shell_texts (es @ fs) = shell_texts es @ shell_texts fs"
  by (induction es rule: shell_texts.induct) simp_all

definition ends_session :: "string \<Rightarrow> bool" where
  "ends_session l \<longleftrightarrow> find_sub ''exit'' (l @ [newline]) \<noteq> None"

text \<open>What \<open>k\<close> prompts make the session type: its lines up to one that contains \<open>exit\<close>, and nothing but
  empty texts when there is no line left.\<close>

fun replies :: "nat \<Rightarrow> string list \<Rightarrow> string list" where
  "replies 0 ls = []"
| "replies (Suc k) [] = [] # replies k []"
| "replies (Suc k) (l # ls) = (l @ [newline]) # (if ends_session l then [] else replies k ls)"

definition is_prompt :: "server_round \<Rightarrow> bool" where
  "is_prompt r \<longleftrightarrow> find_sub ''%'' (the (fst r)) \<noteq> None"

lemma is_prompt_Some: "is_prompt (Some d, b) \<longleftrightarrow> find_sub ''%'' d \<noteq> None"
  by (simp add: is_prompt_def)

definition good_round :: "server_round \<Rightarrow> bool" where
  "good_round r \<longleftrightarrow> (case fst r of None \<Rightarrow> False | Some d \<Rightarrow> length d < BUFFER_SIZE \<and> nul \<notin> set d) \<and> snd r"

definition good_line :: "string \<Rightarrow> bool" where
  "good_line l \<longleftrightarrow> length l + 1 < BUFFER_SIZE \<and> nul \<notin> set l"

lemma good_buffer: "length d < BUFFER_SIZE \<Longrightarrow> nul \<notin> set d \<Longrightarrow> string_of_buffer d = Inr d"
  by (simp add: string_of_buffer_def Let_def)

lemma copied_line: "good_line l \<Longrightarrow> strcpy_into BUFFER_SIZE (l @ [newline]) = Inr (l @ [newline])"
  by (simp add: good_line_def strcpy_into_def nul_def newline_def)

lemma copied_nothing: "strcpy_into BUFFER_SIZE [] = Inr []" "find_sub ''exit'' [] = None"
  by (simp_all add: strcpy_into_def BUFFER_SIZE_def)

lemma get_line_at:
  "input_lines s = [] \<Longrightarrow> get_line \<lparr>unread = s, failed = False\<rparr> = (None, at_end)"
  "input_lines s = l # ls \<Longrightarrow>
     \<exists>r. get_line \<lparr>unread = s, failed = False\<rparr> = (Some l, \<lparr>unread = r, failed = False\<rparr>) \<and> input_lines r = ls"
proof -
  assume "input_lines s = []"
  then have "s = []" by (subst (asm) input_lines.simps) (simp split: if_splits)
  then show "get_line \<lparr>unread = s, failed = False\<rparr> = (None, at_end)" by (simp add: get_line_def)
next
  assume l: "input_lines s = l # ls"
  then have "s \<noteq> []" by auto
  with l have "l = takeWhile (\<lambda>c. c \<noteq> newline) s" "ls = input_lines (drop 1 (dropWhile (\<lambda>c. c \<noteq> newline) s))"
    by (simp_all add: input_lines.simps [of s])
  with \<open>s \<noteq> []\<close> show "\<exists>r. get_line \<lparr>unread = s, failed = False\<rparr> = (Some l, \<lparr>unread = r, failed = False\<rparr>) \<and> input_lines r = ls"
    by (simp add: get_line_def)
qed

text \<open>An input that has \<open>ls\<close> left, whether the end was already seen or not.\<close>

definition has_left :: "string list \<Rightarrow> istream \<Rightarrow> bool" where
  "has_left ls st \<longleftrightarrow> (st = at_end \<and> ls = []) \<or> (\<not> failed st \<and> input_lines (unread st) = ls)"

lemma get_line_left:
  "has_left [] st \<Longrightarrow> \<exists>st'. get_line st = (None, st') \<and> has_left [] st'"
  "has_left (l # ls) st \<Longrightarrow> \<exists>st'. get_line st = (Some l, st') \<and> has_left ls st'"
proof -
  have shape: "\<not> failed st \<Longrightarrow> st = \<lparr>unread = unread st, failed = False\<rparr>" by (cases st) simp
  show "has_left [] st \<Longrightarrow> \<exists>st'. get_line st = (None, st') \<and> has_left [] st'"
  proof -
    assume left: "has_left [] st"
    have "get_line st = (None, at_end)"
    proof (cases "st = at_end")
      case False
      then show ?thesis
        using left get_line_at(1) [of "unread st"] shape unfolding has_left_def by metis
    qed (simp add: get_line_def at_end_def)
    then show ?thesis by (simp add: has_left_def)
  qed
  show "has_left (l # ls) st \<Longrightarrow> \<exists>st'. get_line st = (Some l, st') \<and> has_left ls st'"
    using get_line_at(2) [of "unread st" l ls] shape by (auto simp: has_left_def)
qed

lemma do_read_replies:
  "list_all good_round rounds \<Longrightarrow> list_all good_line ls \<Longrightarrow> has_left ls (npServerInput a) \<Longrightarrow>
     \<exists>es. do_read replace_all rounds a = Inr es \<and> shell_texts es = replies (length (filter is_prompt rounds)) ls \<and>
       (Server_Closed \<in> set es \<longleftrightarrow> list_ex ends_session (take (length (filter is_prompt rounds)) ls))"
proof (induction rounds arbitrary: ls a)
  case (Cons r rounds)
  let ?k = "length (filter is_prompt rounds)"
  obtain d where r: "r = (Some d, True)" "string_of_buffer d = Inr d"
    using Cons.prems(1) by (cases r) (auto simp: good_round_def good_buffer split: option.splits)
  have rounds: "list_all good_round rounds" using Cons.prems(1) by simp
  show ?case
  proof (cases "find_sub ''%'' d")
    case None
    obtain es where "do_read replace_all rounds a = Inr es" "shell_texts es = replies ?k ls"
        "Server_Closed \<in> set es \<longleftrightarrow> list_ex ends_session (take ?k ls)"
      using Cons.IH [OF rounds Cons.prems(2,3)] by blast
    then show ?thesis using None by (simp add: r is_prompt_Some)
  next
    case (Some i)
    show ?thesis
    proof (cases ls)
      case Nil
      obtain st where st: "get_line (npServerInput a) = (None, st)" "has_left [] st"
        using get_line_left(1) [of "npServerInput a"] Cons.prems(3) by (auto simp: Nil)
      obtain es where "do_read replace_all rounds (a\<lparr>npServerInput := st\<rparr>) = Inr es" "shell_texts es = replies ?k []"
          "Server_Closed \<notin> set es"
        using Cons.IH [OF rounds, of "[]" "a\<lparr>npServerInput := st\<rparr>"] st(2) by auto
      then show ?thesis
        using Some st by (simp add: r is_prompt_Some Nil copied_nothing Let_def)
    next
      case ls: (Cons l ls')
      have l: "good_line l" "list_all good_line ls'" using Cons.prems(2) by (simp_all add: ls)
      obtain st where st: "get_line (npServerInput a) = (Some l, st)" "has_left ls' st"
        using get_line_left(2) [of l ls' "npServerInput a"] Cons.prems(3) by (auto simp: ls)
      obtain es where "do_read replace_all rounds (a\<lparr>npServerInput := st\<rparr>) = Inr es" "shell_texts es = replies ?k ls'"
          "Server_Closed \<in> set es \<longleftrightarrow> list_ex ends_session (take ?k ls')"
        using Cons.IH [OF rounds l(2), of "a\<lparr>npServerInput := st\<rparr>"] st(2) by auto
      then show ?thesis
        using Some st by (auto simp: r is_prompt_Some ls copied_line [OF l(1)] ends_session_def [of l] Let_def)
    qed
  qed
qed simp

text \<open>C39. While no read fills the array and no line is too long, a session of project 3's server types one
  line per prompt, up to the first line that contains \<open>exit\<close> anywhere, and closes exactly there; after
  its last line it answers every prompt with an empty text and stays open.\<close>

theorem server_session_replies:
  assumes "list_all good_round rounds" and "list_all good_line (input_lines text)"
  shows "\<exists>es. do_read replace_all rounds (NPShellApp (\<lambda>_. Some text) info sid) = Inr es \<and>
     shell_texts es = replies (length (filter is_prompt rounds)) (input_lines text) \<and>
     (Server_Closed \<in> set es) = list_ex ends_session (take (length (filter is_prompt rounds)) (input_lines text))"
proof -
  have "has_left (input_lines text) (npServerInput (NPShellApp (\<lambda>_. Some text) info sid))"
    by (simp add: has_left_def NPShellApp_def istringstream_def)
  from do_read_replies [OF assms this] show ?thesis by simp
qed

theorem server_session_replies_witness:
  "\<exists>es. do_read (\<lambda>s _ _. s) [(Some ''% '', True), (Some ''% '', True)]
      (NPShellApp (\<lambda>_. Some (''cat exit.txt'' @ [newline] @ ''ls'')) \<lparr>host = [], port = [], fileName = []\<rparr> 0) = Inr es \<and>
     shell_texts es = [''cat exit.txt'' @ [newline]] \<and> Server_Closed \<in> set es"
proof -
  let ?text = "''cat exit.txt'' @ [newline] @ ''ls''"
  let ?rounds = "[(Some ''% '', True), (Some ''% '', True)] :: server_round list"
  have lines: "input_lines ?text = [''cat exit.txt'', ''ls'']" by (simp add: input_lines.simps newline_def)
  have "list_all good_round ?rounds" by (simp add: good_round_def BUFFER_SIZE_def nul_def)
  moreover have "list_all good_line (input_lines ?text)"
    unfolding lines by (simp add: good_line_def BUFFER_SIZE_def nul_def)
  moreover have "length (filter is_prompt ?rounds) = 2" by (simp add: is_prompt_def)
  moreover have "ends_session ''cat exit.txt''" by (simp add: ends_session_def newline_def)
  ultimately show ?thesis
    using server_session_replies [of ?rounds ?text "\<lambda>s _ _. s"] unfolding lines by (simp add: numeral_2_eq_2)
qed

subsection \<open>Bounds\<close>

text \<open>Both arrays of \<open>BUFFER_SIZE\<close> bytes can be overrun: a read that fills one without a NUL has no
  terminator, for the shell's output as for an HTTP request, and a line of 1023 bytes or more does not
  fit the command array.\<close>

theorem server_buffer_bounds:
  assumes "length got = 1024" and "nul \<notin> set got"
    and "length long_line \<ge> 1023" and "nul \<notin> set long_line" and "newline \<notin> set long_line"
    and "find_sub ''%'' prompt \<noteq> None" and "length prompt < 1024" and "nul \<notin> set prompt"
  shows "do_read replace_all ((Some got, wr) # rounds) a = Inl Out_Of_Bounds \<and>
     server_session sp split dir file got = Inl Out_Of_Bounds \<and>
     do_read replace_all ((Some prompt, wr) # rounds) (NPShellApp (\<lambda>_. Some (long_line @ [newline])) info sid)
       = Inl Buffer_Overflow"
proof -
  have full: "string_of_buffer got = Inl Out_Of_Bounds"
    using assms(1,2) by (simp add: string_of_buffer_def BUFFER_SIZE_def)
  have prompt: "string_of_buffer prompt = Inr prompt"
    using assms(7,8) by (intro good_buffer) (simp_all add: BUFFER_SIZE_def)
  have "takeWhile (\<lambda>c. c \<noteq> newline) (long_line @ [newline]) = long_line"
    using assms(5) by (intro takeWhile_append_stop) auto
  then have line: "\<exists>st. get_line (istringstream (long_line @ [newline])) = (Some long_line, st)"
    by (simp add: get_line_def istringstream_def)
  have "nul \<notin> set (long_line @ [newline])" using assms(4) by (simp add: nul_def newline_def)
  then have "strcpy_into BUFFER_SIZE (long_line @ [newline]) = Inl Buffer_Overflow"
    using assms(3) by (simp add: strcpy_into_def BUFFER_SIZE_def)
  then show ?thesis
    using assms(6) line
    by (auto simp: full prompt server_session_def server_request_def NPShellApp_def Let_def)
qed

theorem server_buffer_bounds_witness:
  "do_read (\<lambda>s _ _. s) [(Some (replicate 1024 (CHR ''a'')), True)] (NPShellApp (\<lambda>_. None) \<lparr>host = [], port = [], fileName = []\<rparr> 0)
     = Inl Out_Of_Bounds"
  using server_buffer_bounds [of "replicate 1024 (CHR ''a'')" "replicate 1023 (CHR ''a'')" "''%''" "\<lambda>s _ _. s" True "[]"]
  by (simp add: nul_def newline_def)

subsection \<open>Two parsers\<close>

fun join_and :: "string list \<Rightarrow> string" where
  "join_and [] = []"
| "join_and [t] = t"
| "join_and (t # ts) = t @ CHR ''&'' # join_and ts"

definition field_text :: "string \<Rightarrow> bool" where
  "field_text t \<longleftrightarrow> t \<noteq> [] \<and> good_value t"

text \<open>What \<open>boost::split\<close> at \<open>&\<close> with compressed delimiters does to non-empty fields.\<close>

definition splits_at_and :: "(string \<Rightarrow> string list) \<Rightarrow> bool" where
  "splits_at_and split \<longleftrightarrow> (\<forall>ts. ts \<noteq> [] \<longrightarrow> list_all field_text ts \<longrightarrow> split (join_and ts) = ts)"

definition row_fields :: "char \<times> ServerInfo \<Rightarrow> string list" where
  "row_fields r = [CHR ''h'' # fst r # ''='' @ host (snd r), CHR ''p'' # fst r # ''='' @ port (snd r),
                   CHR ''f'' # fst r # ''='' @ fileName (snd r)]"

lemma join_and_Cons: "ts \<noteq> [] \<Longrightarrow> join_and (t # ts) = t @ CHR ''&'' # join_and ts"
  by (cases ts) simp_all

lemma query_fields: "query_text rows [] = join_and (concat (map row_fields rows))"
proof (induction rows)
  case (Cons r rows)
  obtain d s where r: "r = (d, s)" by (cases r)
  show ?case
  proof (cases rows)
    case Nil
    then show ?thesis by (simp add: r row_fields_def row_text_def)
  next
    case (Cons r' rows')
    then have "concat (map row_fields rows) \<noteq> []" by (simp add: row_fields_def)
    then show ?thesis using Cons.IH
      by (simp add: r row_fields_def row_text_def join_and_Cons Cons)
  qed
qed simp

lemma good_fields: "list_all good_row rows \<Longrightarrow> list_all field_text (concat (map row_fields rows))"
proof (induction rows)
  case (Cons r rows)
  have "fst r \<noteq> CHR ''&''" using Cons.prems by (auto simp: good_row_def isdigit_def code_def)
  then show ?case using Cons
    by (auto simp: row_fields_def field_text_def good_row_def good_value_def)
qed simp

lemma after_equals_field: "n \<noteq> CHR ''='' \<Longrightarrow> d \<noteq> CHR ''='' \<Longrightarrow> after_equals (n # d # CHR ''='' # v) = v"
  by (simp add: after_equals_def find_from_char_def)

lemma server_rows_fields: "list_all good_row rows \<Longrightarrow> server_rows (concat (map row_fields rows)) = Inr (map snd rows)"
proof (induction rows)
  case (Cons r rows)
  have "fst r \<noteq> CHR ''=''" using Cons.prems by (auto simp: good_row_def isdigit_def code_def)
  then show ?case using Cons by (simp add: row_fields_def after_equals_field)
qed simp

text \<open>On the query strings of the panel's form the splitting parser and the regular expression agree,
  but for the rows left empty, which only the regular expression drops.\<close>

theorem query_parsers_agree:
  assumes "splits_at_and split" and "rows \<noteq> []" and "list_all good_row rows"
  shows "parseQueryString split (query_text rows []) = Inr (map snd rows) \<and>
     parseHTTPQueryString3 (Some (query_text rows [])) = filter used_row (map snd rows)"
proof -
  have "concat (map row_fields rows) \<noteq> []" using assms(2) by (cases rows) (simp_all add: row_fields_def)
  then have "split (query_text rows []) = concat (map row_fields rows)"
    using assms(1) good_fields [OF assms(3)] by (simp add: splits_at_and_def query_fields)
  moreover have "query_rows [] = []" by (rule query_rows_None, rule no_row) simp
  ultimately show ?thesis
    using server_rows_fields [OF assms(3)] query_rows_query [OF assms(3), of "[]"]
    by (simp add: parseQueryString_def parseHTTPQueryString3_def)
qed

text \<open>A function that splits in this way.\<close>

fun and_split :: "string \<Rightarrow> string list" where
  "and_split [] = [[]]"
| "and_split (c # s) = (if c = CHR ''&'' then [] # and_split s else (c # hd (and_split s)) # tl (and_split s))"

lemma and_split_value: "good_value t \<Longrightarrow> and_split (t @ CHR ''&'' # s) = t # and_split s"
  "good_value t \<Longrightarrow> and_split t = [t]"
  by (induction t) (auto simp: good_value_def)

lemma and_split_ok: "splits_at_and and_split"
proof -
  have "ts \<noteq> [] \<longrightarrow> list_all field_text ts \<longrightarrow> and_split (join_and ts) = ts" for ts
    by (induction ts rule: join_and.induct) (simp_all add: field_text_def and_split_value)
  then show ?thesis by (simp add: splits_at_and_def)
qed

theorem query_parsers_agree_witness:
  "parseQueryString and_split ''h0=np1&p0=80&f0=t1&h1=&p1=&f1='' =
     Inr [\<lparr>host = ''np1'', port = ''80'', fileName = ''t1''\<rparr>, \<lparr>host = [], port = [], fileName = []\<rparr>]"
proof -
  let ?rows = "[(CHR ''0'', \<lparr>host = ''np1'', port = ''80'', fileName = ''t1''\<rparr>),
      (CHR ''1'', \<lparr>host = [], port = [], fileName = []\<rparr>)]"
  have "list_all good_row ?rows" by (simp add: good_row_def good_value_def isdigit_def code_def)
  from query_parsers_agree [OF and_split_ok _ this] show ?thesis by (simp add: row_text_def)
qed

lemma server_rows_three: "(\<exists>rows. server_rows toks = Inr rows) \<longleftrightarrow> 3 dvd length toks"
proof (induction toks rule: server_rows.induct)
  case (2 h p f toks)
  have "3 dvd Suc (Suc (Suc (length toks))) \<longleftrightarrow> 3 dvd length toks" by presburger
  then show ?case using 2 by (auto simp: rbind_eq_Inr_iff)
qed (simp_all, presburger)

text \<open>The splitting parser reads past its tokens, and with it the server of project 3, on a request for
  the console whose query does not split into a multiple of three fields, such as one without a query.\<close>

theorem console_query_bounds:
  "(\<exists>reply. server_route split dir file ''./console.cgi'' query = Inr reply) = (3 dvd length (split query))"
  using server_rows_three [of "split query"]
  by (auto simp: server_route_def parseQueryString_def rbind_eq_Inr_iff)

subsection \<open>Escaping page text\<close>

text \<open>What \<open>boost::replace_all\<close> does for a search text of one character.\<close>

definition replaces_char :: "(string \<Rightarrow> string \<Rightarrow> string \<Rightarrow> string) \<Rightarrow> bool" where
  "replaces_char f \<longleftrightarrow> (\<forall>s c r. f s [c] r = concat (map (\<lambda>d. if d = c then r else [d]) s))"

definition html_char :: "char \<Rightarrow> string" where
  "html_char c =
     (if c = CHR ''&'' then ''&amp;'' else if c = CHR ''>'' then ''&gt;'' else if c = CHR ''<'' then ''&lt;''
      else if c = CHR 0x22 then ''&quot;'' else if c = CHR 0x27 then ''&apos;''
      else if c = newline then ''&NewLine;'' else if c = CHR 0x0D then [] else [c])"

text \<open>The seven replacements of \<open>cgi_html_escape\<close>, done one after the other, replace every character on
  its own; in particular a backslash stays, although the result is put into a script's string.\<close>

theorem html_escape_charwise:
  assumes "replaces_char replace_all"
  shows "cgi_html_escape replace_all s = concat (map html_char s)"
proof -
  have r: "replace_all t [c] x = concat (map (\<lambda>d. if d = c then x else [d]) t)" for t c x
    using assms by (simp add: replaces_char_def)
  show ?thesis
    unfolding cgi_html_escape_def Let_def dq_def r
    by (induction s) (auto simp: html_char_def newline_def)
qed

theorem html_escape_charwise_witness:
  "cgi_html_escape (\<lambda>s p r. concat (map (\<lambda>d. if [d] = p then r else [d]) s)) [CHR ''<'', CHR 0x5C] = ''&lt;'' @ [CHR 0x5C]"
proof -
  have "replaces_char (\<lambda>s p r. concat (map (\<lambda>d. if [d] = p then r else [d]) s))"
    by (simp add: replaces_char_def)
  from html_escape_charwise [OF this] show ?thesis by (simp add: html_char_def newline_def)
qed

end
