(* ===== verification/Multi_System.thy ===== *)
theory Multi_System
  imports Slot_Facts Reach
begin

text \<open>
  \<open>np_multi_proc.cpp\<close> as a whole: the parent that accepts connections, one forked process per client,
  and what they share, the user slots and the FIFOs.  Each process has a world of its own (descriptors,
  environment, standard input, its copy of the tables); it sees the shared part as it is when it takes a
  step and leaves its changes there.  A step is one activity of one process: entering, one turn of its
  shell, the signal handler, leaving.  Process ids of the clients' processes are chosen by the system.
\<close>

record client_process =
  own :: world
  client_fd :: int
  proc_shell :: cmd_handler

record multi_system =
  shared :: "(int, user_info) smap"
  fifo_names :: "string \<Rightarrow> bool"
  fifo_bytes :: "string \<Rightarrow> string"
  fifo_writers :: "string \<Rightarrow> bool"
  processes :: "int \<Rightarrow> client_process option"
  parent :: world
  listener :: int

definition view :: "multi_system \<Rightarrow> world \<Rightarrow> world" where
  "view s w = w\<lparr>users := shared s,
     kern := (kern w)\<lparr>fifos := fifo_names s, fifo_data := fifo_bytes s, fifo_writer := fifo_writers s\<rparr>\<rparr>"

definition publish :: "world \<Rightarrow> multi_system \<Rightarrow> multi_system" where
  "publish w s = s\<lparr>shared := users w, fifo_names := fifos (kern w), fifo_bytes := fifo_data (kern w),
                   fifo_writers := fifo_writer (kern w)\<rparr>"

definition set_process :: "int \<Rightarrow> client_process option \<Rightarrow> multi_system \<Rightarrow> multi_system" where
  "set_process p c s = s\<lparr>processes := (processes s)(p := c)\<rparr>"

definition multi_starts :: "multi_system \<Rightarrow> bool" where
  "multi_starts s \<longleftrightarrow>
     (\<exists>args host addr w l w'. multi_start args host addr w = Inr (l, w') \<and>
        s = publish w' \<lparr>shared = [], fifo_names = (\<lambda>_. False), fifo_bytes = (\<lambda>_. []), fifo_writers = (\<lambda>_. False),
                        processes = (\<lambda>_. None), parent = w', listener = l\<rparr>)"

text \<open>
  \<open>Enter\<close> is the parent's \<open>accept\<close> and \<open>fork\<close> and the child's work up to its first prompt; \<open>Full\<close> is
  the same when every slot is taken: the child dereferences a null pointer and dies.
\<close>

inductive multi_step :: "multi_system \<Rightarrow> multi_system \<Rightarrow> bool" where
  Enter: "listener s \<noteq> -1 \<Longrightarrow> multi_accept n (parent s) = (fd, w0) \<Longrightarrow> fd \<noteq> -1 \<Longrightarrow> processes s p = None \<Longrightarrow>
     multi_child_start (listener s) addr port' fd p (view s w0) = Inr w \<Longrightarrow>
     multi_step s (set_process p (Some \<lparr>own = w, client_fd = fd, proc_shell = CmdHandler\<rparr>)
                     (publish w (s\<lparr>parent := w0\<rparr>)))"
| Full: "listener s \<noteq> -1 \<Longrightarrow> multi_accept n (parent s) = (fd, w0) \<Longrightarrow> fd \<noteq> -1 \<Longrightarrow>
     scan_id SHM (view s w0) = Inr MAX_CONN \<Longrightarrow> multi_step s (s\<lparr>parent := w0\<rparr>)"
| Turn: "processes s p = Some c \<Longrightarrow> running (proc_shell c) \<Longrightarrow>
     runShell SHM (client_fd c) (proc_shell c) (cout ''% '' (view s (own c))) = Inr (h, w) \<Longrightarrow>
     multi_step s (set_process p (Some (c\<lparr>own := w, proc_shell := h\<rparr>)) (publish w s))"
| Notified: "processes s p = Some c \<Longrightarrow> Kill (view s (own c)) = Inr w \<Longrightarrow>
     multi_step s (set_process p (Some (c\<lparr>own := w\<rparr>)) (publish w s))"
| Typed: "processes s p = Some c \<Longrightarrow>
     multi_step s (set_process p (Some (c\<lparr>own := (own c)\<lparr>incoming := inp\<rparr>\<rparr>)) s)"
| Leave: "processes s p = Some c \<Longrightarrow> \<not> running (proc_shell c) \<Longrightarrow>
     removeUser SHM (client_fd c) (view s (own c)) = Inr w \<Longrightarrow>
     multi_step s (set_process p None (publish w s))"

inductive_cases multi_stepE: "multi_step s s'"

subsection \<open>Who owns which slot\<close>

text \<open>The process \<open>p\<close> serves the slot \<open>i\<close>.\<close>

definition serves :: "multi_system \<Rightarrow> int \<Rightarrow> int \<Rightarrow> bool" where
  "serves s p i \<longleftrightarrow> (\<exists>c. processes s p = Some c \<and> sm_find (sockID_table (own c)) (client_fd c) = Some i \<and>
     cur_uid (own c) = i)"

text \<open>The slots exist, a process serves a connected slot that names it and its socket, and every connected
  slot is served by the process it names.\<close>

definition ownership :: "multi_system \<Rightarrow> bool" where
  "ownership s \<longleftrightarrow>
     (\<forall>i. occupancy (shared s) i \<noteq> None \<longleftrightarrow> 1 \<le> i \<and> i \<le> 30) \<and>
     (\<forall>p c. processes s p = Some c \<longrightarrow>
        (\<exists>i a q. serves s p i \<and> occupancy (shared s) i = Some (True, p, client_fd c, a, q))) \<and>
     (\<forall>i p f a q. occupancy (shared s) i = Some (True, p, f, a, q) \<longrightarrow> serves s p i)"

lemma view_sel [simp]:
  "users (view s w) = shared s" "sockID_table (view s w) = sockID_table w" "cur_uid (view s w) = cur_uid w"
  by (simp_all add: view_def)

lemma publish_sel [simp]:
  "shared (publish w s) = users w" "processes (publish w s) = processes s" "parent (publish w s) = parent s"
  "listener (publish w s) = listener s"
  by (simp_all add: publish_def)

lemma set_process_sel [simp]:
  "shared (set_process p c s) = shared s" "processes (set_process p c s) = (processes s)(p := c)"
  "parent (set_process p c s) = parent s" "listener (set_process p c s) = listener s"
  by (simp_all add: set_process_def)

lemma serves_set_process:
  "serves (set_process p c s) q i \<longleftrightarrow>
     (if q = p then (\<exists>d. c = Some d \<and> sm_find (sockID_table (own d)) (client_fd d) = Some i \<and> cur_uid (own d) = i)
      else serves s q i)"
  by (auto simp: serves_def)

lemma serves_publish [simp]: "serves (publish w s) q i = serves s q i"
  by (simp add: serves_def)

lemma serves_unique: "serves s p i \<Longrightarrow> serves s p j \<Longrightarrow> i = j"
  by (auto simp: serves_def)

subsection \<open>Every step keeps the ownership\<close>

text \<open>The work of a new process up to its first prompt is \<open>addUser\<close> and messages.\<close>

lemma addUser_registers: "addUser cfg addr port' fd p w = Inr w' \<Longrightarrow> \<exists>i. sm_find (sockID_table w') fd = Some i"
  by (cases cfg) (auto simp: addUser_def store_user_def Let_def rbind_eq_Inr_iff split_beta)

context world_frame
begin

lemma child_start_frame:
  assumes "multi_child_start l addr port' fd p w = Inr w'"
  obtains w2 where "addUser SHM addr port' fd p (k_setenv ''PATH'' ''bin:.'' (w\<lparr>kern := k_close l (kern w)\<rparr>)) = Inr w2"
    and "R SHM w2 w'"
proof -
  obtain w2 where add: "addUser SHM addr port' fd p (k_setenv ''PATH'' ''bin:.'' (w\<lparr>kern := k_close l (kern w)\<rparr>)) = Inr w2"
    using assms by (auto simp: multi_child_start_def Let_def rbind_eq_Inr_iff)
  obtain i where i: "sm_find (sockID_table w2) fd = Some i" using addUser_registers [OF add] by blast
  let ?w3 = "w2\<lparr>kern := k_dup2 fd 2 (k_dup2 fd 1 (k_dup2 fd 0 (kern w2)))\<rparr>"
  have id: "getServingUserID fd w = (i, w)" if "same_slots w2 w" for w
    using that i by (intro serving_id_slot) (simp add: same_slots_def)
  have "getServingUserID fd ?w3 = (i, ?w3)" by (rule id) simp
  then obtain w5 x where w5: "sendRawMessage SHM i WELCOME_MSG ?w3 = Inr w5"
      "getServingUserName fd w5 = Inr x" "broadcastMessage SHM (LOGIN_MSG (fst x) addr port') (snd x) = Inr w'"
    using assms add by (auto simp: multi_child_start_def Let_def rbind_eq_Inr_iff)
  have "same_slots ?w3 w5" by (rule returnsD [OF same_slots.send_frame w5(1)])
  then have "snd x = w5" using w5(2) id by (auto simp: getServingUserName_def rbind_eq_Inr_iff)
  then have "R SHM ?w3 w'" using returnsD [OF send_frame w5(1)] returnsD [OF broadcast_frame w5(3)] trans by metis
  then show ?thesis using add by (intro that) simp_all
qed

end

lemma child_start_slot:
  assumes "slots_ok w" and "multi_child_start l addr port' fd p w = Inr w'"
  obtains i where "1 \<le> i" and "i \<le> 30" and "\<And>r. occupancy (users w) i \<noteq> Some (True, r)"
    and "occupancy (users w') = (occupancy (users w))(i \<mapsto> (True, p, fd, snprintf_s IP_LEN addr, port'))"
    and "sm_find (sockID_table w') fd = Some i" and "cur_uid w' = i"
proof -
  let ?w1 = "k_setenv ''PATH'' ''bin:.'' (w\<lparr>kern := k_close l (kern w)\<rparr>)"
  have us: "users ?w1 = users w" by (simp add: k_setenv_def)
  then have ok1: "slots_ok ?w1" using assms(1) by (simp add: slots_occupancy)
  obtain w2 where w2: "addUser SHM addr port' fd p ?w1 = Inr w2" "same_slots w2 w'"
    by (rule same_slots.child_start_frame [OF assms(2)])
  obtain i where i: "1 \<le> i" "i \<le> 30" "\<And>r. occupancy (users ?w1) i \<noteq> Some (True, r)"
      "occupancy (users w2) = (occupancy (users ?w1))(i \<mapsto> (True, p, fd, snprintf_s IP_LEN addr, port'))"
      "sm_find (sockID_table w2) fd = Some i" "cur_uid w2 = i"
    using addUser_slot [OF ok1 w2(1)] by blast
  then show ?thesis using w2(2) us by (intro that [of i]) (auto simp: same_slots_def)
qed

lemma ownershipD:
  assumes "ownership s" "processes s p = Some c"
  obtains i a q where "serves s p i" "sm_find (sockID_table (own c)) (client_fd c) = Some i" "cur_uid (own c) = i"
    "occupancy (shared s) i = Some (True, p, client_fd c, a, q)"
proof -
  from assms obtain i a q where i: "serves s p i" "occupancy (shared s) i = Some (True, p, client_fd c, a, q)"
    unfolding ownership_def by blast
  then show ?thesis using assms(2) by (intro that [of i a q]) (auto simp: serves_def)
qed

lemma ownership_slots: "ownership s \<Longrightarrow> slots_ok (view s w)"
  by (simp add: ownership_def slots_occupancy)

lemma ownership_same:
  assumes "ownership s" and "occupancy (shared s') = occupancy (shared s)" and "\<And>p i. serves s' p i = serves s p i"
    and "\<And>p. map_option client_fd (processes s' p) = map_option client_fd (processes s p)"
  shows "ownership s'"
proof -
  have "\<exists>i a q. serves s' p i \<and> occupancy (shared s') i = Some (True, p, client_fd c, a, q)"
    if c: "processes s' p = Some c" for p c
  proof -
    obtain d where "processes s p = Some d" "client_fd d = client_fd c"
      using assms(4) [of p] c by (cases "processes s p") auto
    moreover from ownershipD [OF assms(1) this(1)] obtain i a q where
        "serves s p i" "occupancy (shared s) i = Some (True, p, client_fd d, a, q)" by blast
    ultimately show ?thesis using assms(2,3) by auto
  qed
  then show ?thesis using assms(1,2,3) by (simp add: ownership_def)
qed

text \<open>A step of one process that keeps the slots and its own tables.\<close>

lemma ownership_kept:
  assumes "ownership s" and "processes s p = Some c" and "same_slots (view s (own c)) w"
    and "client_fd d = client_fd c" and "own d = w"
  shows "ownership (set_process p (Some d) (publish w s))"
  using assms by (intro ownership_same [OF assms(1)]) (auto simp: same_slots_def serves_def)

lemma ownership_enter:
  assumes own: "ownership s" and "processes s p = None"
    and start: "multi_child_start l addr port' fd p (view s w0) = Inr w"
  shows "ownership (set_process p (Some \<lparr>own = w, client_fd = fd, proc_shell = CmdHandler\<rparr>)
                     (publish w (s\<lparr>parent := w0\<rparr>)))" (is "ownership ?t")
proof -
  obtain i where i: "1 \<le> i" "i \<le> 30" "\<And>r. occupancy (shared s) i \<noteq> Some (True, r)"
      "occupancy (users w) = (occupancy (shared s))(i \<mapsto> (True, p, fd, snprintf_s IP_LEN addr, port'))"
      "sm_find (sockID_table w) fd = Some i" "cur_uid w = i"
    using child_start_slot [OF ownership_slots [OF own] start] by auto
  have serves: "serves ?t q j \<longleftrightarrow> (if q = p then j = i else serves s q j)" for q j
    using i(5,6) by (auto simp: serves_set_process) (auto simp: serves_def)
  have "\<exists>j a n. serves ?t q j \<and> occupancy (shared ?t) j = Some (True, q, client_fd c, a, n)"
    if c: "processes ?t q = Some c" for q c
  proof (cases "q = p")
    case True
    then show ?thesis using c i(4) by (auto simp: serves)
  next
    case False
    then have "processes s q = Some c" using c by simp
    then obtain j a n where j: "serves s q j" "occupancy (shared s) j = Some (True, q, client_fd c, a, n)"
      using ownershipD [OF own] by metis
    moreover from j(2) have "j \<noteq> i" using i(3) by auto
    ultimately show ?thesis using False i(4) by (auto simp: serves)
  qed
  moreover have "serves ?t q j" if "occupancy (shared ?t) j = Some (True, q, f, a, n)" for q j f a n
  proof (cases "j = i")
    case True
    then have "q = p" using that i(4) by simp
    then show ?thesis using True by (simp add: serves)
  next
    case False
    then have "serves s q j" using that i(4) own by (auto simp: ownership_def)
    moreover from this have "q \<noteq> p" using assms(2) by (auto simp: serves_def)
    ultimately show ?thesis by (simp add: serves)
  qed
  moreover have "occupancy (shared ?t) j \<noteq> None \<longleftrightarrow> 1 \<le> j \<and> j \<le> 30" for j
    using own i(1,2,4) by (auto simp: ownership_def)
  ultimately show ?thesis unfolding ownership_def by blast
qed

lemma ownership_leave:
  assumes own: "ownership s" and c: "processes s p = Some c"
    and left: "removeUser SHM (client_fd c) (view s (own c)) = Inr w"
  shows "ownership (set_process p None (publish w s))" (is "ownership ?t")
proof -
  obtain i a n where i: "serves s p i" "sm_find (sockID_table (own c)) (client_fd c) = Some i"
      "occupancy (shared s) i = Some (True, p, client_fd c, a, n)"
    by (rule ownershipD [OF own c])
  have w: "occupancy (users w) = (occupancy (shared s))(i \<mapsto> occupant zero_user)"
    using removeUser_slot [OF _ left] i(2) by simp
  have zero: "occupant zero_user = (False, 0, 0, [], 0)" by (simp add: occupant_def zero_user_def)
  have serves: "serves ?t q j \<longleftrightarrow> q \<noteq> p \<and> serves s q j" for q j
    by (auto simp: serves_set_process)
  have "\<exists>j a n. serves ?t q j \<and> occupancy (shared ?t) j = Some (True, q, client_fd d, a, n)"
    if d: "processes ?t q = Some d" for q d
  proof -
    have q: "q \<noteq> p" "processes s q = Some d" using d by (auto split: if_splits)
    then obtain j a n where j: "serves s q j" "occupancy (shared s) j = Some (True, q, client_fd d, a, n)"
      using ownershipD [OF own] by metis
    moreover from j(2) have "j \<noteq> i" using i(3) q(1) by auto
    ultimately show ?thesis using q(1) by (auto simp: serves w)
  qed
  moreover have "serves ?t q j" if "occupancy (shared ?t) j = Some (True, q, f, a', n')" for q j f a' n'
  proof -
    have j: "j \<noteq> i" "occupancy (shared s) j = Some (True, q, f, a', n')"
      using that by (auto simp: w zero split: if_splits)
    then have s: "serves s q j" using own by (auto simp: ownership_def)
    moreover have "q \<noteq> p" using serves_unique [OF s] i(1) j(1) by auto
    ultimately show ?thesis by (simp add: serves)
  qed
  moreover have "occupancy (shared ?t) j \<noteq> None \<longleftrightarrow> 1 \<le> j \<and> j \<le> 30" for j
  proof -
    have "1 \<le> i \<and> i \<le> 30" using own i(3) unfolding ownership_def by blast
    then show ?thesis using own by (auto simp: ownership_def w zero)
  qed
  ultimately show ?thesis unfolding ownership_def by blast
qed

lemma slots_created: "occupancy (users (createSHMUser w)) i = (if i \<in> set slots then Some (occupant zero_user) else occupancy (users w) i)"
proof -
  have "occupancy (users (fold (\<lambda>i. set_user i z) is w)) i = (if i \<in> set is then Some (occupant z) else occupancy (users w) i)"
    for "is" and z :: user_info
    by (induction "is" arbitrary: w) (auto simp: occupancy_def)
  then show ?thesis by (simp add: createSHMUser_def)
qed

lemma default_paths_users: "users (default_paths w) = users w"
proof -
  have "users (fold (\<lambda>i. setServingUserEnv i n v) is w) = users w" for "is" n v
    by (induction "is" arbitrary: w) (auto simp: setServingUserEnv_def Let_def split_beta)
  then show ?thesis by (simp add: default_paths_def)
qed

lemma ownership_start: "multi_starts s \<Longrightarrow> ownership s"
proof -
  assume "multi_starts s"
  then obtain w where w: "shared s = users (createSHMUser w)" "users w = []" "processes s = (\<lambda>_. None)"
    by (auto simp: multi_starts_def multi_start_def Let_def rbind_eq_Inr_iff split_beta createListenSocket_def
        chatServer_def default_paths_users showServingNetworkInfo_def)
  have "occupancy (shared s) i = (if 1 \<le> i \<and> i \<le> 30 then Some (False, 0, 0, [], 0) else None)" for i
  proof -
    have "occupancy (users w) i = None" by (simp add: occupancy_def w)
    then show ?thesis unfolding w slots_created by (simp add: mem_slots MAX_CONN_def occupant_def zero_user_def)
  qed
  then show ?thesis by (auto simp: ownership_def w)
qed

interpretation multi: invariant multi_starts multi_step ownership
proof
  show "ownership s" if "multi_starts s" for s using that by (rule ownership_start)
  show "ownership s'" if own: "ownership s" and step: "multi_step s s'" for s s'
    using step
  proof (rule multi_stepE)
    fix n fd w0 p addr port' w
    assume "processes s p = None" "multi_child_start (listener s) addr port' fd p (view s w0) = Inr w"
      "s' = set_process p (Some \<lparr>own = w, client_fd = fd, proc_shell = CmdHandler\<rparr>) (publish w (s\<lparr>parent := w0\<rparr>))"
    then show ?thesis using ownership_enter [OF own] by simp
  next
    fix w0 assume "s' = s\<lparr>parent := w0\<rparr>"
    then show ?thesis by (intro ownership_same [OF own]) (auto simp: serves_def)
  next
    fix p c h w
    assume c: "processes s p = Some c"
      and run: "runShell SHM (client_fd c) (proc_shell c) (cout ''% '' (view s (own c))) = Inr (h, w)"
      and s': "s' = set_process p (Some (c\<lparr>own := w, proc_shell := h\<rparr>)) (publish w s)"
    obtain i where "sm_find (sockID_table (own c)) (client_fd c) = Some i" by (rule ownershipD [OF own c])
    then have "same_slots (cout ''% '' (view s (own c))) w" using same_slots.runShell_frame [OF _ run] by simp
    then have "same_slots (view s (own c)) w" by (simp add: same_slots_def)
    then show ?thesis unfolding s' by (intro ownership_kept [OF own c]) auto
  next
    fix p c w
    assume c: "processes s p = Some c" and kill: "Kill (view s (own c)) = Inr w"
      and s': "s' = set_process p (Some (c\<lparr>own := w\<rparr>)) (publish w s)"
    show ?thesis
      unfolding s' by (intro ownership_kept [OF own c]) (auto intro: returnsD [OF same_slots.Kill_frame kill])
  next
    fix p c inp
    assume "processes s p = Some c" "s' = set_process p (Some (c\<lparr>own := (own c)\<lparr>incoming := inp\<rparr>\<rparr>)) s"
    then show ?thesis by (intro ownership_same [OF own]) (auto simp: serves_def)
  next
    fix p c w
    assume "processes s p = Some c" "removeUser SHM (client_fd c) (view s (own c)) = Inr w"
      "s' = set_process p None (publish w s)"
    then show ?thesis using ownership_leave [OF own] by simp
  qed
qed

end
