(* ===== verification/Accept_Loops.thy ===== *)
theory Accept_Loops
  imports Server_Loop
begin

text \<open>
  The loops that accept connections: the parents of \<open>np_simple\<close> and \<open>np_multi_proc\<close> over their
  descriptor tables, and the handlers of \<open>async_accept\<close> in \<open>socks_server.cpp\<close> of project 4 and in
  \<open>http_server.cpp\<close> and \<open>cgi_server.cpp\<close> of project 3.
\<close>

subsection \<open>Parents that fork\<close>

text \<open>The loop over the connections that arrive; the flag tells whether the server is still accepting.\<close>

fun simple_parent :: "nat list \<Rightarrow> world \<Rightarrow> bool \<times> world" where
  "simple_parent [] w = (True, w)"
| "simple_parent (n # ns) w =
     (case simple_accept n w of (fd, w1) \<Rightarrow> if fd = -1 then (False, w1) else simple_parent ns w1)"

fun multi_parent :: "nat list \<Rightarrow> world \<Rightarrow> bool \<times> world" where
  "multi_parent [] w = (True, w)"
| "multi_parent (n # ns) w =
     (case multi_accept n w of (fd, w1) \<Rightarrow> if fd = -1 then (False, w1) else multi_parent ns w1)"

lemma simple_accept_closes:
  assumes "room_of (kern w) \<noteq> {}"
  shows "\<exists>fd. fd \<noteq> -1 \<and> simple_accept n w = (fd, w)"
proof -
  obtain fd k where fd: "k_open (Socket n) False (kern w) = (fd, k)" "fd \<in> room_of (kern w)"
    using fdt.alloc_some [OF assms, of "(Socket n, False)"] by auto
  then have "fd \<noteq> -1" "fds (kern w) fd = None" by (auto simp: room_of_def)
  moreover have "k = (kern w)\<lparr>fds := fds k\<rparr>" "fds k = (fds (kern w))(fd \<mapsto> (Socket n, False))"
    using fd(1) \<open>fd \<noteq> -1\<close> by (auto simp: k_open_def split: option.splits)
  ultimately have "k_close fd k = kern w"
    by (simp add: k_close_def fun_upd_idem)
  then show ?thesis using fd(1) \<open>fd \<noteq> -1\<close> by (simp add: simple_accept_def)
qed

lemma simple_parent_keeps: "room_of (kern w) \<noteq> {} \<Longrightarrow> simple_parent ns w = (True, w)"
proof (induction ns)
  case (Cons n ns)
  obtain fd where "fd \<noteq> -1" "simple_accept n w = (fd, w)"
    using simple_accept_closes [OF Cons.prems] by blast
  then show ?case using Cons by simp
qed simp

lemma multi_parent_room: "fst (multi_parent ns w) \<longleftrightarrow> length ns \<le> card (room_of (kern w))"
proof (induction ns arbitrary: w)
  case (Cons n ns)
  show ?case
  proof (cases "room_of (kern w) = {}")
    case True
    then show ?thesis
      using fdt.alloc_full [OF True, of "(Socket n, False)"] by (simp add: multi_accept_def)
  next
    case False
    obtain fd k where fd: "k_open (Socket n) False (kern w) = (fd, k)" "fd \<in> room_of (kern w)"
      using fdt.alloc_some [OF False, of "(Socket n, False)"] by auto
    then have pos: "fd \<noteq> -1" by (auto simp: room_of_def)
    have "room_of k = room_of (kern w) - {fd}"
      using fdt.alloc_room [of "(Socket n, False)"] fd(1) pos by auto
    then have "card (room_of (kern w)) = Suc (card (room_of k))"
      using fd(2) card_Suc_Diff1 [of "room_of (kern w)" fd] by simp
    then show ?thesis using Cons.IH [of "w\<lparr>kern := k\<rparr>"] fd(1) pos by (simp add: multi_accept_def)
  qed
qed simp

subsection \<open>Handlers of \<open>async_accept\<close>\<close>

datatype accept_action = Handle_Connection | Accept_Next | Exit_Server

text \<open>\<open>Socks4Server::run\<close>: whether the accept succeeded, and what \<open>fork\<close> returned.\<close>

definition socks_on_accept :: "bool \<Rightarrow> int \<Rightarrow> accept_action list" where
  "socks_on_accept success pid' =
     (if success then
        (if pid' = -1 then [Exit_Server]
         else if pid' = 0 then [Handle_Connection]
         else [Accept_Next])
      else [])"

text \<open>\<open>HttpServer::run\<close> and \<open>HttpServer::do_accept\<close>\<close>

definition http_on_accept :: "bool \<Rightarrow> accept_action list" where
  "http_on_accept success = (if success then [Handle_Connection] else []) @ [Accept_Next]"

definition do_accept :: "bool \<Rightarrow> accept_action list" where
  "do_accept success = (if success then [Handle_Connection] else []) @ [Accept_Next]"

text \<open>How many of the connections that arrive are taken: a server without a pending accept takes none.\<close>

fun accepted :: "('e \<Rightarrow> accept_action list) \<Rightarrow> 'e list \<Rightarrow> nat" where
  "accepted act [] = 0"
| "accepted act (e # es) = (if Accept_Next \<in> set (act e) then Suc (accepted act es) else 1)"

text \<open>
  The parent of the SOCKS server takes connections up to and including the first one for which the
  accept or the \<open>fork\<close> fails, and none after it; the HTTP servers take all.
\<close>

theorem accept_stops_after_error:
  assumes "list_all (\<lambda>(success, p). p \<noteq> 0) (pre @ e # post)" and "list_all (\<lambda>(success, p). success \<and> p \<noteq> -1) pre"
    and "\<not> fst e \<or> snd e = -1"
  shows "accepted (\<lambda>(success, p). socks_on_accept success p) (pre @ e # post) = Suc (length pre) \<and>
     accepted http_on_accept (map fst (pre @ e # post)) = length (pre @ e # post) \<and>
     accepted do_accept (map fst (pre @ e # post)) = length (pre @ e # post)"
proof -
  have all: "accepted http_on_accept bs = length bs" "accepted do_accept bs = length bs" for bs
    by (induction bs) (simp_all add: http_on_accept_def do_accept_def)
  have "accepted (\<lambda>(success, p). socks_on_accept success p) (pre @ e # post) = Suc (length pre)"
    using assms by (induction pre) (auto simp: socks_on_accept_def)
  then show ?thesis using all by simp
qed

end
