(* ===== verification/Multi_Properties.thy ===== *)
theory Multi_Properties
  imports Multi_System Accept_Loops Sample_World
begin

text \<open>
  The properties of \<open>np_multi_proc\<close> as a system of processes over shared slots: who serves which slot,
  when a new client is admitted, and what becomes of a message from one process to another.
\<close>

subsection \<open>Admission\<close>

lemma slots_ok_kept: "slots_ok w \<Longrightarrow> same_slots w w' \<Longrightarrow> slots_ok w'"
  by (simp add: slots_occupancy same_slots_def)

lemma slot_user: "slots_ok w \<Longrightarrow> 1 \<le> i \<Longrightarrow> i \<le> 30 \<Longrightarrow> \<exists>u. sm_find (users w) i = Some u"
  by (auto simp: slots_ok_def live_def)

lemma broadcast_total:
  assumes "slots_ok w"
  shows "\<exists>w'. broadcastMessage SHM msg w = Inr w'"
proof -
  have "\<exists>w'. rfold (\<lambda>i w. rbind (user_at w i) (\<lambda>u. if isConnected u then sendRawMessage SHM i msg w else Inr w)) is w
      = Inr w'" if "set is \<subseteq> {1..30}" "slots_ok w" for "is" w
    using that
  proof (induction "is" arbitrary: w)
    case (Cons i "is")
    let ?step = "rbind (user_at w i) (\<lambda>u. if isConnected u then sendRawMessage SHM i msg w else Inr w)"
    obtain u where u: "sm_find (users w) i = Some u" using slot_user [OF Cons.prems(2), of i] Cons.prems(1) by auto
    then have "\<exists>w1. ?step = Inr w1" by (cases "isConnected u") (simp_all add: user_at_def sendRawMessage_def)
    then obtain w1 where w1: "?step = Inr w1" by blast
    moreover have "returns ?step (same_slots w)" by (rule returns_any) (auto intro: same_slots.send_frame)
    ultimately have "same_slots w w1" by (auto dest: returnsD)
    then have "slots_ok w1" by (rule slots_ok_kept [OF Cons.prems(2)])
    then show ?case using Cons by (simp only: rfold.simps w1 rbind_Inr) simp
  qed simp
  from this [of slots w] assms show ?thesis by (simp add: broadcastMessage_def slots_upto)
qed

lemma addUser_total:
  assumes "slots_ok w" and "1 \<le> j" and "j \<le> 30" and "\<And>r. occupancy (users w) j \<noteq> Some (True, r)"
  shows "\<exists>w'. addUser SHM addr port' fd p w = Inr w'"
proof -
  let ?w1 = "cout (''accept new connection from ip '' @ addr @ '', port '' @ to_string port' @ nl) w"
  have ok1: "slots_ok ?w1" using assms(1) by (simp add: slots_ok_def live_def)
  obtain i where i: "scan_id SHM ?w1 = Inr i" "1 \<le> i" "i \<le> 31"
     "\<forall>j u. 1 \<le> j \<longrightarrow> j < i \<longrightarrow> sm_find (users ?w1) j = Some u \<longrightarrow> isConnected u"
    using scan_first [OF ok1] by auto
  obtain u where u: "sm_find (users w) j = Some u" using slot_user [OF assms(1-3)] by blast
  then have "\<not> isConnected u" using assms(4) by (auto simp: occupancy_def occupant_def)
  then have "i \<le> j" using i(4) assms(2) u by fastforce
  then obtain v where "sm_find (users w) i = Some v" using slot_user [OF assms(1) i(2)] assms(3) by auto
  then show ?thesis
    using i(1) by (auto simp: addUser_def Let_def store_user_def user_at_def split: prod.split)
qed

lemma child_start_total:
  assumes "slots_ok w" and "1 \<le> j" and "j \<le> 30" and "\<And>r. occupancy (users w) j \<noteq> Some (True, r)"
  shows "\<exists>w'. multi_child_start l addr port' fd p w = Inr w'"
proof -
  let ?w1 = "k_setenv ''PATH'' ''bin:.'' (w\<lparr>kern := k_close l (kern w)\<rparr>)"
  have us: "users ?w1 = users w" by (simp add: k_setenv_def)
  then have ok1: "slots_ok ?w1" using assms(1) by (simp add: slots_occupancy)
  have "occupancy (users ?w1) j \<noteq> Some (True, r)" for r using assms(4) us by simp
  then obtain w2 where add: "addUser SHM addr port' fd p ?w1 = Inr w2"
    using addUser_total [OF ok1 assms(2,3)] by blast
  obtain i where i: "1 \<le> i" "i \<le> 30"
      "occupancy (users w2) = (occupancy (users ?w1))(i \<mapsto> (True, p, fd, snprintf_s IP_LEN addr, port'))"
      "sm_find (sockID_table w2) fd = Some i"
    using addUser_slot [OF ok1 add] by blast
  let ?w3 = "w2\<lparr>kern := k_dup2 fd 2 (k_dup2 fd 1 (k_dup2 fd 0 (kern w2)))\<rparr>"
  have ok2: "slots_ok w2" using i ok1 by (auto simp: slots_occupancy)
  have id: "getServingUserID fd w = (i, w)" if "same_slots w2 w" for w
    using that i(4) by (intro serving_id_slot) (simp add: same_slots_def)
  have ok3: "slots_ok ?w3" "same_slots w2 ?w3" using ok2 by (simp_all add: slots_occupancy)
  obtain u where "sm_find (users ?w3) i = Some u" using slot_user [OF ok3(1) i(1,2)] by blast
  then obtain w5 where w5: "sendRawMessage SHM i WELCOME_MSG ?w3 = Inr w5"
    by (auto simp: sendRawMessage_def user_at_def)
  have k5: "same_slots w2 w5" using returnsD [OF same_slots.send_frame w5] by simp
  then have ok5: "slots_ok w5" using slots_ok_kept ok2 by blast
  then obtain v where "sm_find (users w5) i = Some v" using slot_user i(1,2) by blast
  then have "getServingUserName fd w5 = Inr (name v, w5)"
    by (simp add: getServingUserName_def id [OF k5] user_at_def)
  moreover obtain w6 where "broadcastMessage SHM (LOGIN_MSG (name v) addr port') w5 = Inr w6"
    using broadcast_total [OF ok5] by blast
  ultimately show ?thesis
    using add w5 id [OF ok3(2)] by (simp add: multi_child_start_def Let_def)
qed

subsection \<open>Processes and slots\<close>

definition connected :: "multi_system \<Rightarrow> int set" where
  "connected s = {i. \<exists>u. sm_find (shared s) i = Some u \<and> isConnected u}"

lemma connected_occupancy: "i \<in> connected s \<longleftrightarrow> (\<exists>r. occupancy (shared s) i = Some (True, r))"
  by (auto simp: connected_def occupancy_def occupant_def)

lemma connected_slots:
  assumes "ownership s"
  shows "connected s \<subseteq> {1..30}"
proof
  fix i assume "i \<in> connected s"
  then have "occupancy (shared s) i \<noteq> None" by (auto simp: connected_occupancy)
  then show "i \<in> {1..30}" using assms by (simp add: ownership_def)
qed

lemma serves_connected:
  assumes "ownership s" "serves s p i"
  obtains u where "sm_find (shared s) i = Some u" "isConnected u" "pid u = p"
proof -
  obtain c where c: "processes s p = Some c" using assms(2) by (auto simp: serves_def)
  obtain j a q where "serves s p j" "occupancy (shared s) j = Some (True, p, client_fd c, a, q)"
    by (rule ownershipD [OF assms(1) c])
  moreover from this have "j = i" using serves_unique [OF _ assms(2)] by blast
  ultimately show ?thesis using that by (auto simp: occupancy_def occupant_def)
qed

lemma connected_serves:
  assumes "ownership s" "i \<in> connected s"
  shows "\<exists>p. serves s p i"
proof -
  obtain p f a q where "occupancy (shared s) i = Some (True, p, f, a, q)"
    using assms(2) by (auto simp: connected_occupancy)
  then show ?thesis using assms(1) unfolding ownership_def by blast
qed

lemma processes_slots:
  assumes "ownership s"
  shows "\<exists>f. bij_betw f (dom (processes s)) (connected s)"
proof -
  let ?f = "\<lambda>p. THE i. serves s p i"
  have the: "?f p = i" if "serves s p i" for p i
    using that serves_unique by blast
  have has: "\<exists>i. serves s p i" if "p \<in> dom (processes s)" for p
    using that ownershipD [OF assms] by blast
  have "bij_betw ?f (dom (processes s)) (connected s)"
  proof (rule bij_betwI')
    fix p q assume pq: "p \<in> dom (processes s)" "q \<in> dom (processes s)"
    obtain i j where ij: "serves s p i" "serves s q j" using has pq by blast
    show "?f p = ?f q \<longleftrightarrow> p = q"
      using the [OF ij(1)] the [OF ij(2)] ij serves_connected [OF assms ij(1)] serves_connected [OF assms ij(2)]
      by (metis option.inject)
  next
    fix p assume "p \<in> dom (processes s)"
    then obtain i where i: "serves s p i" using has by blast
    have "i \<in> connected s" by (rule serves_connected [OF assms i]) (simp add: connected_def)
    then show "?f p \<in> connected s" by (simp only: the [OF i])
  next
    fix i assume "i \<in> connected s"
    then obtain p where p: "serves s p i" using connected_serves [OF assms] by blast
    then have "p \<in> dom (processes s)" by (auto simp: serves_def)
    with the [OF p] show "\<exists>p \<in> dom (processes s). i = ?f p" by blast
  qed
  then show ?thesis by blast
qed

lemma process_count:
  assumes "ownership s"
  shows "finite (dom (processes s))" and "card (dom (processes s)) = card (connected s)"
proof -
  have "finite (connected s)" using connected_slots [OF assms] finite_subset by blast
  then show "finite (dom (processes s))" "card (dom (processes s)) = card (connected s)"
    using processes_slots [OF assms] bij_betw_finite bij_betw_same_card by blast+
qed


lemma admission:
  assumes "reach multi_starts multi_step s"
  shows "card (dom (processes s)) \<le> 30 \<and>
     ((\<exists>w. multi_child_start l addr port' fd p (view s w0) = Inr w) \<longleftrightarrow> card (dom (processes s)) < 30)"
proof -
  note own = multi.reach_inv [OF assms]
  note sub = connected_slots [OF own]
  have le: "card (connected s) \<le> 30" using card_mono [OF _ sub] by simp
  have "(\<exists>w. multi_child_start l addr port' fd p (view s w0) = Inr w) \<longleftrightarrow> (\<exists>j \<in> {1..30}. j \<notin> connected s)"
  proof
    assume "\<exists>w. multi_child_start l addr port' fd p (view s w0) = Inr w"
    then obtain w where w: "multi_child_start l addr port' fd p (view s w0) = Inr w" by blast
    obtain i where i: "1 \<le> i" "i \<le> 30" "\<And>r. occupancy (shared s) i \<noteq> Some (True, r)"
      using child_start_slot [OF ownership_slots [OF own] w] by auto
    then have "i \<notin> connected s" unfolding connected_occupancy by blast
    with i(1,2) show "\<exists>j \<in> {1..30}. j \<notin> connected s" by auto
  next
    assume "\<exists>j \<in> {1..30}. j \<notin> connected s"
    then show "\<exists>w. multi_child_start l addr port' fd p (view s w0) = Inr w"
      using child_start_total [OF ownership_slots [OF own]] by (auto simp: connected_occupancy)
  qed
  also have "\<dots> \<longleftrightarrow> card (connected s) < 30"
  proof
    assume "\<exists>j \<in> {1..30}. j \<notin> connected s"
    then have "connected s \<subset> {1..30}" using sub by blast
    from psubset_card_mono [OF _ this] show "card (connected s) < 30" by simp
  next
    assume "card (connected s) < 30"
    then have "connected s \<noteq> {1..30}" by auto
    then show "\<exists>j \<in> {1..30}. j \<notin> connected s" using sub by blast
  qed
  finally show ?thesis using le process_count(2) [OF own] by simp
qed


subsection \<open>A system with two clients\<close>

lemma enter_step:
  assumes "reach multi_starts multi_step s" and "listener s \<noteq> -1" and "room_of (kern (parent s)) \<noteq> {}"
    and "processes s p = None" and "card (dom (processes s)) < 30"
  obtains s' i where "multi_step s s'" and "reach multi_starts multi_step s'" and "serves s' p i" and "listener s' = listener s"
    and "dom (processes s') = insert p (dom (processes s))" and "\<And>q j. q \<noteq> p \<Longrightarrow> serves s q j \<Longrightarrow> serves s' q j"
    and "\<exists>fd. room_of (kern (parent s')) = room_of (kern (parent s)) - {fd}"
proof -
  obtain fd k where fd: "k_open (Socket 1) False (kern (parent s)) = (fd, k)" "fd \<in> room_of (kern (parent s))"
    using fdt.alloc_some [OF assms(3), of "(Socket 1, False)"] by auto
  then have pos: "fd \<noteq> -1" by (auto simp: room_of_def)
  then have room: "room_of k = room_of (kern (parent s)) - {fd}"
    using fdt.alloc_room [of "(Socket 1, False)"] fd(1) by auto
  let ?w0 = "(parent s)\<lparr>kern := k\<rparr>"
  obtain w where w: "multi_child_start (listener s) ''1.2.3.4'' 50000 fd p (view s ?w0) = Inr w"
    using admission [OF assms(1)] assms(5) by blast
  let ?s = "set_process p (Some \<lparr>own = w, client_fd = fd, proc_shell = CmdHandler\<rparr>) (publish w (s\<lparr>parent := ?w0\<rparr>))"
  have step: "multi_step s ?s"
    using assms(2,4) fd(1) pos w by (intro multi_step.Enter [of s 1]) (simp_all add: multi_accept_def)
  then have r: "reach multi_starts multi_step ?s" by (rule reach.Step [OF assms(1)])
  obtain i where "serves ?s p i" using ownershipD [OF multi.reach_inv [OF r], of p] by auto
  moreover have "serves ?s q j" if "q \<noteq> p" "serves s q j" for q j
    using that by (auto simp: serves_def)
  ultimately show ?thesis
    using step r room by (intro that [of ?s i]) (auto simp: insert_absorb)
qed

lemma no_clients:
  obtains s where "reach multi_starts multi_step s" and "listener s = 6" and "processes s = (\<lambda>_. None)"
    and "{7, 8} \<subseteq> room_of (kern (parent s))"
proof -
  let ?w = "chatServer (k_setenv ''PATH'' ''bin:.'' (sample_world 64 [] [] []))"
  have port: "getPortFromArgs [''np'', ''7000''] = Inr 7000" by code_simp
  obtain k where k: "k_open (Socket 0) False (kern ?w) = (6, k)" "{7, 8} \<subseteq> room_of k"
    by (simp add: chatServer_def k_dup_def k_open_def lowest_free_def sample_table_def k_setenv_def room_of_def)
  let ?w' = "createSHMUser (default_paths (showServingNetworkInfo ''host'' ''1.1.1.1'' 7000 (?w\<lparr>kern := k\<rparr>)))"
  let ?s = "publish ?w' \<lparr>shared = [], fifo_names = (\<lambda>_. False), fifo_bytes = (\<lambda>_. []), fifo_writers = (\<lambda>_. False),
                         processes = (\<lambda>_. None), parent = ?w', listener = 6\<rparr>"
  have "multi_start [''np'', ''7000''] ''host'' ''1.1.1.1'' (sample_world 64 [] [] []) = Inr (6, ?w')"
    by (simp add: multi_start_def Let_def port createListenSocket_def k(1))
  then have "multi_starts ?s" unfolding multi_starts_def by blast
  then have r0: "reach multi_starts multi_step ?s" by (rule reach.Start)
  have "kern (fold (\<lambda>i. set_user i z) is w) = kern w" "kern (fold (\<lambda>i. setServingUserEnv i n v) is w) = kern w"
    for "is" z n v w by (induction "is" arbitrary: w) (auto simp: setServingUserEnv_def Let_def split_beta)
  then have "kern ?w' = k" by (simp add: createSHMUser_def default_paths_def showServingNetworkInfo_def)
  then show ?thesis using k(2) by (intro that [OF r0]) simp_all
qed

lemma two_clients:
  obtains s i j where "reach multi_starts multi_step s" and "serves s 701 i" and "serves s 702 j"
    and "dom (processes s) = {701, 702}"
proof -
  obtain s0 where s0: "reach multi_starts multi_step s0" "listener s0 = 6" "processes s0 = (\<lambda>_. None)"
      "{7, 8} \<subseteq> room_of (kern (parent s0))" by (rule no_clients)
  obtain s1 i where s1: "reach multi_starts multi_step s1" "serves s1 701 i" "listener s1 = 6"
      "dom (processes s1) = {701}" "\<exists>fd. room_of (kern (parent s1)) = room_of (kern (parent s0)) - {fd}"
    by (rule enter_step [OF s0(1), of 701]) (use s0(2-4) in auto)
  have left: "room_of (kern (parent s1)) \<noteq> {}"
  proof
    assume "room_of (kern (parent s1)) = {}"
    then obtain fd where "room_of (kern (parent s0)) \<subseteq> {fd}" using s1(5) by auto
    then have "{7, 8 :: int} \<subseteq> {fd}" using s0(4) by blast
    then show False by auto
  qed
  have "702 \<notin> dom (processes s1)" using s1(4) by simp
  then have free: "processes s1 702 = None" by blast
  obtain s2 j where "reach multi_starts multi_step s2" "serves s2 702 j" "serves s2 701 i"
      "dom (processes s2) = {702, 701}"
    by (rule enter_step [OF s1(1) _ left free]) (use s1(2,3,4) in auto)
  then show ?thesis by (intro that) auto
qed



subsection \<open>Messages between processes\<close>

text \<open>C24. A message one client tells another crosses the processes: the teller leaves it in the other
  client's slot and signals the process that serves it, and that process, if its handler runs next,
  shows it to its client, cut to 1023 bytes.\<close>

theorem tell_between_processes:
  assumes "reach multi_starts multi_step s" and "processes s p = Some c" and "processes s q = Some d"
    and "serves s p i" and "serves s q j"
  shows "\<exists>u w1 w2. sm_find (shared s) i = Some u \<and>
     Tell SHM i j msg (view s (own c)) = Inr w1 \<and> trace w1 = trace (own c) @ [Signal q] \<and>
     Kill (view (publish w1 s) (own d)) = Inr w2 \<and>
     trace w2 = trace (own d) @
       [Cout (obj_at (kern (own d)) 1) (take 1023 (c_str (TELL_MSG (name u) msg)))]"
proof -
  note own = multi.reach_inv [OF assms(1)]
  obtain u where u: "sm_find (shared s) i = Some u" by (rule serves_connected [OF own assms(4)])
  obtain v where v: "sm_find (shared s) j = Some v" "isConnected v" "pid v = q"
    by (rule serves_connected [OF own assms(5)])
  have j: "cur_uid (own d) = j" using assms(3,5) by (auto simp: serves_def)
  have cut: "snprintf_s USER_MSG_LEN (c_str m) = take 1023 (c_str m)" for m
    by (simp add: snprintf_s_def USER_MSG_LEN_def c_str_def)
  let ?v = "v\<lparr>inbox := snprintf_s USER_MSG_LEN (c_str (TELL_MSG (name u) msg))\<rparr>"
  let ?w1 = "emit (Signal q) (set_user j ?v (view s (own c)))"
  have tell: "Tell SHM i j msg (view s (own c)) = Inr ?w1"
    by (simp add: Tell_def sendRawMessage_def user_at_def u v)
  have "trace ?w1 = trace (own c) @ [Signal q]" by (simp add: view_def)
  moreover have "\<exists>w2. Kill (view (publish ?w1 s) (own d)) = Inr w2 \<and>
      trace w2 = trace (own d) @ [Cout (obj_at (kern (own d)) 1) (inbox ?v)]"
    by (simp add: Kill_def user_at_def j) (simp add: view_def obj_at_def)
  ultimately show ?thesis using u tell cut by fastforce
qed

theorem tell_between_processes_witness:
  "\<exists>s i j c d w1 w2. serves s 701 i \<and> serves s 702 j \<and> processes s 701 = Some c \<and> processes s 702 = Some d \<and>
     Tell SHM i j ''hello'' (view s (own c)) = Inr w1 \<and> trace w1 = trace (own c) @ [Signal 702] \<and>
     Kill (view (publish w1 s) (own d)) = Inr w2"
proof -
  obtain s i j where s: "reach multi_starts multi_step s" "serves s 701 i" "serves s 702 j" by (rule two_clients)
  then obtain c d where "processes s 701 = Some c" "processes s 702 = Some d" by (auto simp: serves_def)
  then show ?thesis
    using tell_between_processes [OF s(1) _ _ s(2,3), of c d "''hello''"] s(2,3) by blast
qed

subsection \<open>Descriptors of the parents\<close>

text \<open>C28. The parent of \<open>np_simple\<close> is as it was after every connection, so it accepts any number of them;
  the parent of \<open>np_multi_proc\<close> keeps every client's socket open, so it accepts exactly as many
  connections as it has free descriptors, over its whole life, and then the server ends.\<close>

theorem parent_descriptors:
  "(room_of (kern w) \<noteq> {} \<longrightarrow> simple_parent ns w = (True, w)) \<and>
   (fst (multi_parent ns w) \<longleftrightarrow> length ns \<le> card (room_of (kern w)))"
  using simple_parent_keeps multi_parent_room by blast

theorem parent_descriptors_witness:
  "simple_parent (replicate 100 0) (sample_world 64 [] [] []) = (True, sample_world 64 [] [] []) \<and>
   fst (multi_parent (replicate 61 0) (sample_world 64 [] [] [])) \<and>
   \<not> fst (multi_parent (replicate 62 0) (sample_world 64 [] [] []))"
proof -
  have "card (room_of (kern (sample_world 64 [] [] []))) = 61" using card_sample_room [of 64] by (simp add: room_of_def)
  moreover from this have "room_of (kern (sample_world 64 [] [] [])) \<noteq> {}" by force
  ultimately show ?thesis
    using parent_descriptors [of "sample_world 64 [] [] []" "replicate 100 0"]
      parent_descriptors [of "sample_world 64 [] [] []" "replicate 61 0"]
      parent_descriptors [of "sample_world 64 [] [] []" "replicate 62 0"]
    by simp
qed

end
