(* ===== verification/Chat_Room.thy ===== *)
theory Chat_Room
  imports Multi_System Server_Invariant Chat_Facts
begin

text \<open>
  What a chat server promises, without its tables, descriptors, processes and messages: a room of numbered
  places with a name and an address each, which people enter, leave, and change their name in.  Both
  servers implement it: this theory maps their user tables to the room and shows what each operation of
  the code does to it.
\<close>

subsection \<open>The room\<close>

type_synonym room = "int \<Rightarrow> (string \<times> string \<times> int) option"

datatype room_event = Joins int | Leaves int | Renames int

text \<open>
  A newcomer gets the first free place; only the owner of a place leaves it or changes its name, to one
  that is not in use and shorter than 20 bytes.  A name is cut at its first zero byte, but compared
  before it is cut.
\<close>

inductive room_step :: "room_event \<Rightarrow> room \<Rightarrow> room \<Rightarrow> bool" where
  Join: "1 \<le> i \<Longrightarrow> r i = None \<Longrightarrow> \<forall>j. 1 \<le> j \<longrightarrow> j < i \<longrightarrow> r j \<noteq> None \<Longrightarrow>
     room_step (Joins i) r (r(i \<mapsto> (''(no name)'', a, p)))"
| Leave: "r i \<noteq> None \<Longrightarrow> room_step (Leaves i) r (r(i := None))"
| Rename: "r i = Some (n, a, p) \<Longrightarrow> nm \<notin> fst ` ran r \<Longrightarrow> length (c_str nm) < 20 \<Longrightarrow>
     room_step (Renames i) r (r(i \<mapsto> (c_str nm, a, p)))"

definition renames :: "int \<Rightarrow> room \<Rightarrow> room \<Rightarrow> bool" where
  "renames i = (room_step (Renames i))\<^sup>*\<^sup>*"

lemma renames_refl [simp, intro]: "renames i r r"
  by (simp add: renames_def)

lemma renames_trans: "renames i r r1 \<Longrightarrow> renames i r1 r2 \<Longrightarrow> renames i r r2"
  by (simp add: renames_def)

lemma renames_one: "room_step (Renames i) r r' \<Longrightarrow> renames i r r'"
  by (simp add: renames_def)

text \<open>What one visit of the server's loop does to the room: the listening socket brings a newcomer, a
  client renames itself, any number of times, and may then leave.\<close>

datatype visitor = Newcomer | Member

inductive visit :: "visitor \<Rightarrow> room \<Rightarrow> room \<Rightarrow> bool" where
  Arrives: "room_step (Joins i) r r' \<Longrightarrow> visit Newcomer r r'"
| Stays: "renames i r r' \<Longrightarrow> visit Member r r'"
| Quits: "renames i r r1 \<Longrightarrow> room_step (Leaves i) r1 r' \<Longrightarrow> visit Member r r'"

fun visits :: "visitor list \<Rightarrow> room \<Rightarrow> room \<Rightarrow> bool" where
  "visits [] r r' \<longleftrightarrow> r' = r"
| "visits (v # vs) r r' \<longleftrightarrow> (\<exists>r1. visit v r r1 \<and> visits vs r1 r')"

subsection \<open>The room of a table of users\<close>

definition badge :: "user_info \<Rightarrow> (string \<times> string \<times> int) option" where
  "badge u = (if isConnected u then Some (name u, ip u, port u) else None)"

definition room :: "(int, user_info) smap \<Rightarrow> room" where
  "room us i = Option.bind (sm_find us i) badge"

definition room_ok :: "config \<Rightarrow> world \<Rightarrow> bool" where
  "room_ok cfg w = (case cfg of SHM \<Rightarrow> slots_ok w | No_SHM \<Rightarrow> all_connected w)"

definition room_rel :: "int \<Rightarrow> config \<Rightarrow> world \<Rightarrow> world \<Rightarrow> bool" where
  "room_rel self cfg w w' \<longleftrightarrow> (room_ok cfg w \<longrightarrow> room_ok cfg w' \<and> renames self (room (users w)) (room (users w')))"

lemma room_Some: "room us i = Some x \<longleftrightarrow> (\<exists>u. sm_find us i = Some u \<and> isConnected u \<and> x = (name u, ip u, port u))"
  by (auto simp: room_def badge_def split: bind_splits if_splits)

lemma room_None: "room us i = None \<longleftrightarrow> (\<forall>u. sm_find us i = Some u \<longrightarrow> \<not> isConnected u)"
  by (auto simp: room_def badge_def split: bind_splits)

lemma room_put [simp]: "room (sm_put i u us) = (room us)(i := badge u)"
  by (auto simp: room_def fun_eq_iff)

lemma room_erase [simp]: "room (sm_erase i us) = (room us)(i := None)"
  by (auto simp: room_def fun_eq_iff)

lemma room_empty [simp]: "room [] = Map.empty"
  by (simp add: room_def fun_eq_iff)

lemma room_ok_users: "users w' = users w \<Longrightarrow> room_ok cfg w' = room_ok cfg w"
  by (simp add: room_ok_def slots_ok_def live_def all_connected_def split: config.split)

text \<open>Storing a record over one whose place exists.\<close>

lemma room_ok_put:
  assumes "room_ok cfg w" and "sm_find (users w) i = Some v" and "isConnected v \<longrightarrow> isConnected u"
  shows "room_ok cfg (set_user i u w)"
  using assms
  by (auto simp: room_ok_def slots_ok_def live_def all_connected_def split: config.splits)

lemma name_not_taken:
  "name_taken w nm is = Inr False \<Longrightarrow> i \<in> set is \<Longrightarrow> \<exists>u. sm_find (users w) i = Some u \<and> \<not> (isConnected u \<and> name u = nm)"
  by (induction "is") (auto simp: rbind_eq_Inr_iff user_at_Inr split: if_splits)

lemma name_free:
  assumes "room_ok cfg w" and "name_taken w nm (case cfg of SHM \<Rightarrow> slots | No_SHM \<Rightarrow> map fst (users w)) = Inr False"
    and "room (users w) j = Some x"
  shows "fst x \<noteq> nm"
proof -
  obtain u where u: "sm_find (users w) j = Some u" "isConnected u" "x = (name u, ip u, port u)"
    using assms(3) by (auto simp: room_Some)
  then have "live j w" by (simp add: live_def)
  then have "j \<in> set (case cfg of SHM \<Rightarrow> slots | No_SHM \<Rightarrow> map fst (users w))"
    using assms(1) live_iff_key [of j w]
    by (auto simp: room_ok_def slots_ok_def mem_slots MAX_CONN_def split: config.split)
  from name_not_taken [OF assms(2) this] show ?thesis using u by auto
qed

interpretation rooms: world_frame "room_rel self" self for self
proof
  show "room_rel self cfg w w'" if "users w' = users w" for cfg w w'
    using that room_ok_users [OF that] by (simp add: room_rel_def)
  show "room_rel self cfg w w2" if "room_rel self cfg w w1" "room_rel self cfg w1 w2" for cfg w w1 w2
    using that renames_trans unfolding room_rel_def by blast
  show "room_rel self cfg w (set_user i u w)"
    if u: "sm_find (users w) i = Some v" "occupant u = occupant v" "name u = name v" for cfg w i u v
  proof -
    have "badge u = badge v" using u(2,3) by (simp add: badge_def occupant_def)
    then have "room (users (set_user i u w)) = room (users w)" using u(1) by (auto simp: room_def fun_eq_iff)
    then show ?thesis using room_ok_put [OF _ u(1)] u(2) by (simp add: room_rel_def occupant_def)
  qed
  show "room_rel self cfg w (set_user self (u\<lparr>name := n\<rparr>) w)"
    if free: "name_taken w nm (case cfg of SHM \<Rightarrow> slots | No_SHM \<Rightarrow> map fst (users w)) = Inr False"
      and u: "sm_find (users w) self = Some u" and n: "strcpy_into MAX_USER_NAME_LEN nm = Inr n" for cfg w nm u n
  proof -
    have n: "n = c_str nm" "length (c_str nm) < 20"
      using n by (auto simp: strcpy_into_def MAX_USER_NAME_LEN_def split: if_splits)
    have "renames self (room (users w)) (room (users (set_user self (u\<lparr>name := n\<rparr>) w)))" if ok: "room_ok cfg w"
    proof (cases "isConnected u")
      case True
      then have "room (users w) self = Some (name u, ip u, port u)" using u by (simp add: room_Some)
      moreover have "nm \<notin> fst ` ran (room (users w))" using name_free [OF ok free] by (auto simp: ran_def)
      ultimately show ?thesis
        using n True by (auto simp: badge_def intro!: renames_one room_step.Rename)
    next
      case False
      then have "room (users w) self = None" using u by (simp add: room_None)
      then have "(room (users w))(self := None) = room (users w)" by (rule fun_upd_idem)
      then show ?thesis using False by (simp add: badge_def)
    qed
    then show ?thesis using room_ok_put [OF _ u] by (simp add: room_rel_def)
  qed
qed

lemma room_relD: "room_rel self cfg w w' \<Longrightarrow> room_ok cfg w \<Longrightarrow> room_ok cfg w' \<and> renames self (room (users w)) (room (users w'))"
  by (simp add: room_rel_def)

text \<open>What is allowed to rename only one user, whoever it is, changes nothing in the room.\<close>

definition hall :: "config \<Rightarrow> world \<Rightarrow> bool" where
  "hall cfg w \<longleftrightarrow> room_ok cfg w \<and> room (users w) 0 = None"

lemma hall_users: "users w' = users w \<Longrightarrow> hall cfg w' = hall cfg w"
  using room_ok_users [of w' w cfg] by (simp add: hall_def)

lemma renames_place: "renames i r r' \<Longrightarrow> r j = None \<longleftrightarrow> r' j = None"
  unfolding renames_def by (induction rule: rtranclp_induct) (auto elim!: room_step.cases split: if_splits)

lemma renames_nobody:
  assumes "renames i r r'" and "r i = None"
  shows "r' = r"
  using assms(1) unfolding renames_def
  by (induction rule: rtranclp_induct) (use assms(2) in \<open>auto elim: room_step.cases\<close>)

lemma hall_renames: "room_rel self cfg w w' \<Longrightarrow> hall cfg w \<Longrightarrow> hall cfg w' \<and> renames self (room (users w)) (room (users w'))"
  using room_relD renames_place unfolding hall_def by blast

lemma hall_same:
  assumes "\<And>self. room_rel self cfg w w'" and "hall cfg w"
  shows "hall cfg w' \<and> room (users w') = room (users w)"
  using hall_renames [OF assms(1) [of 0] assms(2)] renames_nobody assms(2) unfolding hall_def by blast

subsection \<open>Joining and leaving\<close>

lemma slots_ok_hall: "slots_ok w \<Longrightarrow> hall SHM w"
proof -
  assume ok: "slots_ok w"
  then have "\<not> live 0 w" by (simp add: slots_ok_def)
  then have "room (users w) 0 = None" by (simp add: room_None live_def)
  with ok show "hall SHM w" by (simp add: hall_def room_ok_def)
qed

lemma child_joins:
  assumes ok: "slots_ok w" and start: "multi_child_start l addr port' fd p w = Inr w'"
  shows "\<exists>i. room_step (Joins i) (room (users w)) (room (users w')) \<and> sm_find (sockID_table w') fd = Some i \<and> cur_uid w' = i"
proof -
  let ?w1 = "k_setenv ''PATH'' ''bin:.'' (w\<lparr>kern := k_close l (kern w)\<rparr>)"
  have us: "users ?w1 = users w" by (simp add: k_setenv_def)
  then have ok1: "slots_ok ?w1" using ok by (simp add: slots_occupancy)
  obtain w2 where add: "addUser SHM addr port' fd p ?w1 = Inr w2" and same_slots: "same_slots w2 w'"
    by (rule same_slots.child_start_frame [OF start])
  have rel: "room_rel self SHM w2 w'" for self
  proof -
    obtain w3 where "addUser SHM addr port' fd p ?w1 = Inr w3" "room_rel self SHM w3 w'"
      by (rule rooms.child_start_frame [OF start])
    then show ?thesis unfolding add by (metis sum.inject(2))
  qed
  obtain i v u where i: "1 \<le> i" "i \<le> 30" "sm_find (users w) i = Some v" "\<not> isConnected v"
      "\<forall>j x. 1 \<le> j \<longrightarrow> j < i \<longrightarrow> sm_find (users w) j = Some x \<longrightarrow> isConnected x"
      "users w2 = sm_put i u (users w)" "name u = ''(no name)''"
      "occupant u = (True, p, fd, snprintf_s IP_LEN addr, port')"
      "sm_find (sockID_table w2) fd = Some i" "cur_uid w2 = i"
    by (rule addUser_first [OF ok1 add, unfolded us])
  have "slots_ok w2" using ok i(1-3) by (auto simp: slots_ok_def live_def i(6))
  then have "room (users w') = room (users w2)"
    using hall_same [OF rel] slots_ok_hall by blast
  moreover have "badge u = Some (''(no name)'', snprintf_s IP_LEN addr, port')"
    using i(7,8) by (simp add: badge_def occupant_def)
  ultimately have r: "room (users w') = (room (users w))(i \<mapsto> (''(no name)'', snprintf_s IP_LEN addr, port'))"
    by (simp add: i(6))
  have "room_step (Joins i) (room (users w)) (room (users w'))"
    unfolding r
  proof (rule room_step.Join [OF i(1)])
    show "room (users w) i = None" using i(3,4) by (simp add: room_None)
    have "room (users w) j \<noteq> None" if j: "1 \<le> j" "j < i" for j
    proof -
      have "live j w" using ok j i(2) by (simp add: slots_ok_def)
      then obtain x where "sm_find (users w) j = Some x" by (auto simp: live_def)
      then show ?thesis using i(5) j unfolding room_None by blast
    qed
    then show "\<forall>j. 1 \<le> j \<longrightarrow> j < i \<longrightarrow> room (users w) j \<noteq> None" by blast
  qed
  then show ?thesis using same_slots i(9,10) by (auto simp: same_slots_def)
qed

text \<open>Leaving empties one place and tells the others.\<close>

lemma removeUser_leaves:
  assumes id: "sm_find (sockID_table w) fd = Some i" and u: "sm_find (users w) i = Some u" "isConnected u"
    and hall: "hall cfg w" and rem: "removeUser cfg fd w = Inr w'"
  shows "hall cfg w' \<and> room_step (Leaves i) (room (users w)) (room (users w'))"
proof -
  obtain w1 msg w2 where w1: "users w1 = (case cfg of SHM \<Rightarrow> sm_put i zero_user (users w)
        | No_SHM \<Rightarrow> sm_erase i (sm_put i zero_user (users w)))"
      and b: "broadcastMessage cfg msg w1 = Inr w2" "users w' = users w2"
    by (rule removeUser_rest [OF id rem])
  have r1: "room (users w1) = (room (users w))(i := None)"
    by (cases cfg) (auto simp: w1 badge_def zero_user_def)
  have "room_ok cfg w1"
    using hall u(1)
    by (cases cfg) (auto simp: hall_def room_ok_def w1 slots_ok_def live_def all_connected_def split: if_splits)
  then have "hall cfg w1" using hall r1 by (simp add: hall_def)
  then have "hall cfg w2 \<and> room (users w2) = room (users w1)"
    using hall_same returnsD [OF rooms.broadcast_frame b(1)] by blast
  moreover have "room (users w) i \<noteq> None" using u by (auto simp: room_None)
  ultimately show ?thesis using r1 b(2) hall_users [OF b(2)] by (auto intro: room_step.Leave)
qed

end
