(* ===== verification/Room_Servers.thy ===== *)
theory Room_Servers
  imports Chat_Room
begin

text \<open>
  Both chat servers implement the room of \<open>Chat_Room\<close>: what a visit of \<open>np_single_proc\<close>'s loop and what a
  step of a process of \<open>np_multi_proc\<close> does to it, and the two interpretations of \<open>refinement\<close>.
\<close>

subsection \<open>The single-process server\<close>

context world_frame
begin

lemma serve_new_frame:
  assumes k: "k_open (Socket n) False (kern (srv s)) = (fd, k)" and new: "serve_new n addr port' s = Inr s'"
    and add: "addUser No_SHM addr port' fd (-1) ((srv s)\<lparr>kern := k\<rparr>) = Inr w1"
  shows "R No_SHM w1 (srv s')"
proof -
  obtain i where "sm_find (sockID_table w1) fd = Some i" using addUser_registers [OF add] by blast
  then have id: "getServingUserID fd (emit e w1) = (i, emit e w1)" for e by (intro serving_id_slot) simp
  then obtain nm w4 where w4: "broadcastMessage No_SHM (LOGIN_MSG nm addr port') (emit (Send fd WELCOME_MSG) w1) = Inr w4"
      "srv s' = emit (Send fd ''% '') w4"
    using new
    by (auto simp: serve_new_def k add rbind_eq_Inr_iff sendRawMessage_def getServingUserName_def split: if_splits)
  show ?thesis using returnsD [OF broadcast_after w4(1)] w4(2) by simp
qed

lemma serve_input_frame:
  assumes "serve_input fd s = Inr s'" and "sm_find (sockID_table (srv s)) fd = Some served"
  obtains w1 b where "runShellLoop fd (srv s) = Inr (b, w1)" and "R No_SHM (srv s) w1"
    and "b \<and> srv s' = w1 \<or> removeUser No_SHM fd w1 = Inr (srv s')"
proof -
  obtain y where y: "runShellLoop fd (srv s) = Inr y" using assms(1) by (auto simp: serve_input_def rbind_eq_Inr_iff)
  then have "fst y \<and> srv s' = snd y \<or> removeUser No_SHM fd (snd y) = Inr (srv s')"
    using assms(1) by (cases "fst y") (auto simp: serve_input_def rbind_eq_Inr_iff split_beta)
  then show ?thesis using runShellLoop_frame [OF assms(2) y] y by (intro that [of "fst y" "snd y"]) auto
qed

end

lemma serve_new_visit:
  assumes inv: "server_inv s" and hall: "hall No_SHM (srv s)" and new: "serve_new n addr port' s = Inr s'"
  shows "hall No_SHM (srv s') \<and> visit Newcomer (room (users (srv s))) (room (users (srv s')))"
proof -
  obtain fd k where k: "k_open (Socket n) False (kern (srv s)) = (fd, k)" by force
  let ?w = "(srv s)\<lparr>kern := k\<rparr>"
  obtain w1 where w1: "addUser No_SHM addr port' fd (-1) ?w = Inr w1"
      "users w1 = sm_put (next_id ?w) (new_user addr port' fd (-1)) (users ?w)"
    using addUser_eq by blast
  have "tables_ok ?w" using inv by (simp add: server_inv_def)
  from next_id_least [OF this]
  have free: "1 \<le> next_id ?w" "\<not> live (next_id ?w) (srv s)" "\<And>j. 1 \<le> j \<Longrightarrow> j < next_id ?w \<Longrightarrow> live j (srv s)"
    by (simp_all add: live_def)
  have conn: "all_connected (srv s)" using hall by (simp add: hall_def room_ok_def)
  have occupied: "room (users (srv s)) j \<noteq> None \<longleftrightarrow> live j (srv s)" for j
    using conn unfolding room_None by (auto simp: live_def all_connected_def)
  have badge: "badge (new_user addr port' fd (-1)) = Some (''(no name)'', snprintf_s IP_LEN addr, port')"
    by (simp add: badge_def new_user_def UserInfo_def)
  have r: "room (users w1) = (room (users (srv s)))(next_id ?w \<mapsto> (''(no name)'', snprintf_s IP_LEN addr, port'))"
    using badge by (simp add: w1(2))
  have join: "room_step (Joins (next_id ?w)) (room (users (srv s))) (room (users w1))"
    unfolding r using free occupied by (intro room_step.Join) blast+
  have "hall No_SHM w1"
    using hall free(1) conn r by (auto simp: hall_def room_ok_def all_connected_def w1(2) new_user_def)
  then have "hall No_SHM (srv s') \<and> room (users (srv s')) = room (users w1)"
    by (intro hall_same rooms.serve_new_frame [OF k new w1(1)])
  then show ?thesis using visit.Arrives [OF join] by simp
qed

lemma serve_input_visit:
  assumes inv: "server_inv s" and hall: "hall No_SHM (srv s)" and fd: "fd \<in> registered_socks s"
    and serve: "serve_input fd s = Inr s'"
  shows "hall No_SHM (srv s') \<and> visit Member (room (users (srv s))) (room (users (srv s')))"
proof -
  obtain i where i: "sm_find (sockID_table (srv s)) fd = Some i" using fd by (auto simp: registered_socks_def)
  have T: "tables_ok (srv s)" using inv by (simp add: server_inv_def)
  obtain w1 b where run: "runShellLoop fd (srv s) = Inr (b, w1)" and rel: "room_rel i No_SHM (srv s) w1"
      and left: "b \<and> srv s' = w1 \<or> removeUser No_SHM fd w1 = Inr (srv s')"
    by (rule rooms.serve_input_frame [OF serve i])
  have h1: "hall No_SHM w1" and ren: "renames i (room (users (srv s))) (room (users w1))"
    using hall_renames [OF rel hall] by auto
  have same: "same_users (srv s) w1"
    using runShellLoop_ok [OF tables_ok_serving [OF T i]] run by simp
  then have T1: "tables_ok w1" and i1: "sm_find (sockID_table w1) fd = Some i"
    using tables_ok_same [OF T] i by (auto simp: same_users_def)
  obtain u where u: "sm_find (users w1) i = Some u" using tables_okD [OF T1 i1] by blast
  then have "isConnected u" using h1 by (simp add: hall_def room_ok_def all_connected_def)
  from left show ?thesis
  proof
    assume "b \<and> srv s' = w1"
    then show ?thesis using h1 visit.Stays [OF ren] by simp
  next
    assume "removeUser No_SHM fd w1 = Inr (srv s')"
    from removeUser_leaves [OF i1 u \<open>isConnected u\<close> h1 this] show ?thesis
      using visit.Quits [OF ren] by blast
  qed
qed

text \<open>A round visits the descriptors that are ready in ascending order.\<close>

lemma poll_visits:
  "server_inv s \<Longrightarrow> hall No_SHM (srv s) \<Longrightarrow> distinct socks \<Longrightarrow> serverSock s = l \<Longrightarrow>
     \<forall>fd \<in> set socks. fd \<in> ready \<longrightarrow> fd \<noteq> l \<longrightarrow> fd \<in> registered_socks s \<Longrightarrow>
     rfold (\<lambda>fd s. if fd \<notin> ready then Inr s
                   else if fd = serverSock s then serve_new n addr port' s
                   else serve_input fd s) socks s = Inr s' \<Longrightarrow>
     hall No_SHM (srv s') \<and>
     visits (map (\<lambda>fd. if fd = l then Newcomer else Member) (filter (\<lambda>fd. fd \<in> ready) socks))
       (room (users (srv s))) (room (users (srv s')))"
proof (induction socks arbitrary: s)
  case (Cons fd socks)
  let ?f = "\<lambda>fd s. if fd \<notin> ready then Inr s
                   else if fd = serverSock s then serve_new n addr port' s
                   else serve_input fd s"
  obtain s1 where s1: "?f fd s = Inr s1" "rfold ?f socks s1 = Inr s'"
    using Cons.prems(6) by (auto simp: rbind_eq_Inr_iff)
  have "ok (?f fd s) (\<lambda>s1. server_inv s1 \<and> serverSock s1 = l \<and> registered_socks s - {fd} \<subseteq> registered_socks s1)"
    using Cons.prems(1,4,5)
    by (auto intro: ok_mono [OF serve_new_ok] ok_mono [OF serve_input_ok])
  then have ok1: "server_inv s1" "serverSock s1 = l" "registered_socks s - {fd} \<subseteq> registered_socks s1"
    using s1(1) by auto
  have 1: "hall No_SHM (srv s1) \<and> (if fd \<in> ready
      then visit (if fd = l then Newcomer else Member) (room (users (srv s))) (room (users (srv s1))) else s1 = s)"
  proof (cases "fd \<in> ready")
    case True
    show ?thesis
    proof (cases "fd = l")
      case new: True
      then have "serve_new n addr port' s = Inr s1" using s1(1) True Cons.prems(4) by simp
      from serve_new_visit [OF Cons.prems(1,2) this] show ?thesis using new True by simp
    next
      case False
      then have "serve_input fd s = Inr s1" "fd \<in> registered_socks s" using s1(1) True Cons.prems(4,5) by auto
      from serve_input_visit [OF Cons.prems(1,2) this(2,1)] show ?thesis using False True by simp
    qed
  qed (use s1(1) Cons.prems(2) in simp)
  have "\<forall>fd \<in> set socks. fd \<in> ready \<longrightarrow> fd \<noteq> l \<longrightarrow> fd \<in> registered_socks s1"
    using ok1(3) Cons.prems(3,5) by auto
  from Cons.IH [OF ok1(1) conjunct1 [OF 1] _ ok1(2) this s1(2)] 1 Cons.prems(3) show ?case
    by (auto split: if_splits)
qed simp

lemma poll_round_visits:
  assumes inv: "server_inv s" and hall: "hall No_SHM (srv s)" and ready: "ready \<subseteq> masterSocks s"
    and round: "poll_round ready n addr port' s = Inr s'"
  shows "hall No_SHM (srv s') \<and>
     visits (map (\<lambda>fd. if fd = serverSock s then Newcomer else Member) (filter (\<lambda>fd. fd \<in> ready) [0..maxSocks s]))
       (room (users (srv s))) (room (users (srv s')))"
proof -
  have "\<forall>fd \<in> set [0..maxSocks s]. fd \<in> ready \<longrightarrow> fd \<noteq> serverSock s \<longrightarrow> fd \<in> registered_socks s"
    using inv ready by (auto simp: server_inv_def registered_socks_def)
  from poll_visits [OF inv hall _ refl this round [unfolded poll_round_def]] show ?thesis by simp
qed

subsection \<open>Both servers as implementations of the room\<close>

definition room_starts :: "room \<Rightarrow> bool" where
  "room_starts r \<longleftrightarrow> r = Map.empty"

definition room_turn :: "room \<Rightarrow> room \<Rightarrow> bool" where
  "room_turn r r' \<longleftrightarrow> (\<exists>v. visit v r r')"

definition single_room :: "server_loop \<Rightarrow> room" where
  "single_room s = room (users (srv s))"

definition multi_room :: "multi_system \<Rightarrow> room" where
  "multi_room s = room (shared s)"

lemma visits_turns: "visits vs r r' \<Longrightarrow> room_turn\<^sup>*\<^sup>* r r'"
proof (induction vs arbitrary: r)
  case (Cons v vs)
  then obtain r1 where "visit v r r1" "room_turn\<^sup>*\<^sup>* r1 r'" by auto
  moreover from this(1) have "room_turn r r1" by (auto simp: room_turn_def)
  ultimately show ?case by (simp add: converse_rtranclp_into_rtranclp)
qed simp

definition single_inv :: "server_loop \<Rightarrow> bool" where
  "single_inv s \<longleftrightarrow> server_inv s \<and> hall No_SHM (srv s)"

lemma single_start_empty: "single_start args host addr w = Inr s \<Longrightarrow> users (srv s) = []"
  by (auto simp: single_start_def Let_def rbind_eq_Inr_iff createListenSocket_def chatServer_def split_beta
      default_paths_frame showServingNetworkInfo_def split: if_splits)

interpretation single_refinement: refinement single_starts single_step single_inv single_room room_starts room_turn
proof
  fix s
  assume start: "single_starts s"
  then have "users (srv s) = []" using single_start_empty by (auto simp: single_starts_def)
  then show "single_inv s" "room_starts (single_room s)"
    using single.inv_start [OF start]
    by (simp_all add: single_inv_def hall_def room_ok_def all_connected_def room_starts_def single_room_def)
next
  fix s s'
  assume inv: "single_inv s" and step: "single_step s s'"
  have sim: "hall No_SHM (srv s') \<and> room_turn\<^sup>*\<^sup>* (single_room s) (single_room s')"
    using step
  proof (rule single_stepE)
    fix ready n addr port'
    assume "ready \<subseteq> masterSocks s" "poll_round ready n addr port' s = Inr s'"
    from poll_round_visits [OF _ _ this] show ?thesis
      using inv visits_turns by (auto simp: single_inv_def single_room_def)
  next
    fix inp assume "s' = s\<lparr>srv := (srv s)\<lparr>incoming := inp\<rparr>\<rparr>"
    then show ?thesis using inv hall_users [of "srv s'" "srv s"] by (simp add: single_inv_def single_room_def)
  qed
  then show "single_inv s'" "room_turn\<^sup>*\<^sup>* (single_room s) (single_room s')"
    using single.inv_step [OF _ step] inv by (simp_all add: single_inv_def)
qed

subsection \<open>The multi-process server\<close>

text \<open>
  One step of one process, in terms of the room: entering joins, a turn of the shell of the process that
  serves \<open>i\<close> renames \<open>i\<close>, leaving empties the place, and nothing else changes it.
\<close>

lemma turn_renames:
  assumes own: "ownership s" and c: "processes s p = Some c"
    and run: "runShell SHM (client_fd c) (proc_shell c) (cout ''% '' (view s (own c))) = Inr (h, w)"
  shows "\<exists>i. serves s p i \<and> renames i (multi_room s) (room (users w))"
proof -
  obtain i a q where i: "serves s p i" "sm_find (sockID_table (own c)) (client_fd c) = Some i" by (rule ownershipD [OF own c])
  have "room_rel i SHM (cout ''% '' (view s (own c))) w"
    using rooms.runShell_frame [OF _ run] i(2) by simp
  moreover have "hall SHM (cout ''% '' (view s (own c)))"
    using slots_ok_hall [OF ownership_slots [OF own]] hall_users [of "cout ''% '' (view s (own c))" "view s (own c)" SHM] by simp
  ultimately show ?thesis using hall_renames i(1) by (fastforce simp: multi_room_def)
qed

lemma notified_same:
  assumes own: "ownership s" and "Kill (view s (own c)) = Inr w"
  shows "room (users w) = multi_room s"
  using hall_same [OF returnsD [OF rooms.Kill_frame assms(2)] slots_ok_hall [OF ownership_slots [OF own]]]
  by (simp add: multi_room_def)

lemma leave_leaves:
  assumes own: "ownership s" and c: "processes s p = Some c"
    and rem: "removeUser SHM (client_fd c) (view s (own c)) = Inr w"
  shows "\<exists>i. serves s p i \<and> room_step (Leaves i) (multi_room s) (room (users w))"
proof -
  obtain i a q where i: "serves s p i" "sm_find (sockID_table (own c)) (client_fd c) = Some i"
      "occupancy (shared s) i = Some (True, p, client_fd c, a, q)" by (rule ownershipD [OF own c])
  then obtain u where "sm_find (shared s) i = Some u" "isConnected u"
    by (auto simp: occupancy_def occupant_def)
  then have "room_step (Leaves i) (room (users (view s (own c)))) (room (users w))"
    using removeUser_leaves [OF _ _ _ slots_ok_hall [OF ownership_slots [OF own]] rem, of i u] i(2) by simp
  then show ?thesis using i(1) by (auto simp: multi_room_def)
qed

lemma multi_step_room:
  assumes own: "ownership s" and step: "multi_step s s'"
  shows "(\<forall>p i. processes s p = None \<longrightarrow> serves s' p i \<longrightarrow> room_step (Joins i) (multi_room s) (multi_room s')) \<and>
     (\<forall>p i. serves s p i \<longrightarrow> processes s' p = None \<longrightarrow> room_step (Leaves i) (multi_room s) (multi_room s')) \<and>
     (dom (processes s') = dom (processes s) \<longrightarrow>
        multi_room s' = multi_room s \<or> (\<exists>p i. serves s p i \<and> renames i (multi_room s) (multi_room s')))"
    (is "?join \<and> ?leave \<and> ?other")
proof -
  have keep: "?join \<and> ?leave \<and> ?other"
    if "multi_room s' = multi_room s \<or> (\<exists>p i. serves s p i \<and> renames i (multi_room s) (multi_room s'))"
      and "dom (processes s') = dom (processes s)"
  proof -
    have "processes s p = None \<longleftrightarrow> processes s' p = None" for p using that(2) domIff by metis
    moreover have "processes s p \<noteq> None" if "serves s p i" for p i using that by (auto simp: serves_def)
    moreover have "processes s' p \<noteq> None" if "serves s' p i" for p i using that by (auto simp: serves_def)
    ultimately show ?thesis using that(1) by blast
  qed
  show ?thesis
    using step
  proof (rule multi_stepE)
    fix n fd w0 p addr port' w
    assume p: "processes s p = None" and start: "multi_child_start (listener s) addr port' fd p (view s w0) = Inr w"
      and s': "s' = set_process p (Some \<lparr>own = w, client_fd = fd, proc_shell = CmdHandler\<rparr>) (publish w (s\<lparr>parent := w0\<rparr>))"
    obtain i where i: "room_step (Joins i) (multi_room s) (multi_room s')" "serves s' p i"
      using child_joins [OF ownership_slots [OF own] start] by (auto simp: s' multi_room_def serves_set_process)
    have "q = p" if "processes s q = None" "serves s' q j" for q j using that by (auto simp: s' serves_def split: if_splits)
    then have ?join using i serves_unique by blast
    moreover have ?leave using p by (auto simp: s' serves_def)
    moreover have "p \<in> dom (processes s') - dom (processes s)" using p by (auto simp: s')
    ultimately show ?thesis by blast
  next
    fix p c h w
    assume c: "processes s p = Some c"
      and run: "runShell SHM (client_fd c) (proc_shell c) (cout ''% '' (view s (own c))) = Inr (h, w)"
      and s': "s' = set_process p (Some (c\<lparr>own := w, proc_shell := h\<rparr>)) (publish w s)"
    show ?thesis by (rule keep) (use turn_renames [OF own c run] c in \<open>auto simp: s' multi_room_def\<close>)
  next
    fix p c w
    assume c: "processes s p = Some c" and kill: "Kill (view s (own c)) = Inr w"
      and s': "s' = set_process p (Some (c\<lparr>own := w\<rparr>)) (publish w s)"
    show ?thesis by (rule keep) (use notified_same [OF own kill] c in \<open>auto simp: s' multi_room_def\<close>)
  next
    fix p c inp
    assume "processes s p = Some c" "s' = set_process p (Some (c\<lparr>own := own c\<lparr>incoming := inp\<rparr>\<rparr>)) s"
    then show ?thesis by (intro keep) (auto simp: multi_room_def)
  next
    fix p c w
    assume c: "processes s p = Some c" and rem: "removeUser SHM (client_fd c) (view s (own c)) = Inr w"
      and s': "s' = set_process p None (publish w s)"
    obtain i where i: "serves s p i" "room_step (Leaves i) (multi_room s) (room (users w))" using leave_leaves [OF own c rem] by blast
    have r: "multi_room s' = room (users w)" by (simp add: s' multi_room_def)
    have "q = p" if "processes s' q = None" "serves s q j" for q j using that by (auto simp: s' serves_def split: if_splits)
    then have ?leave unfolding r using i serves_unique by blast
    moreover have ?join by (auto simp: s' serves_def)
    moreover have "p \<in> dom (processes s) - dom (processes s')" using c by (auto simp: s')
    ultimately show ?thesis by blast
  qed (intro keep; simp add: multi_room_def)
qed

lemma room_turn_simps:
  "room_step (Joins i) r r' \<Longrightarrow> room_turn r r'" "renames i r r' \<Longrightarrow> room_turn r r'" "room_step (Leaves i) r r' \<Longrightarrow> room_turn r r'"
  unfolding room_turn_def by (blast intro: visit.intros)+

interpretation multi_refinement: refinement multi_starts multi_step ownership multi_room room_starts room_turn
proof
  fix s assume "multi_starts s"
  then have own: "ownership s" and p: "processes s = (\<lambda>_. None)"
    using multi.inv_start by (auto simp: multi_starts_def publish_def)
  have "\<not> isConnected u" if "sm_find (shared s) i = Some u" for i u
  proof
    assume "isConnected u"
    then have "serves s (pid u) i" using own that by (fastforce simp: ownership_def occupancy_def occupant_def)
    then show False using p by (simp add: serves_def)
  qed
  then show "room_starts (multi_room s)" by (auto simp: room_starts_def multi_room_def fun_eq_iff room_None)
next
  fix s s'
  assume own: "ownership s" and step: "multi_step s s'"
  note room = multi_step_room [OF own step]
  have "multi_room s' = multi_room s \<or> room_turn (multi_room s) (multi_room s')"
  proof (cases "dom (processes s') = dom (processes s)")
    case True
    then show ?thesis using room room_turn_simps(2) by blast
  next
    case False
    then obtain p where "p \<in> dom (processes s') - dom (processes s) \<or> p \<in> dom (processes s) - dom (processes s')" by blast
    then show ?thesis
    proof
      assume p: "p \<in> dom (processes s') - dom (processes s)"
      then obtain c where "processes s' p = Some c" by blast
      then obtain i where "serves s' p i" by (rule ownershipD [OF multi.inv_step [OF own step]])
      moreover have "processes s p = None" using p by blast
      ultimately show ?thesis using room room_turn_simps(1) by blast
    next
      assume p: "p \<in> dom (processes s) - dom (processes s')"
      then obtain c where "processes s p = Some c" by blast
      then obtain i where "serves s p i" by (rule ownershipD [OF own])
      moreover have "processes s' p = None" using p by blast
      ultimately show ?thesis using room room_turn_simps(3) by blast
    qed
  qed
  then show "room_turn\<^sup>*\<^sup>* (multi_room s) (multi_room s')" by auto
qed

end
