(* ===== verification/Room_Properties.thy ===== *)
theory Room_Properties
  imports Room_Servers Server_Properties Multi_Properties
begin

text \<open>
  The properties of the two chat servers as implementations of one chat room, and what they inherit from
  it.
\<close>

subsection \<open>A server with one client\<close>

lemma sample_loop_shape:
  "serverSock sample_loop = 6" "masterSocks sample_loop = {6}" "maxSocks sample_loop = 6"
  "\<exists>k. k_open (Socket 1) False (kern (srv sample_loop)) = (7, k)"
proof -
  have port: "getPortFromArgs [''np'', ''7000''] = Inr 7000" by code_simp
  let ?w = "chatServer (k_setenv ''PATH'' ''bin:.'' (sample_world 64 [] [] []))"
  obtain k where k: "k_open (Socket 0) False (kern ?w) = (6, k)" "\<exists>k'. k_open (Socket 1) False k = (7, k')"
    by (simp add: chatServer_def k_dup_def k_open_def lowest_free_def sample_table_def k_setenv_def)
  have "kern (fold (\<lambda>i. setServingUserEnv i n v) is w) = kern w" for "is" n v w
    by (induction "is" arbitrary: w) (auto simp: setServingUserEnv_def Let_def split_beta)
  then have kern: "kern (default_paths (showServingNetworkInfo h a p w)) = kern w" for h a p w
    by (simp add: default_paths_def showServingNetworkInfo_def)
  have loop: "sample_loop = \<lparr>srv = default_paths (showServingNetworkInfo ''host'' ''1.1.1.1'' 7000 (?w\<lparr>kern := k\<rparr>)),
      serverSock = 6, masterSocks = {6}, maxSocks = 6\<rparr>"
    unfolding sample_loop_def by (simp add: single_start_def Let_def port createListenSocket_def k(1) FD_SETSIZE_def)
  then show "serverSock sample_loop = 6" "masterSocks sample_loop = {6}" "maxSocks sample_loop = 6"
      "\<exists>k. k_open (Socket 1) False (kern (srv sample_loop)) = (7, k)"
    using k(2) by (simp_all add: loop kern)
qed

lemma first_round: "\<exists>s'. poll_round {6} 1 ''1.2.3.4'' 50000 sample_loop = Inr s'"
proof -
  obtain k where "k_open (Socket 1) False (kern (srv sample_loop)) = (7, k)" using sample_loop_shape(4) by blast
  then obtain s' where "serve_new 1 ''1.2.3.4'' 50000 sample_loop = Inr s'"
    using serve_new_total [of 1 sample_loop 7 k] by (auto simp: FD_SETSIZE_def)
  moreover have "[0..6] = [0, 1, 2, 3, 4, 5, 6 :: int]" by (simp add: upto_rec1)
  ultimately show ?thesis by (simp add: poll_round_def sample_loop_shape)
qed

lemma sample_loop_reach: "reach single_starts single_step sample_loop"
  using sample_loop_start by (intro reach.Start) (auto simp: single_starts_def)

subsection \<open>Refinement\<close>





subsection \<open>What both servers inherit\<close>

definition well_named :: "room \<Rightarrow> bool" where
  "well_named r \<longleftrightarrow> (\<forall>i n a p. r i = Some (n, a, p) \<longrightarrow> 1 \<le> i \<and> length n < 20 \<and> nul \<notin> set n)"

lemma room_step_well_named: "room_step e r r' \<Longrightarrow> well_named r \<Longrightarrow> well_named r'"
  by (induction rule: room_step.induct)
    (auto simp: well_named_def c_str_def nul_def dest: set_takeWhileD)

lemma renames_well_named: "renames i r r' \<Longrightarrow> well_named r \<Longrightarrow> well_named r'"
  unfolding renames_def by (induction rule: rtranclp_induct) (auto intro: room_step_well_named)

lemma visit_well_named: "visit v r r' \<Longrightarrow> well_named r \<Longrightarrow> well_named r'"
  by (induction rule: visit.induct) (blast intro: room_step_well_named renames_well_named)+

interpretation room: invariant room_starts room_turn well_named
proof
  show "well_named r" if "room_starts r" for r using that by (simp add: room_starts_def well_named_def)
  show "well_named r'" if "well_named r" "room_turn r r'" for r r'
    using that visit_well_named by (auto simp: room_turn_def)
qed



end
