(* ===== verification/Turn_Facts.thy ===== *)
theory Turn_Facts
  imports Chat_Facts Parser_Facts
begin

text \<open>
  A whole turn of \<open>runShellLoop\<close> for a line that holds one command of the chat: from the bytes on the
  client's socket through \<open>std::cin\<close>, the parser and the command to the restored descriptors and the
  next prompt.
\<close>

subsection \<open>A client that has typed a line\<close>

text \<open>The client on \<open>fd\<close> is the user \<open>i\<close>, still runs its shell, and \<open>line\<close> is what it sends next.\<close>

definition typed :: "int \<Rightarrow> int \<Rightarrow> string \<Rightarrow> world \<Rightarrow> bool" where
  "typed fd i line w \<longleftrightarrow>
     serving fd i w \<and> (\<exists>u. sm_find (users w) i = Some u \<and> running (shell u)) \<and>
     cin_good w \<and> stdin_buf w = [] \<and> newline \<notin> set line \<and> 3 \<le> fd \<and> 3 \<le> nofile (kern w) \<and>
     (\<exists>n c chunks. fds (kern w) fd = Some (Socket n, c) \<and> incoming w (Socket n) = (line @ [newline]) # chunks)"

text \<open>Standard output while the client on \<open>fd\<close> is served.\<close>

definition socket_of :: "int \<Rightarrow> world \<Rightarrow> fobj option" where
  "socket_of fd w = map_option fst (fds (kern w) fd)"

text \<open>What \<open>runShellLoop\<close> does once the shell has returned: the record, the server's own descriptors, the prompt.\<close>

definition turn_end :: "int \<Rightarrow> int \<Rightarrow> cmd_handler \<Rightarrow> world \<Rightarrow> (bool \<times> world) result" where
  "turn_end fd i h w =
     rbind (user_at w i) (\<lambda>u.
       let w5 = set_user i (u\<lparr>shell := h\<rparr>) w;
           w6 = w5\<lparr>kern := k_dup2 (serverErr w5) 2 (k_dup2 (serverOut w5) 1 (k_dup2 (serverIn w5) 0 (kern w5)))\<rparr>
       in if running h then rbind (sendRawMessage No_SHM fd ''% '' w6) (\<lambda>w7. Inr (True, w7)) else Inr (False, w6))"

lemma turn_start:
  assumes typed: "typed fd i line w" and u: "sm_find (users w) i = Some u"
  obtains w3 w4 where "runShellLoop fd w = rbind (runShell No_SHM fd (shell u) w3) (\<lambda>(h, w4). turn_end fd i h w4)"
    and "getline_cin w3 = Inr (line, w4)"
    and "users w3 = users w" and "sockID_table w3 = sockID_table w" and "trace w3 = trace w"
    and "kern w3 = k_dup2 fd 2 (k_dup2 fd 1 (k_dup2 fd 0 (kern w)))"
    and "serverIn w3 = serverIn w" and "serverOut w3 = serverOut w" and "serverErr w3 = serverErr w"
    and "cin_good w4" and "stdin_buf w4 = []"
proof -
  obtain n c chunks where s: "serving fd i w"
      and cin: "cin_good w" "stdin_buf w = []" and line: "newline \<notin> set line" and fd: "3 \<le> fd" "3 \<le> nofile (kern w)"
      and sk: "fds (kern w) fd = Some (Socket n, c)" "incoming w (Socket n) = (line @ [newline]) # chunks"
    using typed unfolding typed_def by blast
  let ?k = "k_dup2 fd 2 (k_dup2 fd 1 (k_dup2 fd 0 (kern w)))"
  let ?w1 = "w\<lparr>kern := ?k\<rparr>"
  obtain path w2 where env: "getServingUserEnv i ''PATH'' ?w1 = (path, w2)" by force
  let ?w3 = "k_setenv ''PATH'' (c_str path) w2"
  have f3: "users ?w3 = users w" "sockID_table ?w3 = sockID_table w" "kern ?w3 = ?k" "trace ?w3 = trace w"
      "serverIn ?w3 = serverIn w" "serverOut ?w3 = serverOut w" "serverErr ?w3 = serverErr w"
      "cin_good ?w3 = cin_good w" "stdin_buf ?w3 = stdin_buf w" "incoming ?w3 = incoming w"
    using env by (auto simp: getServingUserEnv_def k_setenv_def Let_def split: prod.splits)
  have tab: "fds ?k 0 = Some (Socket n, False)"
    using fd sk(1) by (auto simp: k_dup2_def)
  have "takeWhile (\<lambda>c. c \<noteq> newline) (line @ [newline]) = line" "dropWhile (\<lambda>c. c \<noteq> newline) (line @ [newline]) = [newline]"
    using line by (auto intro!: takeWhile_append_stop dropWhile_append_stop)
  then have "\<exists>w4. getline_cin ?w3 = Inr (line, w4) \<and> cin_good w4 \<and> stdin_buf w4 = []"
    using cin tab(1) sk(2) by (simp add: getline_cin_def obj_at_def f3 fill_line.simps)
  then obtain w4 where "getline_cin ?w3 = Inr (line, w4)" "cin_good w4" "stdin_buf w4 = []" by blast
  moreover have "runShellLoop fd w = rbind (runShell No_SHM fd (shell u) ?w3) (\<lambda>(h, w4). turn_end fd i h w4)"
    using u by (simp add: runShellLoop_def serving_id [OF s] env Let_def user_at_def f3 turn_end_def)
  ultimately show ?thesis by (intro that [of ?w3 w4]) (simp_all add: f3)
qed

lemma turn_end_prompt:
  assumes "sm_find (users w) i = Some u" "running h"
  shows "\<exists>w'. turn_end fd i h w = Inr (True, w') \<and> users w' = sm_put i (u\<lparr>shell := h\<rparr>) (users w) \<and>
     sockID_table w' = sockID_table w \<and> trace w' = trace w @ [Send fd ''% ''] \<and>
     serverIn w' = serverIn w \<and> serverOut w' = serverOut w \<and> serverErr w' = serverErr w \<and>
     cin_good w' = cin_good w \<and> stdin_buf w' = stdin_buf w \<and> incoming w' = incoming w \<and>
     kern w' = k_dup2 (serverErr w) 2 (k_dup2 (serverOut w) 1 (k_dup2 (serverIn w) 0 (kern w)))"
  using assms by (simp add: turn_end_def Let_def user_at_def sendRawMessage_def)

lemma chat_turn:
  assumes typed: "typed fd i line w"
  obtains w4 h where "users w4 = users w" and "trace w4 = trace w" and "sockID_table w4 = sockID_table w"
    and "obj_at (kern w4) 1 = socket_of fd w" and "serving fd i w4"
    and "\<And>w5 v s. parse_loop No_SHM i \<lparr>iss = istringstream line, queue = [], cur = NpCommandLine, argv = [], sh = h, wd = w4\<rparr> =
           Inr \<lparr>iss = s, queue = [], cur = NpCommandLine, argv = [], sh = h, wd = w5\<rparr> \<Longrightarrow>
         sm_find (users w5) i = Some v \<Longrightarrow>
         \<exists>w6. runShellLoop fd w = Inr (True, w6) \<and> users w6 = sm_put i (v\<lparr>shell := h\<rparr>) (users w5) \<and>
           sockID_table w6 = sockID_table w5 \<and> trace w6 = trace w5 @ [Send fd ''% '']"
proof -
  obtain u n c where s: "serving fd i w" and u: "sm_find (users w) i = Some u" "running (shell u)"
      and fd: "3 \<le> fd" "3 \<le> nofile (kern w)" and sk: "fds (kern w) fd = Some (Socket n, c)"
    using typed unfolding typed_def by blast
  obtain w3 w4 where run: "runShellLoop fd w = rbind (runShell No_SHM fd (shell u) w3) (\<lambda>(h, w4). turn_end fd i h w4)"
      and get: "getline_cin w3 = Inr (line, w4)" and f3: "users w3 = users w" "sockID_table w3 = sockID_table w"
        "trace w3 = trace w" "kern w3 = k_dup2 fd 2 (k_dup2 fd 1 (k_dup2 fd 0 (kern w)))"
    using turn_start [OF typed u(1)] by metis
  note f4 = getline_cin_frame [OF get]
  have s3: "serving fd i w3" and s4: "serving fd i w4" using s f4 by (simp_all add: serving_def live_def f3)
  let ?h = "(shell u)\<lparr>shell_fd := fd\<rparr>"
  have "\<exists>w6. runShellLoop fd w = Inr (True, w6) \<and> users w6 = sm_put i (v\<lparr>shell := ?h\<rparr>) (users w5) \<and>
      sockID_table w6 = sockID_table w5 \<and> trace w6 = trace w5 @ [Send fd ''% '']"
    if parse: "parse_loop No_SHM i \<lparr>iss = istringstream line, queue = [], cur = NpCommandLine, argv = [], sh = ?h, wd = w4\<rparr> =
        Inr \<lparr>iss = st, queue = [], cur = NpCommandLine, argv = [], sh = ?h, wd = w5\<rparr>"
      and v: "sm_find (users w5) i = Some v" for w5 v st
  proof -
    have "parseCommand No_SHM line ?h w4 = Inr ([], ?h, w5)"
      using parse by (simp add: parseCommand_def serving_id [OF s4] NpCommandLine_def)
    then have "runShell No_SHM fd (shell u) w3 = Inr (?h, w5)"
      using fd(1) by (simp add: runShell_def serving_id [OF s3] get)
    then show ?thesis using turn_end_prompt [OF v, of ?h fd] u(2) by (auto simp: run)
  qed
  moreover have "obj_at (kern w4) 1 = socket_of fd w"
    using sk fd by (auto simp: obj_at_def socket_of_def f3 f4 k_dup2_def split: option.splits)
  ultimately show ?thesis by (intro that [of w4 ?h]) (use s4 in \<open>simp_all add: f3 f4\<close>)
qed

subsection \<open>Parsing one command\<close>

lemma parse_loop_one:
  assumes w: "is_word t" and rest: "rest = [] \<or> isspace (hd rest)"
    and tok: "parse_token cfg i t (st\<lparr>iss := \<lparr>unread = rest, failed = False\<rparr>\<rparr>) = Inr st1"
    and "unread (iss st1) = []" and "iss st = istringstream (t @ rest)"
  shows "parse_loop cfg i st = Inr (st1\<lparr>iss := at_end\<rparr>)"
proof -
  have "get_word (iss st1) = (None, at_end) \<or> failed (iss st1) \<and> get_word (iss st1) = (None, iss st1)"
    using assms(4) by (auto simp: get_word_def)
  moreover have "failed (iss st1) \<Longrightarrow> iss st1 = at_end"
    using assms(4) by (simp add: at_end_def)
  ultimately have "parse_loop cfg i st1 = Inr (st1\<lparr>iss := at_end\<rparr>)"
    by (subst parse_loop.simps) auto
  then show ?thesis
    using assms(5) tok by (subst parse_loop.simps) (simp add: istringstream_def get_word_prefix [OF w rest])
qed

text \<open>A message: it has a first character that is no white space, and no newline.\<close>

definition message :: "string \<Rightarrow> bool" where
  "message msg \<longleftrightarrow> msg \<noteq> [] \<and> \<not> isspace (hd msg) \<and> newline \<notin> set msg"

lemma rest_line_message:
  "message msg \<Longrightarrow> get_rest_line \<lparr>unread = CHR '' '' # msg, failed = False\<rparr> = (msg, \<lparr>unread = [], failed = False\<rparr>)"
proof -
  assume m: "message msg"
  then have "dropWhile isspace msg = msg" by (intro dropWhile_stop) (simp add: message_def)
  moreover have line: "takeWhile (\<lambda>c. c \<noteq> newline) msg = msg" "dropWhile (\<lambda>c. c \<noteq> newline) msg = []"
    using m by (auto simp: message_def takeWhile_eq_all_conv dropWhile_eq_Nil_conv)
  moreover have "isspace (CHR '' '')" by code_simp
  ultimately show ?thesis using m by (simp add: get_rest_line_def Let_def message_def line)
qed

lemma get_int_number:
  assumes "int k \<le> int_max"
  shows "get_int \<lparr>unread = CHR '' '' # nat_text k @ CHR '' '' # msg, failed = False\<rparr> =
     (Some (int k), \<lparr>unread = CHR '' '' # msg, failed = False\<rparr>)"
proof -
  let ?s = "nat_text k @ CHR '' '' # msg"
  have sp: "isspace (CHR '' '')" "\<not> isdigit (CHR '' '')" by code_simp+
  have hd: "isdigit (hd ?s)" using nat_text_hd_digit [of k] by (simp add: hd_append)
  then have "dropWhile isspace ?s = ?s" by (intro dropWhile_stop) (simp add: isdigit_not_space)
  moreover have "split_sign ?s = (1, ?s)" by (rule split_sign_digit) (use hd in simp_all)
  moreover have "takeWhile isdigit ?s = nat_text k" "dropWhile isdigit ?s = CHR '' '' # msg"
    using sp(2) nat_text_digits by (auto intro!: takeWhile_append_stop dropWhile_append_stop)
  moreover have "int_min \<le> int k" by (simp add: int_min_def)
  ultimately show ?thesis
    using assms sp(1) by (simp add: get_int_def Let_def)
qed

lemma parse_yell_line:
  assumes "message msg" and "Yell cfg i msg (wd st) = Inr w" and "iss st = istringstream (''yell '' @ msg)"
  shows "parse_loop cfg i st = Inr (st\<lparr>iss := at_end, wd := w\<rparr>)"
proof -
  have "is_word ''yell''" by code_simp
  moreover have "isspace (CHR '' '')" by code_simp
  moreover have "parse_token cfg i ''yell'' (st\<lparr>iss := \<lparr>unread = CHR '' '' # msg, failed = False\<rparr>\<rparr>) =
      Inr (st\<lparr>iss := \<lparr>unread = [], failed = False\<rparr>, wd := w\<rparr>)"
    using assms(2) by (simp add: parse_token_def parse_yell_def rest_line_message [OF assms(1)])
  ultimately show ?thesis
    using parse_loop_one [of "''yell''" "CHR '' '' # msg" cfg i st] assms(3) by simp
qed

lemma parse_tell_line:
  assumes "message msg" and "int k \<le> int_max" and "Tell cfg i (int k) msg (wd st) = Inr w"
    and "iss st = istringstream (''tell '' @ nat_text k @ '' '' @ msg)"
  shows "parse_loop cfg i st = Inr (st\<lparr>iss := at_end, wd := w\<rparr>)"
proof -
  have "is_word ''tell''" by code_simp
  moreover have "isspace (CHR '' '')" by code_simp
  moreover have "parse_token cfg i ''tell'' (st\<lparr>iss := \<lparr>unread = CHR '' '' # nat_text k @ CHR '' '' # msg, failed = False\<rparr>\<rparr>) =
      Inr (st\<lparr>iss := \<lparr>unread = [], failed = False\<rparr>, wd := w\<rparr>)"
    using assms(3)
    by (simp add: parse_token_def parse_tell_def get_int_number [OF assms(2)] rest_line_message [OF assms(1)])
  ultimately show ?thesis
    using parse_loop_one [of "''tell''" "CHR '' '' # nat_text k @ CHR '' '' # msg" cfg i st] assms(4) by simp
qed

lemma parse_who_line:
  assumes "Who cfg i (wd st) = Inr w" and "iss st = istringstream ''who''"
  shows "parse_loop cfg i st = Inr (st\<lparr>iss := at_end, wd := w\<rparr>)"
proof -
  have "is_word ''who''" by code_simp
  moreover have "parse_token cfg i ''who'' (st\<lparr>iss := \<lparr>unread = [], failed = False\<rparr>\<rparr>) =
      Inr (st\<lparr>iss := \<lparr>unread = [], failed = False\<rparr>, wd := w\<rparr>)"
    using assms(1) by (simp add: parse_token_def)
  ultimately show ?thesis
    using parse_loop_one [of "''who''" "[]" cfg i st] assms(2) by simp
qed

end
