(* ===== verification/Turn_Properties.thy ===== *)
theory Turn_Properties
  imports Turn_Facts Room_Servers Server_Properties
begin

text \<open>
  What \<open>np_single_proc\<close> does when a client has typed a command of the chat: the whole handler, from the
  bytes on the socket to the messages that go out and the next prompt.
\<close>

subsection \<open>Serving a typed command\<close>

lemma Yell_world:
  assumes "sm_find (users w) i = Some u"
  shows "\<exists>w'. Yell No_SHM i msg w = Inr w' \<and> users w' = users w \<and> sockID_table w' = sockID_table w \<and>
     trace w' = trace w @ map (\<lambda>e. Send (sock (snd e)) (YELL_MSG (name u) msg)) (users w)"
  using assms broadcast_eq [of "YELL_MSG (name u) msg" w]
  by (simp add: Yell_def user_at_def broadcastMessage_def Let_def)

lemma Tell_world:
  assumes "sm_find (users w) i = Some u"
  shows "\<exists>w'. Tell No_SHM i k msg w = Inr w' \<and> users w' = users w \<and> sockID_table w' = sockID_table w \<and>
     trace w' = trace w @ [case sm_find (users w) k of None \<Rightarrow> Cout (obj_at (kern w) 1) (no_user_msg k)
       | Some v \<Rightarrow> Send (sock v) (TELL_MSG (name u) msg)]"
  using assms by (simp add: Tell_def user_at_def sendRawMessage_def split: option.split)

definition who_header :: string where
  "who_header = ''<ID>'' @ [CHR 0x09] @ ''<nickname>'' @ [CHR 0x09] @ ''<IP:port>'' @ [CHR 0x09] @ ''<indicate me>'' @ nl"

lemma Who_world:
  "\<exists>w'. Who No_SHM i w = Inr w' \<and> users w' = users w \<and> sockID_table w' = sockID_table w \<and>
     trace w' = trace w @ map (Cout (obj_at (kern w) 1)) (who_header # map (\<lambda>(j, v). who_line i j v) (users w))"
proof -
  have "\<exists>w'. rfold (\<lambda>e w. Inr (cout (who_line i (fst e) (snd e)) w)) es w = Inr w' \<and> users w' = users w \<and>
      sockID_table w' = sockID_table w \<and> trace w' = trace w @ map (Cout (obj_at (kern w) 1)) (map (\<lambda>(j, v). who_line i j v) es)"
    for es w
  proof (induction es arbitrary: w)
    case (Cons e es)
    then show ?case using Cons.IH [of "cout (who_line i (fst e) (snd e)) w"] by (simp add: split_beta)
  qed simp
  from this [of "users w" "cout who_header w"] show ?thesis
    by (simp add: Who_def Let_def who_header_def)
qed

text \<open>The turn leaves the room as it was.\<close>

lemma serve_typed:
  assumes typed: "typed fd i line (srv s)" and op: "\<And>w4 h. users w4 = users (srv s) \<Longrightarrow> trace w4 = trace (srv s) \<Longrightarrow>
      obj_at (kern w4) 1 = socket_of fd (srv s) \<Longrightarrow>
      \<exists>w5 st. parse_loop No_SHM i \<lparr>iss = istringstream line, queue = [], cur = NpCommandLine, argv = [], sh = h, wd = w4\<rparr> =
          Inr \<lparr>iss = st, queue = [], cur = NpCommandLine, argv = [], sh = h, wd = w5\<rparr> \<and>
        users w5 = users w4 \<and> trace w5 = trace w4 @ es"
  shows "\<exists>s'. serve_input fd s = Inr s' \<and> trace (srv s') = trace (srv s) @ es @ [Send fd ''% ''] \<and> single_room s' = single_room s"
proof (rule chat_turn [OF typed])
  fix w4 h
  assume w4: "users w4 = users (srv s)" "trace w4 = trace (srv s)" "obj_at (kern w4) 1 = socket_of fd (srv s)"
    and turn: "\<And>w5 v st. parse_loop No_SHM i \<lparr>iss = istringstream line, queue = [], cur = NpCommandLine, argv = [], sh = h, wd = w4\<rparr> =
           Inr \<lparr>iss = st, queue = [], cur = NpCommandLine, argv = [], sh = h, wd = w5\<rparr> \<Longrightarrow>
         sm_find (users w5) i = Some v \<Longrightarrow>
         \<exists>w6. runShellLoop fd (srv s) = Inr (True, w6) \<and> users w6 = sm_put i (v\<lparr>shell := h\<rparr>) (users w5) \<and>
           sockID_table w6 = sockID_table w5 \<and> trace w6 = trace w5 @ [Send fd ''% '']"
  obtain w5 st where w5: "parse_loop No_SHM i \<lparr>iss = istringstream line, queue = [], cur = NpCommandLine, argv = [], sh = h, wd = w4\<rparr> =
          Inr \<lparr>iss = st, queue = [], cur = NpCommandLine, argv = [], sh = h, wd = w5\<rparr>"
      "users w5 = users w4" "trace w5 = trace w4 @ es"
    using op [OF w4] by blast
  obtain v where v: "sm_find (users (srv s)) i = Some v" using typed by (auto simp: typed_def)
  then obtain w6 where w6: "runShellLoop fd (srv s) = Inr (True, w6)" "users w6 = sm_put i (v\<lparr>shell := h\<rparr>) (users w5)"
      "trace w6 = trace w5 @ [Send fd ''% '']"
    using turn [OF w5(1)] by (auto simp: w5(2) w4(1))
  have "badge (v\<lparr>shell := h\<rparr>) = badge v" by (simp add: badge_def)
  then have "room (users w6) = room (users (srv s))"
    using v by (auto simp: w6(2) w5(2) w4(1) room_def fun_eq_iff)
  then show ?thesis by (simp add: serve_input_def w6(1,3) w5(3) w4(2) single_room_def)
qed

text \<open>C22. When a client types \<open>yell\<close> and a message, everybody in the room, the client included, is sent the
  message once, in the order of their numbers; then the client gets its next prompt.  Nobody's place or
  name changes.\<close>

theorem typed_yell:
  assumes "typed fd i (''yell '' @ msg) (srv s)" and "message msg" and "sm_find (users (srv s)) i = Some u"
  shows "\<exists>s'. serve_input fd s = Inr s' \<and> single_room s' = single_room s \<and>
     trace (srv s') = trace (srv s) @
       map (\<lambda>e. Send (sock (snd e)) (YELL_MSG (name u) msg)) (users (srv s)) @ [Send fd ''% '']"
proof -
  have "\<exists>w5 st. parse_loop No_SHM i \<lparr>iss = istringstream (''yell '' @ msg), queue = [], cur = NpCommandLine, argv = [], sh = h, wd = w4\<rparr> =
          Inr \<lparr>iss = st, queue = [], cur = NpCommandLine, argv = [], sh = h, wd = w5\<rparr> \<and>
        users w5 = users w4 \<and> trace w5 = trace w4 @ map (\<lambda>e. Send (sock (snd e)) (YELL_MSG (name u) msg)) (users (srv s))"
    if w4: "users w4 = users (srv s)" for w4 h
  proof -
    obtain w' where w': "Yell No_SHM i msg w4 = Inr w'" "users w' = users w4"
        "trace w' = trace w4 @ map (\<lambda>e. Send (sock (snd e)) (YELL_MSG (name u) msg)) (users w4)"
      using Yell_world [of w4 i u msg] assms(3) w4 by auto
    let ?st = "\<lparr>iss = istringstream (''yell '' @ msg), queue = [], cur = NpCommandLine, argv = [], sh = h, wd = w4\<rparr>"
    have "parse_loop No_SHM i ?st = Inr (?st\<lparr>iss := at_end, wd := w'\<rparr>)"
      by (rule parse_yell_line [OF assms(2)]) (simp_all add: w'(1))
    then show ?thesis using w'(2,3) w4 by (intro exI [of _ w'] exI [of _ at_end]) simp
  qed
  from serve_typed [OF assms(1) this] show ?thesis by auto
qed

text \<open>The client of \<open>ann\<close>, who is user 1 on descriptor 4, has typed a line.\<close>

definition ann_typed :: "string \<Rightarrow> server_loop" where
  "ann_typed line =
     \<lparr>srv = two_users\<lparr>kern := (sample_kernel 64)\<lparr>fds := sample_table(4 \<mapsto> (Socket 9, False))\<rparr>,
                      incoming := (\<lambda>_. [line @ [newline]])\<rparr>,
      serverSock = 3, masterSocks = {3, 4, 5}, maxSocks = 5\<rparr>"

lemma ann_typed: "newline \<notin> set line \<Longrightarrow> typed 4 1 line (srv (ann_typed line))"
  by (auto simp: typed_def serving_def live_def ann_typed_def sample_user_def UserInfo_def CmdHandler_def)

lemma ann_typed_sel:
  "trace (srv (ann_typed line)) = []" "users (srv (ann_typed line)) = sample_users"
  by (simp_all add: ann_typed_def)

lemma hey: "message ''hey''" "newline \<notin> set ''yell hey''" "newline \<notin> set ''tell 2 hey''" "newline \<notin> set ''who''"
  by code_simp+

theorem typed_yell_witness:
  "\<exists>s'. serve_input 4 (ann_typed ''yell hey'') = Inr s' \<and>
     trace (srv s') = [Send 4 (YELL_MSG ''ann'' ''hey''), Send 5 (YELL_MSG ''ann'' ''hey''), Send 4 ''% '']"
proof -
  have "typed 4 1 (''yell '' @ ''hey'') (srv (ann_typed ''yell hey''))" using ann_typed [OF hey(2)] by simp
  from typed_yell [OF this hey(1), of "sample_user 4 ''ann''"] show ?thesis
    by (auto simp: ann_typed_sel sample_users_def)
qed

text \<open>C23. When a client types \<open>tell\<close>, a number and a message, the message goes to that user alone, if there is
  one, and otherwise the client reads on its own socket that there is none; then the client gets its next
  prompt.  Nobody's place or name changes.\<close>

theorem typed_tell:
  assumes "typed fd i (''tell '' @ nat_text k @ '' '' @ msg) (srv s)" and "message msg" and "int k \<le> int_max"
    and "sm_find (users (srv s)) i = Some u"
  shows "\<exists>s'. serve_input fd s = Inr s' \<and> single_room s' = single_room s \<and>
     trace (srv s') = trace (srv s) @
       [case sm_find (users (srv s)) (int k) of
          None \<Rightarrow> Cout (socket_of fd (srv s)) (no_user_msg (int k))
        | Some v \<Rightarrow> Send (sock v) (TELL_MSG (name u) msg),
        Send fd ''% '']"
proof -
  let ?line = "''tell '' @ nat_text k @ '' '' @ msg"
  let ?e = "case sm_find (users (srv s)) (int k) of None \<Rightarrow> Cout (socket_of fd (srv s)) (no_user_msg (int k))
        | Some v \<Rightarrow> Send (sock v) (TELL_MSG (name u) msg)"
  have "\<exists>w5 st. parse_loop No_SHM i \<lparr>iss = istringstream ?line, queue = [], cur = NpCommandLine, argv = [], sh = h, wd = w4\<rparr> =
          Inr \<lparr>iss = st, queue = [], cur = NpCommandLine, argv = [], sh = h, wd = w5\<rparr> \<and>
        users w5 = users w4 \<and> trace w5 = trace w4 @ [?e]"
    if w4: "users w4 = users (srv s)" "obj_at (kern w4) 1 = socket_of fd (srv s)" for w4 h
  proof -
    obtain w' where w': "Tell No_SHM i (int k) msg w4 = Inr w'" "users w' = users w4" "trace w' = trace w4 @ [?e]"
      using Tell_world [of w4 i u "int k" msg] assms(4) unfolding w4 by blast
    let ?st = "\<lparr>iss = istringstream ?line, queue = [], cur = NpCommandLine, argv = [], sh = h, wd = w4\<rparr>"
    have "parse_loop No_SHM i ?st = Inr (?st\<lparr>iss := at_end, wd := w'\<rparr>)"
      by (rule parse_tell_line [OF assms(2,3)]) (simp_all add: w'(1))
    then show ?thesis using w'(2,3) by (intro exI [of _ w'] exI [of _ at_end]) simp
  qed
  from serve_typed [OF assms(1) this] show ?thesis by auto
qed

theorem typed_tell_witness:
  "\<exists>s'. serve_input 4 (ann_typed ''tell 2 hey'') = Inr s' \<and>
     trace (srv s') = [Send 5 (TELL_MSG ''ann'' ''hey''), Send 4 ''% '']"
proof -
  have two: "nat_text 2 = ''2''" by code_simp
  have "typed 4 1 (''tell '' @ nat_text 2 @ '' '' @ ''hey'') (srv (ann_typed ''tell 2 hey''))"
    using ann_typed [OF hey(3)] by (simp add: two)
  from typed_tell [OF this hey(1), of "sample_user 4 ''ann''"] show ?thesis
    by (auto simp: ann_typed_sel int_max_def)
qed

text \<open>C25. When a client types \<open>who\<close>, it reads on its own socket one line for everybody in the room, in the
  order of their numbers, its own marked, and then its next prompt.\<close>

theorem typed_who:
  assumes "typed fd i ''who'' (srv s)"
  shows "\<exists>s'. serve_input fd s = Inr s' \<and> single_room s' = single_room s \<and>
     trace (srv s') = trace (srv s) @
       map (Cout (socket_of fd (srv s))) (who_header # map (\<lambda>(j, v). who_line i j v) (users (srv s))) @ [Send fd ''% '']"
proof -
  let ?es = "map (Cout (socket_of fd (srv s))) (who_header # map (\<lambda>(j, v). who_line i j v) (users (srv s)))"
  have "\<exists>w5 st. parse_loop No_SHM i \<lparr>iss = istringstream ''who'', queue = [], cur = NpCommandLine, argv = [], sh = h, wd = w4\<rparr> =
          Inr \<lparr>iss = st, queue = [], cur = NpCommandLine, argv = [], sh = h, wd = w5\<rparr> \<and>
        users w5 = users w4 \<and> trace w5 = trace w4 @ ?es"
    if w4: "users w4 = users (srv s)" "obj_at (kern w4) 1 = socket_of fd (srv s)" for w4 h
  proof -
    obtain w' where w': "Who No_SHM i w4 = Inr w'" "users w' = users w4" "trace w' = trace w4 @ ?es"
      using Who_world [of i w4] w4 by auto
    let ?st = "\<lparr>iss = istringstream ''who'', queue = [], cur = NpCommandLine, argv = [], sh = h, wd = w4\<rparr>"
    have "parse_loop No_SHM i ?st = Inr (?st\<lparr>iss := at_end, wd := w'\<rparr>)"
      by (rule parse_who_line) (simp_all add: w'(1))
    then show ?thesis using w'(2,3) by (intro exI [of _ w'] exI [of _ at_end]) simp
  qed
  from serve_typed [OF assms this] show ?thesis by auto
qed

theorem typed_who_witness:
  "\<exists>s'. serve_input 4 (ann_typed ''who'') = Inr s' \<and>
     trace (srv s') = map (Cout (Some (Socket 9)))
       [who_header, who_line 1 1 (sample_user 4 ''ann''), who_line 1 2 (sample_user 5 ''bob'')] @ [Send 4 ''% '']"
proof -
  have "socket_of 4 (srv (ann_typed ''who'')) = Some (Socket 9)" by (simp add: socket_of_def ann_typed_def)
  then show ?thesis
    using typed_who [OF ann_typed [OF hey(4)]] by (auto simp: ann_typed_sel sample_users_def)
qed

end
