(* ===== verification/Line_Turn.thy ===== *)
theory Line_Turn
  imports Turn_Facts Line_Facts
begin

text \<open>
  A whole turn of \<open>runShellLoop\<close> for the text of one command line: the descriptors the line runs with, and
  the server's own descriptors before and after it.
\<close>

subsection \<open>The server's own descriptors\<close>

text \<open>Between turns the standard descriptors are those that \<open>serverIn\<close>, \<open>serverOut\<close> and \<open>serverErr\<close>
  were copied from.\<close>

definition own_standard :: "world \<Rightarrow> bool" where
  "own_standard w \<longleftrightarrow> (\<forall>i < 0. fds (kern w) i = None) \<and>
     (\<forall>(j, s) \<in> {(0, serverIn w), (1, serverOut w), (2, serverErr w)}.
        3 \<le> s \<and> (\<exists>ob c. fds (kern w) j = Some (ob, False) \<and> fds (kern w) s = Some (ob, c)))"

text \<open>The table while a client is served, and the table when its turn is over.\<close>

definition redirected :: "fobj \<Rightarrow> (int \<Rightarrow> (fobj \<times> bool) option) \<Rightarrow> int \<Rightarrow> (fobj \<times> bool) option" where
  "redirected sk T = T(0 \<mapsto> (sk, False), 1 \<mapsto> (sk, False), 2 \<mapsto> (sk, False))"

lemma redirected_table:
  assumes "fds k fd = Some (sk, c)" "3 \<le> fd" "3 \<le> nofile k"
  shows "fds (k_dup2 fd 2 (k_dup2 fd 1 (k_dup2 fd 0 k))) = redirected sk (fds k)"
  using assms by (auto simp: fds_dup2 frame_simps redirected_def fun_eq_iff)

lemma redirected_base: "own_standard w \<Longrightarrow> base_ok (redirected sk (fds (kern w)))"
  by (auto simp: own_standard_def base_ok_def redirected_def)

lemma redirected_room: "own_standard w \<Longrightarrow> room_in n (redirected sk (fds (kern w))) = room_in n (fds (kern w))"
  by (auto simp: own_standard_def room_in_def redirected_def)

lemma redirected_fresh:
  assumes "own_standard w"
  shows "fresh_in (redirected sk (fds (kern w))) y \<longleftrightarrow> fresh_in (fds (kern w)) y"
  using assms by (cases y) (auto simp: own_standard_def redirected_def split: if_splits)

lemma kept_redirected: "kept (redirected sk T) = (kept T)(0 \<mapsto> sk, 1 \<mapsto> sk, 2 \<mapsto> sk)"
  by (auto simp: kept_def redirected_def fun_eq_iff)

lemma restored:
  assumes own: "own_standard w" and n: "3 \<le> nofile k"
    and same: "\<And>s. s \<in> {serverIn w, serverOut w, serverErr w} \<Longrightarrow> fds k s = fds (kern w) s"
  shows "fds (k_dup2 (serverErr w) 2 (k_dup2 (serverOut w) 1 (k_dup2 (serverIn w) 0 k))) =
     (fds k)(0 := fds (kern w) 0, 1 := fds (kern w) 1, 2 := fds (kern w) 2)"
proof -
  obtain a ca b cb d cd where t: "3 \<le> serverIn w" "fds (kern w) 0 = Some (a, False)" "fds (kern w) (serverIn w) = Some (a, ca)"
      "3 \<le> serverOut w" "fds (kern w) 1 = Some (b, False)" "fds (kern w) (serverOut w) = Some (b, cb)"
      "3 \<le> serverErr w" "fds (kern w) 2 = Some (d, False)" "fds (kern w) (serverErr w) = Some (d, cd)"
    using own unfolding own_standard_def by auto
  then show ?thesis
    using n same unfolding fds_dup2 frame_simps by (auto simp: fun_eq_iff)
qed

lemma restored_table:
  assumes own: "own_standard w" and n: "3 \<le> nofile k" and y: "fresh_in (fds (kern w)) y"
    and k: "fds k = with_pipe (redirected sk (fds (kern w))) y"
  shows "fds (k_dup2 (serverErr w) 2 (k_dup2 (serverOut w) 1 (k_dup2 (serverIn w) 0 k))) = with_pipe (fds (kern w)) y"
proof -
  have "fds k s = fds (kern w) s" if "s \<in> {serverIn w, serverOut w, serverErr w}" for s
    using that own y by (cases y) (auto simp: k own_standard_def redirected_def)
  from restored [OF own n this] show ?thesis
    using own y by (cases y) (auto simp: k own_standard_def redirected_def fun_eq_iff)
qed

subsection \<open>A turn for one line\<close>

text \<open>A shell with no numbered pipe on its way.\<close>

definition nothing_pending :: "cmd_handler \<Rightarrow> bool" where
  "nothing_pending h \<longleftrightarrow> prevPipe h = Pipe \<and> (\<forall>m. ring_get (size_t m) (numberPipeList h) = Pipe)"

text \<open>The turn of the user \<open>u\<close> that starts in \<open>w\<close> and whose shell ends as \<open>h'\<close> in \<open>w'\<close> is over in \<open>w''\<close>.\<close>

definition turn_done :: "int \<Rightarrow> int \<Rightarrow> user_info \<Rightarrow> world \<Rightarrow> cmd_handler \<Rightarrow> world \<Rightarrow> world \<Rightarrow> bool" where
  "turn_done fd i u w h' w' w'' \<longleftrightarrow>
     runShellLoop fd w = Inr (True, w'') \<and> users w'' = sm_put i (u\<lparr>shell := h'\<rparr>) (users w) \<and>
     sockID_table w'' = sockID_table w \<and> trace w'' = trace w' @ [Send fd ''% ''] \<and>
     serverIn w'' = serverIn w \<and> serverOut w'' = serverOut w \<and> serverErr w'' = serverErr w \<and>
     cin_good w'' \<and> stdin_buf w'' = [] \<and>
     nofile (kern w'') = nofile (kern w) \<and> executable (kern w'') = executable (kern w) \<and>
     next_pipe (kern w'') = next_pipe (kern w') \<and> running h' \<and>
     fds (kern w'') = fds (k_dup2 (serverErr w) 2 (k_dup2 (serverOut w) 1 (k_dup2 (serverIn w) 0 (kern w'))))"

lemma line_turn:
  assumes typed: "typed fd i (spaced (commands_text cs)) w" and u: "sm_find (users w) i = Some u"
    and own: "own_standard w" and cs: "cs \<noteq> []" "wf_commands cs" "\<forall>c \<in> set cs. printable c"
  obtains sk c w4 where "fds (kern w) fd = Some (sk, c)" and "fds (kern w4) = redirected sk (fds (kern w))"
    and "next_pipe (kern w4) = next_pipe (kern w)" and "nofile (kern w4) = nofile (kern w)"
    and "can_run (kern w4) = can_run (kern w)" and "trace w4 = trace w"
    and "\<And>h' w' e. run_line No_SHM i (spaced (commands_text cs)) (plain_line cs) ((shell u)\<lparr>shell_fd := fd\<rparr>) w4 = Inr (h', w') \<Longrightarrow>
       shell_frame ((shell u)\<lparr>shell_fd := fd, eol := e\<rparr>) w4 h' w' \<Longrightarrow>
       \<exists>w''. turn_done fd i u w h' w' w''"
proof -
  obtain m c where sk: "fds (kern w) fd = Some (Socket m, c)" "3 \<le> fd" "3 \<le> nofile (kern w)"
      and s: "serving fd i w" and run: "running (shell u)"
    using typed u unfolding typed_def by auto
  obtain w3 w4 where loop: "runShellLoop fd w = rbind (runShell No_SHM fd (shell u) w3) (\<lambda>(h, w4). turn_end fd i h w4)"
    and get: "getline_cin w3 = Inr (spaced (commands_text cs), w4)"
    and f3: "users w3 = users w" "sockID_table w3 = sockID_table w" "trace w3 = trace w"
      "kern w3 = k_dup2 fd 2 (k_dup2 fd 1 (k_dup2 fd 0 (kern w)))"
      "serverIn w3 = serverIn w" "serverOut w3 = serverOut w" "serverErr w3 = serverErr w"
    and f4: "cin_good w4" "stdin_buf w4 = []"
    by (rule turn_start [OF typed u])
  note g = getline_cin_frame [OF get]
  have s3: "serving fd i w3" using s by (simp add: serving_def live_def f3)
  have reg: "registered fd w3" using s by (simp add: registered_def f3 serving_def)
  have "\<exists>w''. turn_done fd i u w h' w' w''"
    if r: "run_line No_SHM i (spaced (commands_text cs)) (plain_line cs) ((shell u)\<lparr>shell_fd := fd\<rparr>) w4 = Inr (h', w')"
      "shell_frame ((shell u)\<lparr>shell_fd := fd, eol := e\<rparr>) w4 h' w'" for h' w' e
  proof -
    have f': "users w' = users w" "running h'" "sockID_table w' = sockID_table w" "serverIn w' = serverIn w"
        "serverOut w' = serverOut w" "serverErr w' = serverErr w" "nofile (kern w') = nofile (kern w)"
        "executable (kern w') = executable (kern w)" "cin_good w'" "stdin_buf w' = []"
      using r(2) run by (simp_all add: shell_frame_def f3 f4 g frame_simps)
    have "runShell No_SHM fd (shell u) w3 = Inr (h', w')"
      using runShell_printed [OF serving_id [OF s3] reg get cs r(1)] sk(2) by simp
    then show ?thesis
      using turn_end_prompt [of w' i u h' fd] u by (auto simp: loop f' frame_simps turn_done_def)
  qed
  moreover have "fds (kern w4) = redirected (Socket m) (fds (kern w))"
    using redirected_table [OF sk] by (simp add: g f3)
  moreover have "next_pipe (kern w4) = next_pipe (kern w)" "nofile (kern w4) = nofile (kern w)"
      "can_run (kern w4) = can_run (kern w)" "trace w4 = trace w"
    by (simp_all add: g f3 frame_simps can_run_def fun_eq_iff)
  ultimately show ?thesis using sk(1) by (intro that [of "Socket m" c w4])
qed

end
