(* ===== verification/Pipeline_Properties.thy ===== *)
theory Pipeline_Properties
  imports Turn_Properties Shell_Properties Line_Turn
begin

text \<open>
  What \<open>np_single_proc\<close> does when a client has typed a pipeline: the whole handler, from the bytes on the
  socket to the programs and what they are connected to, the server's own descriptors and the next prompt.
\<close>

subsection \<open>Serving a typed pipeline\<close>

text \<open>C9. When a client types a pipeline, each program runs with the server's table, all sockets of the other
  clients included, in which the standard input is the read end of the pipe after the program before it and
  the standard output the write end of the pipe before the program after it; the first program reads the
  client's socket, the last one writes to it and all report their errors to it.  Then the client gets its
  prompt, the server has its own standard descriptors back, nobody's place or name has changed, and the only
  descriptors the turn has left open are the two ends of \<open>eol\<close>.\<close>

theorem typed_pipeline:
  assumes "typed fd i (spaced (commands_text (pipeline as))) (srv s)"
    and "sm_find (users (srv s)) i = Some u" and "nothing_pending (shell u)" and "own_standard (srv s)"
    and "as \<noteq> []" and "\<forall>a \<in> set as. a \<noteq> [] \<and> (\<forall>t \<in> set a. plain t) \<and> can_run (kern (srv s)) a"
    and "6 \<le> card (room_of (kern (srv s)))"
  shows "\<exists>s' sk (e :: pipe). serve_input fd s = Inr s' \<and> single_room s' = single_room s \<and>
     socket_of fd (srv s) = Some sk \<and>
     spawned (trace (srv s')) = spawned (trace (srv s)) @
       plumbing ((exec_table (kern (srv s)))(0 \<mapsto> sk, 1 \<mapsto> sk, 2 \<mapsto> sk)) (Suc (next_pipe (kern (srv s)))) (Some sk) as \<and>
     last (trace (srv s')) = Send fd ''% '' \<and>
     fds (kern (srv s)) (fd_in e) = None \<and> fds (kern (srv s)) (fd_out e) = None \<and> fd_in e \<noteq> fd_out e \<and>
     fds (kern (srv s')) = (fds (kern (srv s)))
       (fd_in e \<mapsto> (PipeR (next_pipe (kern (srv s))), True), fd_out e \<mapsto> (PipeW (next_pipe (kern (srv s))), True))"
proof -
  let ?w = "srv s" and ?n = "next_pipe (kern (srv s))" and ?line = "spaced (commands_text (pipeline as))"
  let ?h = "(shell u)\<lparr>shell_fd := fd\<rparr>"
  have cs: "pipeline as \<noteq> []" "wf_commands (pipeline as)" "\<forall>c \<in> set (pipeline as). printable c"
    using pipeline_shape [of as] pipeline_last [OF assms(5)] assms(6) by auto
  show ?thesis
  proof (rule line_turn [OF assms(1,2,4) cs])
    fix sk c w4
    assume sk: "fds (kern ?w) fd = Some (sk, c)" and B: "fds (kern w4) = redirected sk (fds (kern ?w))"
      and k4: "next_pipe (kern w4) = ?n" "nofile (kern w4) = nofile (kern ?w)"
        "can_run (kern w4) = can_run (kern ?w)" "trace w4 = trace ?w"
      and turn: "\<And>h' w' e. run_line No_SHM i ?line (plain_line (pipeline as)) ?h w4 = Inr (h', w') \<Longrightarrow>
         shell_frame ((shell u)\<lparr>shell_fd := fd, eol := e\<rparr>) w4 h' w' \<Longrightarrow>
         \<exists>w''. turn_done fd i u ?w h' w' w''"
    let ?B = "redirected sk (fds (kern ?w))"
    have n3: "3 \<le> nofile (kern ?w)" using assms(1) by (simp add: typed_def)
    have h: "prevPipe ?h = Pipe" "ring_front (ring_next (numberPipeList ?h)) = pipe_of None"
      using assms(3) by (simp_all add: nothing_pending_def ring_front_next)
    have "6 \<le> card (room_in (nofile (kern w4)) ?B)"
      using assms(7) redirected_room [OF assms(4)] by (simp add: room_of_in k4)
    then obtain h' w' e where r:
       "run_line No_SHM i ?line (plain_line (pipeline as)) ?h w4 = Inr (h', w')"
       "fds (kern w') = with_pipe ?B (Some (e, ?n))" "fresh_in ?B (Some (e, ?n))"
       "shell_frame (?h\<lparr>eol := e\<rparr>) w4 h' w'"
       "spawned (trace w') = spawned (trace ?w) @ plumbing (kept ?B) (Suc ?n) (kept ?B 0) as"
      using run_line_pipeline [of ?B None w4 ?h as No_SHM i ?line] redirected_base [OF assms(4)] assms(5,6) B n3 h
      by (simp add: k4 del: fresh_in.simps(2) with_pipe.simps(2)) blast
    obtain w'' where w'': "runShellLoop fd ?w = Inr (True, w'')" "users w'' = sm_put i (u\<lparr>shell := h'\<rparr>) (users ?w)"
        "trace w'' = trace w' @ [Send fd ''% '']"
        "fds (kern w'') = fds (k_dup2 (serverErr ?w) 2 (k_dup2 (serverOut ?w) 1 (k_dup2 (serverIn ?w) 0 (kern w'))))"
      using turn [OF r(1), of e] r(4) by (auto simp: turn_done_def)
    have fresh: "fresh_in (fds (kern ?w)) (Some (e, ?n))" using r(3) redirected_fresh [OF assms(4)] by blast
    have "badge (u\<lparr>shell := h'\<rparr>) = badge u" by (simp add: badge_def)
    then have "room (users w'') = room (users ?w)"
      using assms(2) by (auto simp: w''(2) room_def fun_eq_iff)
    moreover have "fds (kern w'') = with_pipe (fds (kern ?w)) (Some (e, ?n))"
      unfolding w''(4) using r(4) n3 by (intro restored_table [OF assms(4) _ fresh r(2)]) (simp add: shell_frame_def k4)
    ultimately show ?thesis
      using w''(1,3) r(5) fresh sk
      by (intro exI [of _ "s\<lparr>srv := w''\<rparr>"] exI [of _ sk] exI [of _ e])
        (simp add: serve_input_def single_room_def socket_of_def kept_redirected exec_table_kept)
  qed
qed

text \<open>The client of \<open>ann\<close> on descriptor 4, with the server's copies of its standard descriptors on 7 to 9.\<close>

definition piping :: "server_loop" where
  "piping =
     \<lparr>srv = two_users\<lparr>kern := (sample_kernel 64)\<lparr>fds := sample_table(4 \<mapsto> (Socket 9, False), 5 \<mapsto> (Socket 10, False),
                        7 \<mapsto> (Terminal 0, True), 8 \<mapsto> (Terminal 0, True), 9 \<mapsto> (Terminal 0, True))\<rparr>,
                      serverIn := 7, serverOut := 8, serverErr := 9,
                      incoming := (\<lambda>_. ['' ls | cat'' @ [newline]])\<rparr>,
      serverSock = 3, masterSocks = {3, 4, 5}, maxSocks = 5\<rparr>"

theorem typed_pipeline_witness:
  "\<exists>s'. serve_input 4 piping = Inr s' \<and>
     map fst (spawned (trace (srv s'))) = [[''ls''], [''cat'']] \<and>
     map (\<lambda>(_, T). (T 0, T 1, T 5)) (spawned (trace (srv s'))) =
       [(Some (Socket 9), Some (PipeW 1), Some (Socket 10)), (Some (PipeR 1), Some (Socket 9), Some (Socket 10))]"
proof -
  have shown: "spaced (commands_text (pipeline [[''ls''], [''cat'']])) = '' ls | cat''" by code_simp
  have words: "plain ''ls''" "plain ''cat''" "newline \<notin> set '' ls | cat''" by code_simp+
  have typed: "typed 4 1 (spaced (commands_text (pipeline [[''ls''], [''cat'']]))) (srv piping)"
    using words(3) unfolding shown
    by (auto simp: typed_def serving_def live_def piping_def sample_user_def UserInfo_def CmdHandler_def)
  have user: "sm_find (users (srv piping)) 1 = Some (sample_user 4 ''ann'')"
    by (simp add: piping_def sample_users_def)
  have idle: "nothing_pending (shell (sample_user 4 ''ann''))"
    by (simp add: nothing_pending_def sample_user_def UserInfo_def CmdHandler_def ring_get_def ring_new_def)
  have own: "own_standard (srv piping)"
    by (auto simp: own_standard_def piping_def sample_table_def)
  have "{10..<16} \<subseteq> room_of (kern (srv piping))" by (auto simp: room_of_def piping_def sample_table_def)
  then have "card {10..<16::int} \<le> card (room_of (kern (srv piping)))" by (rule card_mono [rotated]) (simp add: room_of_in)
  then have room: "6 \<le> card (room_of (kern (srv piping)))" by simp
  have sel: "trace (srv piping) = []" "fds (kern (srv piping)) 4 = Some (Socket 9, False)"
      "exec_table (kern (srv piping)) 5 = Some (Socket 10)" "next_pipe (kern (srv piping)) = 0"
      "\<And>a. can_run (kern (srv piping)) a \<longleftrightarrow> can_run (sample_kernel 64) a"
    by (simp_all add: piping_def exec_table_def can_run_def)
  show ?thesis
    using typed_pipeline [OF typed user idle own _ _ room] words(1,2)
    by (auto simp: sel socket_of_def sample_can_run)
qed

end
