(* ===== verification/Client_Lines.thy ===== *)
theory Client_Lines
  imports Numbered_Facts
begin

text \<open>
  The specification of a client's shell, and the simulation of one command line: a shell is what it owes,
  the pipes that its next lines have to read, and a line takes the pipe that is due, leaves one for a
  later line if it ends in a numbered pipe, and runs its programs with the plumbing this prescribes.
\<close>

subsection \<open>The specification\<close>

text \<open>A line is a pipeline that may end in \<open>|N\<close>, or \<open>!N\<close> with the flag set.\<close>

datatype line_end = Ends | Into nat bool

type_synonym typed_line = "string list list \<times> line_end"

fun line_commands :: "typed_line \<Rightarrow> command list" where
  "line_commands (as, Ends) = pipeline as"
| "line_commands (as, Into k e) = pipeline as @ [NumberedPipeCommand (int k) e]"

definition line_text :: "typed_line \<Rightarrow> string" where
  "line_text l = spaced (commands_text (line_commands l))"

text \<open>What a shell owes: the pipe the line \<open>m\<close> lines from now will read.\<close>

type_synonym due = "nat \<Rightarrow> nat option"

definition next_line :: "due \<Rightarrow> due" where
  "next_line D = (\<lambda>m. if m = 0 then None else D (Suc m))"

definition source :: "(int \<Rightarrow> fobj option) \<Rightarrow> due \<Rightarrow> fobj option" where
  "source T D = (case D 1 of None \<Rightarrow> T 0 | Some q \<Rightarrow> Some (PipeR q))"

type_synonym launched = "(string list \<times> (int \<Rightarrow> fobj option)) list"

text \<open>
  The programs a line runs, what the shell owes afterwards, and the number of the next pipe; \<open>T\<close> is the
  table its programs start from and \<open>n\<close> the number of the next pipe, which the line itself uses up.
\<close>

fun spec_line :: "(int \<Rightarrow> fobj option) \<Rightarrow> due \<Rightarrow> nat \<Rightarrow> typed_line \<Rightarrow> launched \<times> due \<times> nat" where
  "spec_line T D n (as, Ends) = (plumbing T (Suc n) (source T D) as, next_line D, n + length as)"
| "spec_line T D n (as, Into k e) =
     (case next_line D k of
        None \<Rightarrow> (plumbing_to T (Suc n) (source T D) (n + length as) e as,
                 (next_line D)(k \<mapsto> n + length as), n + length as + 1)
      | Some q \<Rightarrow> (plumbing_to T (Suc n) (source T D) q e as, next_line D, n + length as))"

subsection \<open>The pipes of a ring\<close>

type_synonym table = "int \<Rightarrow> (fobj \<times> bool) option"

definition holds :: "table \<Rightarrow> pipe \<Rightarrow> nat \<Rightarrow> bool" where
  "holds T p q \<longleftrightarrow> 0 \<le> fd_in p \<and> 0 \<le> fd_out p \<and>
     T (fd_in p) = Some (PipeR q, True) \<and> T (fd_out p) = Some (PipeW q, True)"

text \<open>The next \<open>H\<close> cells hold the pipes the shell owes and nothing else.\<close>

definition ring_due :: "table \<Rightarrow> due \<Rightarrow> nat \<Rightarrow> pipe ring \<Rightarrow> bool" where
  "ring_due T D H b \<longleftrightarrow> (\<forall>m. 1 \<le> m \<longrightarrow> m \<le> H \<longrightarrow>
     (case D m of None \<Rightarrow> ring_get (size_t (int m)) b = Pipe
      | Some q \<Rightarrow> holds T (ring_get (size_t (int m)) b) q))"

text \<open>Everything owed is due within \<open>M\<close> lines, and every pipe is due once.\<close>

definition due_ok :: "due \<Rightarrow> nat \<Rightarrow> bool" where
  "due_ok D M \<longleftrightarrow> (\<forall>m q. D m = Some q \<longrightarrow> 1 \<le> m \<and> m \<le> M) \<and> (\<forall>m m' q. D m = Some q \<longrightarrow> D m' = Some q \<longrightarrow> m = m')"

fun without :: "table \<Rightarrow> held \<Rightarrow> table" where
  "without T None = T"
| "without T (Some (p, q)) = T(fd_in p := None, fd_out p := None)"

fun holds_opt :: "table \<Rightarrow> held \<Rightarrow> bool" where
  "holds_opt T None \<longleftrightarrow> True"
| "holds_opt T (Some (p, q)) \<longleftrightarrow> holds T p q"

lemma take_out:
  assumes "holds_opt T y"
  shows "with_pipe (without T y) y = T" and "fresh_in (without T y) y"
  using assms by (cases y; auto simp: holds_def fun_eq_iff)+

lemma holds_without: "holds T p q \<Longrightarrow> holds_opt T y \<Longrightarrow> (\<And>p'. y \<noteq> Some (p', q)) \<Longrightarrow> holds (without T y) p q"
  by (cases y) (auto simp: holds_def)

lemma holds_with_pipe: "holds T p q \<Longrightarrow> fresh_in T x \<Longrightarrow> holds (with_pipe T x) p q"
  by (cases x) (auto simp: holds_def)

lemma holds_new: "fresh_in T (Some (p, q)) \<Longrightarrow> holds (with_pipe T (Some (p, q))) p q"
  by (auto simp: holds_def)

lemma base_ok_without: "base_ok T \<Longrightarrow> holds_opt T y \<Longrightarrow> base_ok (without T y)"
  by (cases y) (force simp: base_ok_def holds_def)+

lemma kept_without: "holds_opt T y \<Longrightarrow> kept (without T y) = kept T"
  by (cases y) (auto simp: kept_def holds_def fun_eq_iff)

lemma room_without: "card (room_in n T) \<le> card (room_in n (without T y))"
proof (rule card_mono)
  show "room_in n T \<subseteq> room_in n (without T y)"
    by (cases y) (auto simp: room_in_def)
qed simp

lemma without_swap:
  assumes "holds_opt T y" "holds_opt T z" "\<forall>p p' q. y = Some (p, q) \<longrightarrow> z \<noteq> Some (p', q)"
  shows "holds_opt (without T y) z" "fresh_in (with_pipe (without (without T y) z) z) y"
    and "with_pipe (without (without T y) z) z = without T y"
proof -
  show z: "holds_opt (without T y) z"
  proof (cases z)
    case (Some pq)
    then obtain p q where z: "z = Some (p, q)" by force
    have "y \<noteq> Some (p', q)" for p' using assms(3) z by blast
    then show ?thesis using holds_without [of T p q y] assms(1,2) z by simp
  qed simp
  show eq: "with_pipe (without (without T y) z) z = without T y" by (rule take_out(1) [OF z])
  show "fresh_in (with_pipe (without (without T y) z) z) y" unfolding eq by (rule take_out(2) [OF assms(1)])
qed

text \<open>
  What a line does to the table: the pipe that was due may be gone and one pipe may be new; everything
  else stays as it is.
\<close>

definition evolves :: "table \<Rightarrow> nat option \<Rightarrow> table \<Rightarrow> bool" where
  "evolves T y T' \<longleftrightarrow>
     (\<forall>j ob c. T j = Some (ob, c) \<longrightarrow> (\<forall>q. y = Some q \<longrightarrow> ob \<noteq> PipeR q \<and> ob \<noteq> PipeW q) \<longrightarrow> T' j = Some (ob, c)) \<and>
     kept T' = kept T \<and> (\<forall>n. card (room_in n T) \<le> card (room_in n T') + 2) \<and> (\<forall>j < 0. T j = None \<longrightarrow> T' j = None)"

lemma evolves_step:
  assumes y: "holds_opt T y" and x: "fresh_in (without T y) x"
  shows "evolves T (map_option snd y) (with_pipe (without T y) x)"
proof -
  have "without T y j = Some (ob, c)"
    if "T j = Some (ob, c)" "\<forall>q. map_option snd y = Some q \<longrightarrow> ob \<noteq> PipeR q \<and> ob \<noteq> PipeW q" for j ob c
    using that y by (cases y) (auto simp: holds_def)
  moreover have "with_pipe (without T y) x j = Some z" if "without T y j = Some z" for j z
    using that x by (cases x) auto
  moreover have "kept (with_pipe (without T y) x) = kept T"
    using kept_with_pipe [OF x] kept_without [OF y] by simp
  moreover have "card (room_in n T) \<le> card (room_in n (with_pipe (without T y) x)) + 2" for n
    using room_without [of n T y] card_room_with_pipe [of n "without T y" x] by linarith
  moreover have "with_pipe (without T y) x j = None" if "j < 0" "T j = None" for j
    using that x by (cases x; cases y) auto
  ultimately show ?thesis unfolding evolves_def by blast
qed

lemma evolves_holds: "evolves T y T' \<Longrightarrow> holds T p q \<Longrightarrow> y \<noteq> Some q \<Longrightarrow> holds T' p q"
  by (auto simp: evolves_def holds_def)

subsection \<open>One line\<close>

lemma ring_due_next:
  assumes "ring_due T D H b" and "due_ok D M" and "evolves T (D 1) T'"
  shows "ring_due T' (next_line D) (H - 1) (ring_next b)"
proof -
  have "case next_line D m of None \<Rightarrow> ring_get (size_t (int m)) (ring_next b) = Pipe
      | Some q \<Rightarrow> holds T' (ring_get (size_t (int m)) (ring_next b)) q" if m: "1 \<le> m" "m \<le> H - 1" for m
  proof -
    have cell: "ring_get (size_t (int m)) (ring_next b) = ring_get (size_t (int (Suc m))) b"
      by (simp add: ring.at_advance algebra_simps)
    have at: "case D (Suc m) of None \<Rightarrow> ring_get (size_t (int (Suc m))) b = Pipe
        | Some q \<Rightarrow> holds T (ring_get (size_t (int (Suc m))) b) q"
    proof -
      have "1 \<le> Suc m" "Suc m \<le> H" using m by auto
      then show ?thesis using assms(1) unfolding ring_due_def by blast
    qed
    have D: "next_line D m = D (Suc m)" using m by (simp add: next_line_def)
    show ?thesis
    proof (cases "D (Suc m)")
      case (Some q)
      then have "D 1 \<noteq> Some q" using assms(2) m unfolding due_ok_def by (metis One_nat_def Suc_inject not_one_le_zero)
      then show ?thesis using at evolves_holds [OF assms(3)] by (simp add: D Some cell)
    qed (use at in \<open>simp add: D cell\<close>)
  qed
  then show ?thesis by (simp add: ring_due_def)
qed

lemma ring_due_set:
  assumes "ring_due T D H b" and "holds T p q" and "1 \<le> k" "k \<le> H" "H \<le> 1023"
  shows "ring_due T (D(k \<mapsto> q)) H (ring_set (size_t (int k)) p b)"
proof -
  have "int k mod 1024 = int m mod 1024 \<longleftrightarrow> k = m" if "1 \<le> m" "m \<le> H" for m
    using that assms(3-5) by simp
  then have cell: "ring_get (size_t (int m)) (ring_set (size_t (int k)) p b) = (if k = m then p else ring_get (size_t (int m)) b)"
    if "1 \<le> m" "m \<le> H" for m
    using that ring.at_store [of "int m" "int k" p b] by simp
  show ?thesis
    unfolding ring_due_def
  proof (intro allI impI)
    fix m
    assume m: "1 \<le> m" "m \<le> H"
    show "case (D(k \<mapsto> q)) m of None \<Rightarrow> ring_get (size_t (int m)) (ring_set (size_t (int k)) p b) = Pipe
        | Some q' \<Rightarrow> holds T (ring_get (size_t (int m)) (ring_set (size_t (int k)) p b)) q'"
      using assms(1,2) m unfolding cell [OF m] ring_due_def by simp
  qed
qed

lemma due_ok_next: "due_ok D M \<Longrightarrow> due_ok (next_line D) M"
  unfolding due_ok_def next_line_def by (auto split: if_splits)

lemma line_step:
  assumes base: "base_ok (fds (kern w))" and n3: "3 \<le> nofile (kern w)" and h: "prevPipe h = Pipe"
    and ring: "ring_due (fds (kern w)) D H (numberPipeList h)" and H: "1 \<le> H" "H \<le> 1023"
    and due: "due_ok D M" and M: "M < H" and old: "\<And>m q. D m = Some q \<Longrightarrow> q < next_pipe (kern w)"
    and as: "as \<noteq> []" "\<forall>a \<in> set as. can_run (kern w) a" and into: "\<And>k e. t = Into k e \<Longrightarrow> 1 \<le> k \<and> k \<le> M"
    and room: "6 \<le> card (room_of (kern w))"
    and spec: "spec_line (kept (fds (kern w))) D (next_pipe (kern w)) (as, t) = (es, D', n')"
  shows "\<exists>h' w' e. run_line cfg i line (plain_line (line_commands (as, t))) h w = Inr (h', w') \<and>
     shell_frame (h\<lparr>eol := e\<rparr>) w h' w' \<and> prevPipe h' = Pipe \<and> next_pipe (kern w') = n' \<and>
     spawned (trace w') = spawned (trace w) @ es \<and> evolves (fds (kern w)) (D 1) (fds (kern w')) \<and>
     ring_due (fds (kern w')) D' (H - 1) (numberPipeList h')"
proof -
  let ?T = "fds (kern w)" and ?n = "next_pipe (kern w)" and ?b = "numberPipeList h"
  define y where "y = map_option (\<lambda>q. (ring_get (size_t 1) ?b, q)) (D 1)"
  have first: "case D 1 of None \<Rightarrow> ring_get (size_t 1) ?b = Pipe | Some q \<Rightarrow> holds ?T (ring_get (size_t 1) ?b) q"
    using ring H(1) unfolding ring_due_def by (metis le_refl of_nat_1)
  have y: "holds_opt ?T y" "ring_front (ring_next ?b) = pipe_of y" "map_option snd y = D 1"
    using first by (auto simp: y_def ring_front_next split: option.splits)
  let ?B = "without ?T y"
  have B: "base_ok ?B" "fresh_in ?B y" "?T = with_pipe ?B y"
    using base_ok_without [OF base y(1)] take_out [OF y(1)] by simp_all
  have roomB: "6 \<le> card (room_in (nofile (kern w)) ?B)"
    using room room_without [of "nofile (kern w)" ?T y] by (simp add: room_of_in)
  have inp: "input_of ?B y = source (kept ?T) D"
    using kept_without [OF y(1)] by (simp add: y_def source_def split: option.split)
  have keptB: "kept ?B = kept ?T" by (rule kept_without [OF y(1)])
  show ?thesis
  proof (cases t)
    case Ends
    obtain h' w' e where 1: "run_line cfg i line (plain_line (pipeline as)) h w = Inr (h', w')"
       "fds (kern w') = with_pipe ?B (Some (e, ?n))" "fresh_in ?B (Some (e, ?n))" "prevPipe h' = Pipe"
       "shell_frame (h\<lparr>eol := e\<rparr>) w h' w'" "numberPipeList h' = ring_next ?b"
       "next_pipe (kern w') = ?n + length as"
       "spawned (trace w') = spawned (trace w) @ plumbing (kept ?B) (Suc ?n) (input_of ?B y) as"
      using run_line_pipeline [OF B(1,2) n3 B(3) h y(2) roomB as, of cfg i line] by blast
    have ev: "evolves ?T (D 1) (fds (kern w'))"
      using evolves_step [OF y(1) 1(3)] unfolding y(3) 1(2) .
    show ?thesis
      using 1 ev ring_due_next [OF ring due ev] spec unfolding Ends keptB inp
      by (intro exI [of _ h'] exI [of _ w'] exI [of _ e]) (simp del: with_pipe.simps fresh_in.simps)
  next
    case (Into k err)
    note k = into [OF Into]
    define z where "z = map_option (\<lambda>q. (ring_get (size_t (int (Suc k))) ?b, q)) (D (Suc k))"
    have "case D (Suc k) of None \<Rightarrow> ring_get (size_t (int (Suc k))) ?b = Pipe
        | Some q \<Rightarrow> holds ?T (ring_get (size_t (int (Suc k))) ?b) q"
      using ring k M unfolding ring_due_def by (metis Suc_leI le_SucI less_Suc_eq_le order_le_less_trans)
    then have z: "holds_opt ?T z" "ring_get (size_t (int k)) (ring_next ?b) = pipe_of z"
      by (auto simp: z_def ring.at_advance algebra_simps split: option.splits)
    have "\<forall>p p' q. y = Some (p, q) \<longrightarrow> z \<noteq> Some (p', q)"
      using due k unfolding y_def z_def due_ok_def by auto
    note wz = without_swap [OF y(1) z(1) this]
    let ?C = "without ?B z"
    have C: "base_ok ?C" "fresh_in ?C z" "fresh_in (with_pipe ?C z) y" "?T = with_pipe (with_pipe ?C z) y"
      using base_ok_without [OF B(1) wz(1)] take_out(2) [OF wz(1)] wz B(3) by simp_all
    have roomC: "6 \<le> card (room_in (nofile (kern w)) (with_pipe ?C z))" using roomB wz(3) by simp
    define q where "q = (case z of None \<Rightarrow> ?n + length as | Some (_, q) \<Rightarrow> q)"
    obtain h' w' p e where 1:
       "run_line cfg i line (plain_line (pipeline as @ [NumberedPipeCommand (int k) err])) h w = Inr (h', w')"
       "fds (kern w') = with_pipe ?C (Some (p, q))" "fresh_in ?C (Some (p, q))" "prevPipe h' = Pipe"
       "numberPipeList h' = (if z = None then ring_set (size_t (int k)) p (ring_next ?b) else ring_next ?b)"
       "z = None \<or> z = Some (p, q)" "shell_frame (h\<lparr>eol := e\<rparr>) w h' w'"
       "next_pipe (kern w') = ?n + length as + (if z = None then 1 else 0)"
       "spawned (trace w') = spawned (trace w) @ plumbing_to (kept ?C) (Suc ?n) (input_of ?C y) q err as"
      using run_line_into [OF C(1-3) n3 C(4) h y(2) z(2) roomC as, of cfg i line err] unfolding q_def by blast
    have "kept ?C = kept ?T" using kept_without [OF wz(1)] keptB by simp
    moreover have "input_of ?C y = source (kept ?T) D"
      using input_of_with_pipe [OF take_out(2) [OF wz(1)], of y] inp wz(3) by simp
    ultimately have out: "spawned (trace w') = spawned (trace w) @ plumbing_to (kept ?T) (Suc ?n) (source (kept ?T) D) q err as"
      using 1(9) by simp
    have D1: "next_line D k = D (Suc k)" using k by (simp add: next_line_def)
    show ?thesis
    proof (cases "D (Suc k)")
      case None
      then have zN: "z = None" by (simp add: z_def)
      have fresh: "fresh_in ?B (Some (p, q))" and tab: "fds (kern w') = with_pipe ?B (Some (p, q))"
        using 1(2,3) zN by simp_all
      have ev: "evolves ?T (D 1) (fds (kern w'))"
        using evolves_step [OF y(1) fresh] unfolding y(3) tab .
      have "ring_due (fds (kern w')) ((next_line D)(k \<mapsto> q)) (H - 1) (ring_set (size_t (int k)) p (ring_next ?b))"
        using ring_due_next [OF ring due ev] holds_new [OF fresh] k M H unfolding tab [symmetric]
        by (intro ring_due_set) auto
      then show ?thesis
        using 1(1,4,5,7,8) out ev spec zN D1 None
        by (intro exI [of _ h'] exI [of _ w'] exI [of _ e]) (simp add: Into q_def)
    next
      case (Some r)
      then have zS: "z = Some (p, q)" "q = r" using 1(6) by (auto simp: z_def q_def)
      have tab: "fds (kern w') = with_pipe ?B None" using 1(2) wz(3) zS(1) by simp
      have ev: "evolves ?T (D 1) (fds (kern w'))"
        using evolves_step [OF y(1), of None] unfolding y(3) tab by simp
      show ?thesis
        using 1(1,4,5,7,8) out ev ring_due_next [OF ring due ev] spec zS D1 Some
        by (intro exI [of _ h'] exI [of _ w'] exI [of _ e]) (simp add: Into)
    qed
  qed
qed

text \<open>What the shell owes after a line.\<close>

lemma spec_line_due:
  assumes "due_ok D M" and "\<forall>m q. D m = Some q \<longrightarrow> q < n" and "as \<noteq> []"
    and "\<forall>k e. t = Into k e \<longrightarrow> 1 \<le> k \<and> k \<le> M" and "spec_line T D n (as, t) = (es, D', n')"
  shows "due_ok D' M" and "n \<le> n'"
    and "\<And>m q. D' m = Some q \<Longrightarrow> D (Suc m) = Some q \<or> n \<le> q" and "\<And>m q. D' m = Some q \<Longrightarrow> q < n'"
proof -
  note ok = due_ok_next [OF assms(1)]
  have old: "next_line D m = Some q \<Longrightarrow> D (Suc m) = Some q \<and> q < n" for m q
    using assms(2) by (auto simp: next_line_def split: if_splits)
  have new: "due_ok ((next_line D)(k \<mapsto> n + length as)) M" if "1 \<le> k" "k \<le> M" for k
    using ok that old unfolding due_ok_def by (auto split: if_splits)
  show "due_ok D' M"
    using assms(4,5) ok new by (cases t) (auto split: option.splits)
  show "n \<le> n'" using assms(5) by (cases t) (auto split: option.splits)
  show "D' m = Some q \<Longrightarrow> D (Suc m) = Some q \<or> n \<le> q" for m q
    using assms(5) old by (cases t) (auto split: option.splits if_splits)
  show "D' m = Some q \<Longrightarrow> q < n'" for m q
    using assms(5) old by (cases t) (force split: option.splits if_splits)+
qed

end
