(* ===== verification/Client_Turns.thy ===== *)
theory Client_Turns
  imports Client_Lines Line_Turn Server_Loop
begin

text \<open>
  The turns of several clients of \<open>np_single_proc\<close>: each has a shell of its own in the one process, whose
  descriptor table they share.  A turn of one of them advances its shell as the specification of
  \<open>Client_Lines\<close> says and leaves what the others are owed in place.
\<close>

subsection \<open>The specification of a run\<close>

text \<open>
  Lines of any clients in any order; every client has its own table \<open>V\<close> and is owed its own pipes, and all
  draw the numbers of their pipes from the same counter.
\<close>

fun spec_lines :: "(int \<Rightarrow> int \<Rightarrow> fobj option) \<Rightarrow> (int \<Rightarrow> due) \<Rightarrow> nat \<Rightarrow> (int \<times> typed_line) list \<Rightarrow> launched" where
  "spec_lines V D n [] = []"
| "spec_lines V D n ((fd, l) # ls) =
     (case spec_line (V fd) (D fd) n l of (es, d, n') \<Rightarrow> es @ spec_lines V (D(fd := d)) n' ls)"

text \<open>The client on \<open>fd\<close> sends a line, and one round of the server's loop serves it.\<close>

definition types :: "int \<Rightarrow> string \<Rightarrow> world \<Rightarrow> world" where
  "types fd line w =
     (case fds (kern w) fd of
        None \<Rightarrow> w
      | Some (ob, _) \<Rightarrow> w\<lparr>incoming := (incoming w)(ob := [line @ [newline]])\<rparr>)"

fun serve_lines :: "(int \<times> typed_line) list \<Rightarrow> server_loop \<Rightarrow> server_loop result" where
  "serve_lines [] s = Inr s"
| "serve_lines ((fd, l) # ls) s =
     rbind (poll_round {fd} 0 [] 0 (s\<lparr>srv := types fd (line_text l) (srv s)\<rparr>)) (serve_lines ls)"

text \<open>What the programs of the client on \<open>fd\<close> start from: the server's table with its socket on top.\<close>

definition client_view :: "world \<Rightarrow> int \<Rightarrow> int \<Rightarrow> fobj option" where
  "client_view w fd = (exec_table (kern w))(0 := socket_of fd w, 1 := socket_of fd w, 2 := socket_of fd w)"

subsection \<open>Tables over a turn\<close>

lemma evolves_restored:
  assumes own: "own_standard w" and ev: "evolves (redirected (Socket m) (fds (kern w))) y T"
  shows "evolves (fds (kern w)) y (T(0 := fds (kern w) 0, 1 := fds (kern w) 1, 2 := fds (kern w) 2))"
    and "holds T p q \<Longrightarrow> holds (T(0 := fds (kern w) 0, 1 := fds (kern w) 1, 2 := fds (kern w) 2)) p q"
proof -
  let ?T = "fds (kern w)" and ?B = "redirected (Socket m) (fds (kern w))"
  let ?R = "T(0 := ?T 0, 1 := ?T 1, 2 := ?T 2)"
  obtain a b d where std: "?T 0 = Some (a, False)" "?T 1 = Some (b, False)" "?T 2 = Some (d, False)"
    using own unfolding own_standard_def by auto
  have same: "?B j = ?T j" if "j \<noteq> 0" "j \<noteq> 1" "j \<noteq> 2" for j using that by (simp add: redirected_def)
  have low: "?B j = Some (Socket m, False)" if "j = 0 \<or> j = 1 \<or> j = 2" for j using that by (auto simp: redirected_def)
  have T: "T j = Some (Socket m, False)" if "j = 0 \<or> j = 1 \<or> j = 2" for j
    using ev low [OF that] unfolding evolves_def by blast
  show "holds ?R p q" if "holds T p q"
    using that T [of "fd_in p"] T [of "fd_out p"] by (auto simp: holds_def)
  have "?R j = Some (ob, c)"
    if "?T j = Some (ob, c)" "\<forall>q. y = Some q \<longrightarrow> ob \<noteq> PipeR q \<and> ob \<noteq> PipeW q" for j ob c
  proof (cases "j = 0 \<or> j = 1 \<or> j = 2")
    case False
    then have "?B j = Some (ob, c)" using same [of j] that(1) by simp
    then have "T j = Some (ob, c)" using ev that(2) unfolding evolves_def by blast
    then show ?thesis using False by simp
  next
    case True
    then have "?R j = ?T j" by (elim disjE) simp_all
    then show ?thesis using that(1) by simp
  qed
  moreover have "kept ?R = kept ?T"
  proof
    fix j
    have "kept T j = kept ?B j" using ev by (simp add: evolves_def)
    then show "kept ?R j = kept ?T j" using same [of j] by (auto simp: kept_def)
  qed
  moreover have none: "?R j = None \<longleftrightarrow> T j = None" for j
    using std T [of 0] T [of 1] T [of 2] by simp
  have "room_in n ?R = room_in n T" for n
    unfolding room_in_def none ..
  then have "card (room_in n ?T) \<le> card (room_in n ?R) + 2" for n
    using ev redirected_room [OF own, of n "Socket m"] unfolding evolves_def by metis
  moreover have "?R j = None" if "j < 0" "?T j = None" for j
  proof -
    have "?B j = None" using that same [of j] by simp
    then have "T j = None" using ev that(1) unfolding evolves_def by blast
    then show ?thesis using that(1) by simp
  qed
  ultimately show "evolves ?T y ?R" unfolding evolves_def by blast
qed

subsection \<open>The clients and their shells\<close>

definition older :: "nat \<Rightarrow> fobj \<Rightarrow> bool" where
  "older n ob \<longleftrightarrow> (\<forall>q. ob = PipeR q \<or> ob = PipeW q \<longrightarrow> q < n)"

text \<open>The client on \<open>fd\<close> is owed \<open>D\<close>, as far as the next \<open>H\<close> lines are concerned.\<close>

definition client :: "int \<Rightarrow> due \<Rightarrow> nat \<Rightarrow> world \<Rightarrow> bool" where
  "client fd D H w \<longleftrightarrow> 3 \<le> fd \<and> (\<exists>m c. fds (kern w) fd = Some (Socket m, c)) \<and>
     (\<exists>i u. sm_find (sockID_table w) fd = Some i \<and> sm_find (users w) i = Some u \<and> running (shell u) \<and>
       prevPipe (shell u) = Pipe \<and> ring_due (fds (kern w)) D H (numberPipeList (shell u)))"

text \<open>
  The clients on the descriptors \<open>C\<close> between two turns; nothing is due later than in \<open>M\<close> lines, and the
  pipes the clients are owed were created after those numbered below \<open>n0\<close>.
\<close>

definition clients :: "int set \<Rightarrow> (int \<Rightarrow> due) \<Rightarrow> nat \<Rightarrow> nat \<Rightarrow> nat \<Rightarrow> world \<Rightarrow> bool" where
  "clients C D M H n0 w \<longleftrightarrow>
     own_standard w \<and> cin_good w \<and> stdin_buf w = [] \<and> 3 \<le> nofile (kern w) \<and> n0 \<le> next_pipe (kern w) \<and>
     (\<forall>s \<in> {serverIn w, serverOut w, serverErr w}. \<forall>ob c. fds (kern w) s = Some (ob, c) \<longrightarrow> older n0 ob) \<and>
     (\<forall>fd \<in> C. client fd (D fd) H w \<and> due_ok (D fd) M) \<and>
     (\<forall>fd \<in> C. \<forall>fd' \<in> C. sm_find (sockID_table w) fd = sm_find (sockID_table w) fd' \<longrightarrow> fd = fd') \<and>
     (\<forall>fd \<in> C. \<forall>m q. D fd m = Some q \<longrightarrow> n0 \<le> q \<and> q < next_pipe (kern w)) \<and>
     (\<forall>fd \<in> C. \<forall>fd' \<in> C. \<forall>m m' q. D fd m = Some q \<longrightarrow> D fd' m' = Some q \<longrightarrow> fd = fd')"

lemma ring_due_mono:
  assumes "ring_due T D H b" and "\<And>m p q. D m = Some q \<Longrightarrow> holds T p q \<Longrightarrow> holds T' p q" and "H' \<le> H"
  shows "ring_due T' D H' b"
  unfolding ring_due_def
proof (intro allI impI)
  fix m
  assume m: "1 \<le> m" "m \<le> H'"
  then have "case D m of None \<Rightarrow> ring_get (size_t (int m)) b = Pipe | Some q \<Rightarrow> holds T (ring_get (size_t (int m)) b) q"
    using assms(1,3) unfolding ring_due_def by (meson le_trans)
  then show "case D m of None \<Rightarrow> ring_get (size_t (int m)) b = Pipe | Some q \<Rightarrow> holds T' (ring_get (size_t (int m)) b) q"
    using assms(2) by (cases "D m") auto
qed

lemma line_commands_ok:
  assumes "as \<noteq> []" "\<forall>a \<in> set as. a \<noteq> [] \<and> (\<forall>x \<in> set a. plain x)" "\<And>k e. t = Into k e \<Longrightarrow> int k \<le> int_max"
  shows "line_commands (as, t) \<noteq> []" "wf_commands (line_commands (as, t))"
    and "\<forall>c \<in> set (line_commands (as, t)). printable c"
proof -
  have wf: "wf_commands (pipeline as @ [NumberedPipeCommand k e])" for k e
    using assms(1,2) by (induction as rule: pipeline.induct) auto
  show "line_commands (as, t) \<noteq> []" "wf_commands (line_commands (as, t))"
      "\<forall>c \<in> set (line_commands (as, t)). printable c"
    using pipeline_shape [OF assms(2)] pipeline_last [OF assms(1)] wf assms(3) by (cases t; auto)+
qed

lemma poll_round_one:
  assumes "0 \<le> fd" "fd \<le> maxSocks s"
  shows "poll_round {fd} n addr p s = (if fd = serverSock s then serve_new n addr p s else serve_input fd s)"
proof -
  let ?f = "\<lambda>j s. if j \<notin> {fd} then Inr s else if j = serverSock s then serve_new n addr p s else serve_input j s"
  have skip: "rfold ?f js s = Inr s" if "fd \<notin> set js" for js s
    using that by (induction js) auto
  have split: "[0..maxSocks s] = [0..fd - 1] @ fd # [fd + 1..maxSocks s]"
    using assms(1,2) by (simp add: upto_split3)
  have "poll_round {fd} n addr p s = rfold ?f (fd # [fd + 1..maxSocks s]) s"
    unfolding poll_round_def split rfold_append by (subst skip) simp_all
  moreover have "rfold ?f [fd + 1..maxSocks s] = Inr"
    by (rule ext, rule skip) simp
  ultimately have "poll_round {fd} n addr p s = rbind (?f fd s) Inr" by simp
  then show ?thesis by (cases "?f fd s") (auto split: if_splits)
qed

subsection \<open>One turn\<close>

lemma client_typed:
  assumes "client fd D H w" and "cin_good w" "stdin_buf w = []" "3 \<le> nofile (kern w)" and "newline \<notin> set line"
  obtains i u where "typed fd i line (types fd line w)" and "sm_find (sockID_table w) fd = Some i"
    and "sm_find (users w) i = Some u" and "running (shell u)" and "prevPipe (shell u) = Pipe"
    and "ring_due (fds (kern w)) D H (numberPipeList (shell u))"
proof -
  obtain m c i u where c: "3 \<le> fd" "fds (kern w) fd = Some (Socket m, c)" "sm_find (sockID_table w) fd = Some i"
      "sm_find (users w) i = Some u" "running (shell u)" "prevPipe (shell u) = Pipe"
      "ring_due (fds (kern w)) D H (numberPipeList (shell u))"
    using assms(1) unfolding client_def by auto
  have "typed fd i line (types fd line w)"
    using c assms(2-5) by (simp add: typed_def types_def serving_def live_def)
  then show ?thesis using c that by blast
qed

lemma types_sel [simp]:
  "users (types fd line w) = users w" "sockID_table (types fd line w) = sockID_table w"
  "kern (types fd line w) = kern w" "trace (types fd line w) = trace w" "serverIn (types fd line w) = serverIn w"
  "serverOut (types fd line w) = serverOut w" "serverErr (types fd line w) = serverErr w"
  by (simp_all add: types_def split: option.split)

lemma own_standard_types [simp]: "own_standard (types fd line w) \<longleftrightarrow> own_standard w"
  by (simp add: own_standard_def)

lemma own_standard_evolves:
  assumes "own_standard w" and ev: "evolves (fds (kern w)) y (fds (kern w'))"
    and srv: "serverIn w' = serverIn w" "serverOut w' = serverOut w" "serverErr w' = serverErr w"
    and low: "\<forall>j \<in> {0, 1, 2}. fds (kern w') j = fds (kern w) j"
    and y: "\<forall>s \<in> {serverIn w, serverOut w, serverErr w}. \<forall>ob c. fds (kern w) s = Some (ob, c) \<longrightarrow>
      (\<forall>q. y = Some q \<longrightarrow> ob \<noteq> PipeR q \<and> ob \<noteq> PipeW q)"
  shows "own_standard w'"
    and "\<And>s. s \<in> {serverIn w, serverOut w, serverErr w} \<Longrightarrow> fds (kern w') s = fds (kern w) s"
proof -
  show same: "fds (kern w') s = fds (kern w) s" if s: "s \<in> {serverIn w, serverOut w, serverErr w}" for s
  proof -
    obtain ob c where ob: "fds (kern w) s = Some (ob, c)" using assms(1) s unfolding own_standard_def by auto
    then have "fds (kern w') s = Some (ob, c)" using ev y s unfolding evolves_def by blast
    then show ?thesis using ob by simp
  qed
  have "\<forall>i < 0. fds (kern w') i = None"
    using ev assms(1) unfolding evolves_def own_standard_def by blast
  then show "own_standard w'"
    using assms(1) low same unfolding own_standard_def by (simp add: srv)
qed

lemma holds_redirected: "own_standard w \<Longrightarrow> holds (fds (kern w)) p q \<Longrightarrow> holds (redirected sk (fds (kern w))) p q"
  by (auto simp: holds_def redirected_def own_standard_def)

lemma clients_turn:
  assumes cl: "clients C D M H n0 (srv s)" and fd: "fd \<in> C" and M: "M < H" and H: "H \<le> 1023"
    and as: "as \<noteq> []" "\<forall>a \<in> set as. a \<noteq> [] \<and> (\<forall>x \<in> set a. plain x) \<and> can_run (kern (srv s)) a"
    and into: "\<And>k e. t = Into k e \<Longrightarrow> 1 \<le> k \<and> k \<le> M" and line: "newline \<notin> set (line_text (as, t))"
    and room: "6 \<le> card (room_of (kern (srv s)))"
    and spec: "spec_line (client_view (srv s) fd) (D fd) (next_pipe (kern (srv s))) (as, t) = (es, d, n')"
  shows "\<exists>w'. serve_input fd (s\<lparr>srv := types fd (line_text (as, t)) (srv s)\<rparr>) = Inr (s\<lparr>srv := w'\<rparr>) \<and>
     clients C (D(fd := d)) M (H - 1) n0 w' \<and> next_pipe (kern w') = n' \<and>
     spawned (trace w') = spawned (trace (srv s)) @ es \<and> (\<forall>fd \<in> C. client_view w' fd = client_view (srv s) fd) \<and>
     card (room_of (kern (srv s))) \<le> card (room_of (kern w')) + 2 \<and> can_run (kern w') = can_run (kern (srv s))"
proof -
  let ?w = "srv s" and ?l = "line_text (as, t)"
  let ?T = "fds (kern (srv s))" and ?n = "next_pipe (kern (srv s))"
  have own: "own_standard ?w" and cin: "cin_good ?w" "stdin_buf ?w = []" and n3: "3 \<le> nofile (kern ?w)"
      and old: "\<And>s ob c. s \<in> {serverIn ?w, serverOut ?w, serverErr ?w} \<Longrightarrow> ?T s = Some (ob, c) \<Longrightarrow> older n0 ob"
      and cls: "\<And>f. f \<in> C \<Longrightarrow> client f (D f) H ?w" and dues: "\<And>f. f \<in> C \<Longrightarrow> due_ok (D f) M"
      and ids: "\<And>f g. f \<in> C \<Longrightarrow> g \<in> C \<Longrightarrow> sm_find (sockID_table ?w) f = sm_find (sockID_table ?w) g \<Longrightarrow> f = g"
      and nums: "\<And>f m q. f \<in> C \<Longrightarrow> D f m = Some q \<Longrightarrow> n0 \<le> q \<and> q < ?n"
      and apart: "\<And>f g m m' q. f \<in> C \<Longrightarrow> g \<in> C \<Longrightarrow> D f m = Some q \<Longrightarrow> D g m' = Some q \<Longrightarrow> f = g"
      and n0: "n0 \<le> ?n"
    using cl unfolding clients_def by blast+
  obtain i u where u: "typed fd i ?l (types fd ?l ?w)" "sm_find (sockID_table ?w) fd = Some i"
      "sm_find (users ?w) i = Some u" "running (shell u)" "prevPipe (shell u) = Pipe"
      "ring_due ?T (D fd) H (numberPipeList (shell u))"
    by (rule client_typed [OF cls [OF fd] cin n3 line])
  obtain m c where sk: "?T fd = Some (Socket m, c)" using cls [OF fd] unfolding client_def by blast
  have plain: "\<forall>a \<in> set as. a \<noteq> [] \<and> (\<forall>x \<in> set a. plain x)" using as(2) by blast
  have "int k \<le> int_max" if "t = Into k e" for k e
    using into [OF that] M H by (simp add: int_max_def)
  note cs = line_commands_ok [OF as(1) plain this]
  have typed: "typed fd i (spaced (commands_text (line_commands (as, t)))) (types fd ?l ?w)"
    using u(1) by (simp add: line_text_def)
  have u': "sm_find (users (types fd ?l ?w)) i = Some u" and own': "own_standard (types fd ?l ?w)"
    using u(3) own by simp_all
  show ?thesis
  proof (rule line_turn [OF typed u' own' cs], unfold types_sel)
    fix sk' c' w4
    assume "?T fd = Some (sk', c')" and "fds (kern w4) = redirected sk' ?T"
      and k4: "next_pipe (kern w4) = ?n" "nofile (kern w4) = nofile (kern ?w)"
        "can_run (kern w4) = can_run (kern ?w)" "trace w4 = trace ?w"
      and turn: "\<And>h' w' e. run_line No_SHM i (spaced (commands_text (line_commands (as, t)))) (plain_line (line_commands (as, t)))
           ((shell u)\<lparr>shell_fd := fd\<rparr>) w4 = Inr (h', w') \<Longrightarrow>
         shell_frame ((shell u)\<lparr>shell_fd := fd, eol := e\<rparr>) w4 h' w' \<Longrightarrow>
         \<exists>w''. turn_done fd i u (types fd ?l ?w) h' w' w''"
    then have B: "fds (kern w4) = redirected (Socket m) ?T" using sk by simp
    let ?h = "(shell u)\<lparr>shell_fd := fd\<rparr>"
    have "ring_due (fds (kern w4)) (D fd) H (numberPipeList ?h)"
      using ring_due_mono [OF u(6) holds_redirected [OF own] le_refl] by (simp add: B)
    moreover have "6 \<le> card (room_of (kern w4))"
      using room redirected_room [OF own] by (simp add: room_of_in B k4)
    moreover have "spec_line (kept (fds (kern w4))) (D fd) (next_pipe (kern w4)) (as, t) = (es, d, n')"
      using spec sk by (simp add: B k4 kept_redirected client_view_def exec_table_kept socket_of_def)
    moreover have "base_ok (fds (kern w4))" using redirected_base [OF own] by (simp add: B)
    moreover have "1 \<le> H" using M by simp
    ultimately obtain h' w' e where r:
      "run_line No_SHM i (spaced (commands_text (line_commands (as, t)))) (plain_line (line_commands (as, t))) ?h w4 = Inr (h', w')"
      "shell_frame (?h\<lparr>eol := e\<rparr>) w4 h' w'" "prevPipe h' = Pipe" "next_pipe (kern w') = n'"
      "spawned (trace w') = spawned (trace w4) @ es" "evolves (fds (kern w4)) (D fd 1) (fds (kern w'))"
      "ring_due (fds (kern w')) d (H - 1) (numberPipeList h')"
      using line_step [of w4 ?h "D fd" H M as t es d n' No_SHM i "spaced (commands_text (line_commands (as, t)))"]
        n3 u(5) H dues [OF fd] M nums [OF fd] as into by (auto simp: k4)
    obtain w'' where w'': "turn_done fd i u (types fd ?l ?w) h' w' w''"
      using turn [OF r(1), of e] r(2) by auto
    let ?R = "(fds (kern w'))(0 := ?T 0, 1 := ?T 1, 2 := ?T 2)"
    note ev = evolves_restored [OF own r(6) [unfolded B]]
    have apipe: "\<forall>s \<in> {serverIn ?w, serverOut ?w, serverErr ?w}. \<forall>ob c. ?T s = Some (ob, c) \<longrightarrow>
        (\<forall>q. D fd 1 = Some q \<longrightarrow> ob \<noteq> PipeR q \<and> ob \<noteq> PipeW q)"
    proof (intro ballI allI impI)
      fix s ob c q
      assume "s \<in> {serverIn ?w, serverOut ?w, serverErr ?w}" "?T s = Some (ob, c)" "D fd 1 = Some q"
      then have "older n0 ob" "n0 \<le> q" using old nums [OF fd] by blast+
      then show "ob \<noteq> PipeR q \<and> ob \<noteq> PipeW q" by (auto simp: older_def)
    qed
    have "fds (kern w') s = ?T s" if s: "s \<in> {serverIn ?w, serverOut ?w, serverErr ?w}" for s
    proof -
      obtain ob c where ob: "?T s = Some (ob, c)" "3 \<le> s" using own s unfolding own_standard_def by auto
      then have "?R s = Some (ob, c)" using ev(1) apipe s unfolding evolves_def by blast
      then show ?thesis using ob by simp
    qed
    then have tab: "fds (kern w'') = ?R"
      using restored [OF own, of "kern w'"] w'' r(2) n3 by (simp add: turn_done_def shell_frame_def k4)
    note ev1 = ev(1) [folded tab]
    have d: "users w'' = sm_put i (u\<lparr>shell := h'\<rparr>) (users ?w)" "sockID_table w'' = sockID_table ?w"
        "serverIn w'' = serverIn ?w" "serverOut w'' = serverOut ?w" "serverErr w'' = serverErr ?w"
        "cin_good w''" "stdin_buf w'' = []" "nofile (kern w'') = nofile (kern ?w)" "next_pipe (kern w'') = n'"
        "executable (kern w'') = executable (kern ?w)" "running h'" "trace w'' = trace w' @ [Send fd ''% '']"
      using w'' r(4) by (simp_all add: turn_done_def)
    have "\<forall>j \<in> {0, 1, 2}. fds (kern w'') j = ?T j" by (simp add: tab)
    note std = own_standard_evolves [OF own ev1 d(3-5) this apipe]
    have socks: "fds (kern w'') f = ?T f" if f: "f \<in> C" for f
    proof -
      obtain mf cf where "?T f = Some (Socket mf, cf)" using cls [OF f] unfolding client_def by blast
      then show ?thesis using ev1 unfolding evolves_def by simp
    qed
    have "\<forall>m q. D fd m = Some q \<longrightarrow> q < ?n" "\<forall>k e. t = Into k e \<longrightarrow> 1 \<le> k \<and> k \<le> M"
      using nums [OF fd] into by blast+
    note due' = spec_line_due [OF dues [OF fd] this(1) as(1) this(2) spec]
    have nums'': "n0 \<le> q \<and> q < n'" if "f \<in> C" "(D(fd := d)) f m = Some q" for f m q
      using that nums [OF that(1)] nums [OF fd] due'(2) due'(3,4) [of m q] n0
      by (cases "f = fd") fastforce+
    have new: "D f m' \<noteq> Some q" if "f \<in> C" "f \<noteq> fd" "d m = Some q" for f m m' q
      using due'(3) [OF that(3)] apart [OF that(1) fd, of m' q] nums [OF that(1), of m' q] that(2) by fastforce
    have apart'': "f = g"
      if "f \<in> C" "g \<in> C" "(D(fd := d)) f m = Some q" "(D(fd := d)) g m' = Some q" for f g m m' q
      using that new [of f m' q m] new [of g m q m'] apart [OF that(1,2)] by (auto split: if_splits)
    have cls'': "client f ((D(fd := d)) f) (H - 1) w''" if f: "f \<in> C" for f
    proof (cases "f = fd")
      case True
      have "ring_due (fds (kern w'')) d (H - 1) (numberPipeList h')"
        using ring_due_mono [OF r(7) ev(2) le_refl] by (simp add: tab)
      then show ?thesis
        using cls [OF f] socks [OF f] True u(2) d(11) r(3) unfolding client_def d(1,2) by auto
    next
      case False
      obtain j v where v: "3 \<le> f" "sm_find (sockID_table ?w) f = Some j" "sm_find (users ?w) j = Some v"
          "running (shell v)" "prevPipe (shell v) = Pipe" "ring_due ?T (D f) H (numberPipeList (shell v))"
        using cls [OF f] unfolding client_def by blast
      have "j \<noteq> i" using ids [OF f fd] False u(2) v(2) by auto
      moreover have "ring_due (fds (kern w'')) (D f) (H - 1) (numberPipeList (shell v))"
      proof (rule ring_due_mono [OF v(6)])
        fix m p q
        assume q: "D f m = Some q" "holds ?T p q"
        have "D fd 1 \<noteq> Some q" using apart [OF f fd q(1)] False by blast
        then show "holds (fds (kern w'')) p q" by (rule evolves_holds [OF ev1 q(2)])
      qed simp
      ultimately show ?thesis
        using cls [OF f] socks [OF f] v False unfolding client_def d(1,2) by auto
    qed
    have "clients C (D(fd := d)) M (H - 1) n0 w''"
      unfolding clients_def
    proof (intro conjI ballI allI impI)
      show "own_standard w''" by (rule std(1))
    qed (use d n3 n0 std(2) old cls'' dues due'(1,2) ids nums'' apart'' in \<open>auto split: if_splits\<close>)
    moreover have "client_view w'' f = client_view ?w f" if "f \<in> C" for f
    proof -
      have "kept (fds (kern w'')) = kept ?T" using ev1 by (simp add: evolves_def)
      then show ?thesis using socks [OF that] by (simp add: client_view_def exec_table_kept socket_of_def)
    qed
    moreover have "card (room_of (kern ?w)) \<le> card (room_of (kern w'')) + 2"
      using ev1 unfolding evolves_def room_of_in d(8) by blast
    moreover have "spawned (trace w'') = spawned (trace ?w) @ es" using r(5) by (simp add: d(12) k4)
    moreover have "can_run (kern w'') = can_run (kern ?w)" by (simp add: d(10) can_run_def fun_eq_iff)
    ultimately show ?thesis
      using w'' d(9) by (intro exI [of _ w'']) (auto simp: serve_input_def turn_done_def)
  qed
qed

subsection \<open>A run\<close>

text \<open>What a line may be: programs that can run, and a distance of at most \<open>M\<close> lines.\<close>

fun line_ok :: "kernel \<Rightarrow> nat \<Rightarrow> typed_line \<Rightarrow> bool" where
  "line_ok k M (as, t) \<longleftrightarrow> as \<noteq> [] \<and> (\<forall>a \<in> set as. a \<noteq> [] \<and> (\<forall>x \<in> set a. plain x) \<and> can_run k a) \<and>
     (case t of Ends \<Rightarrow> True | Into n e \<Rightarrow> 1 \<le> n \<and> n \<le> M)"

lemma line_ok_run: "can_run k = can_run k' \<Longrightarrow> line_ok k M l = line_ok k' M l"
  by (cases l) simp

lemma printed_no_newline: "\<forall>c \<in> set cs. printable c \<Longrightarrow> newline \<notin> set (spaced (commands_text cs))"
proof (induction cs)
  case (Cons c cs)
  have "is_word t \<Longrightarrow> newline \<notin> set t" for t by (auto simp: is_word_def isspace_def newline_def code_def)
  moreover have "newline \<notin> set (nat_text n)" for n
    using nat_text_digits [of newline n] by (auto simp: newline_def isdigit_def code_def)
  ultimately have "t \<in> set (command_text c) \<Longrightarrow> newline \<notin> set t" for t
    using Cons.prems by (cases c) (auto simp: plain_def newline_def split: if_splits)
  then show ?case
    using Cons by (auto simp: commands_text_def spaced_def newline_def)
qed (simp add: commands_text_def)

lemma spec_lines_cong:
  "(\<And>fd. fd \<in> fst ` set ls \<Longrightarrow> V fd = V' fd) \<Longrightarrow> spec_lines V D n ls = spec_lines V' D n ls"
  by (induction V D n ls rule: spec_lines.induct) (auto split: prod.split)

lemma serve_lines_run:
  assumes "clients C D M H n0 (srv s)" and "\<forall>(fd, l) \<in> set ls. fd \<in> C \<and> line_ok (kern (srv s)) M l"
    and "M + length ls \<le> H" "H \<le> 1023" and "6 + 2 * length ls \<le> card (room_of (kern (srv s)))"
    and "\<forall>fd \<in> C. fd \<le> maxSocks s \<and> fd \<noteq> serverSock s"
  shows "\<exists>w' D'. serve_lines ls s = Inr (s\<lparr>srv := w'\<rparr>) \<and> clients C D' M (H - length ls) n0 w' \<and>
     spawned (trace w') = spawned (trace (srv s)) @ spec_lines (client_view (srv s)) D (next_pipe (kern (srv s))) ls"
  using assms
proof (induction ls arbitrary: s D H)
  case Nil
  then show ?case by (intro exI [of _ "srv s"] exI [of _ D]) simp
next
  case (Cons fl ls)
  obtain fd as t where fl: "fl = (fd, as, t)" by (cases fl) auto
  obtain es d n' where spec: "spec_line (client_view (srv s) fd) (D fd) (next_pipe (kern (srv s))) (as, t) = (es, d, n')"
    by (metis prod_cases3)
  have fd: "fd \<in> C" and ok: "line_ok (kern (srv s)) M (as, t)" using Cons.prems(2) by (auto simp: fl)
  have line: "newline \<notin> set (line_text (as, t))"
  proof -
    have "\<forall>a \<in> set as. a \<noteq> [] \<and> (\<forall>x \<in> set a. plain x)" "as \<noteq> []" using ok by auto
    moreover have "int k \<le> int_max" if "t = Into k e" for k e
      using ok that Cons.prems(3,4) by (simp add: int_max_def)
    ultimately show ?thesis
      unfolding line_text_def by (intro printed_no_newline line_commands_ok(3))
  qed
  have into: "1 \<le> k \<and> k \<le> M" if "t = Into k e" for k e using ok that by simp
  have as: "as \<noteq> []" "\<forall>a \<in> set as. a \<noteq> [] \<and> (\<forall>x \<in> set a. plain x) \<and> can_run (kern (srv s)) a"
    and M: "M < H" and room: "6 \<le> card (room_of (kern (srv s)))"
    using ok Cons.prems(3,5) by auto
  obtain w1 where 1: "serve_input fd (s\<lparr>srv := types fd (line_text (as, t)) (srv s)\<rparr>) = Inr (s\<lparr>srv := w1\<rparr>)"
     "clients C (D(fd := d)) M (H - 1) n0 w1" "next_pipe (kern w1) = n'"
     "spawned (trace w1) = spawned (trace (srv s)) @ es" "\<forall>fd \<in> C. client_view w1 fd = client_view (srv s) fd"
     "card (room_of (kern (srv s))) \<le> card (room_of (kern w1)) + 2" "can_run (kern w1) = can_run (kern (srv s))"
    using clients_turn [OF Cons.prems(1) fd M Cons.prems(4) as into line room spec] by blast
  have "client fd (D fd) H (srv s)" using Cons.prems(1) fd unfolding clients_def by blast
  then have "0 \<le> fd" by (simp add: client_def)
  then have poll: "poll_round {fd} 0 [] 0 (s\<lparr>srv := types fd (line_text (as, t)) (srv s)\<rparr>) = Inr (s\<lparr>srv := w1\<rparr>)"
    using poll_round_one [of fd "s\<lparr>srv := types fd (line_text (as, t)) (srv s)\<rparr>"] Cons.prems(6) fd 1(1) by (auto split: if_splits)
  have prems: "\<forall>(fd, l) \<in> set ls. fd \<in> C \<and> line_ok (kern (srv (s\<lparr>srv := w1\<rparr>))) M l"
      "M + length ls \<le> H - 1" "H - 1 \<le> 1023" "6 + 2 * length ls \<le> card (room_of (kern (srv (s\<lparr>srv := w1\<rparr>))))"
      "\<forall>fd \<in> C. fd \<le> maxSocks (s\<lparr>srv := w1\<rparr>) \<and> fd \<noteq> serverSock (s\<lparr>srv := w1\<rparr>)"
      "clients C (D(fd := d)) M (H - 1) n0 (srv (s\<lparr>srv := w1\<rparr>))"
    using Cons.prems(2-6) line_ok_run [OF 1(7)] 1(2,6) by auto
  have "\<exists>w' D'. serve_lines ls (s\<lparr>srv := w1\<rparr>) = Inr (s\<lparr>srv := w'\<rparr>) \<and> clients C D' M (H - 1 - length ls) n0 w' \<and>
     spawned (trace w') = spawned (trace w1) @ spec_lines (client_view w1) (D(fd := d)) (next_pipe (kern w1)) ls"
    using Cons.IH [OF prems(6,1-5)] by (simp del: fun_upd_apply)
  then obtain w' D' where 2: "serve_lines ls (s\<lparr>srv := w1\<rparr>) = Inr (s\<lparr>srv := w'\<rparr>)"
     "clients C D' M (H - 1 - length ls) n0 w'"
     "spawned (trace w') = spawned (trace w1) @ spec_lines (client_view w1) (D(fd := d)) (next_pipe (kern w1)) ls"
    by blast
  have "spec_lines (client_view w1) (D(fd := d)) n' ls = spec_lines (client_view (srv s)) (D(fd := d)) n' ls"
    using 1(5) Cons.prems(2) by (intro spec_lines_cong) auto
  then show ?case
    using poll 1(3,4) 2 spec by (intro exI [of _ w'] exI [of _ D']) (simp add: fl)
qed

end
