(* ===== verification/Client_Alone.thy ===== *)
theory Client_Alone
  imports Client_Turns
begin

text \<open>
  What a client's programs are connected to depends on its own lines alone: in the specification of a run,
  the lines of the others only change the numbers of its pipes.
\<close>

subsection \<open>Renaming pipes\<close>

fun ren :: "(nat \<Rightarrow> nat) \<Rightarrow> fobj \<Rightarrow> fobj" where
  "ren g (PipeR q) = PipeR (g q)"
| "ren g (PipeW q) = PipeW (g q)"
| "ren g ob = ob"

definition ren_table :: "(nat \<Rightarrow> nat) \<Rightarrow> (int \<Rightarrow> fobj option) \<Rightarrow> int \<Rightarrow> fobj option" where
  "ren_table g T = (\<lambda>j. map_option (ren g) (T j))"

definition renamed :: "(nat \<Rightarrow> nat) \<Rightarrow> launched \<Rightarrow> launched" where
  "renamed g = map (map_prod id (ren_table g))"

definition ren_due :: "(nat \<Rightarrow> nat) \<Rightarrow> due \<Rightarrow> due" where
  "ren_due g D = (\<lambda>m. map_option g (D m))"

lemma ren_table_upd [simp]: "ren_table g (T(j := x)) = (ren_table g T)(j := map_option (ren g) x)"
  by (simp add: ren_table_def fun_eq_iff)

lemma renamed_simps [simp]:
  "renamed g [] = []" "renamed g ((a, T) # es) = (a, ren_table g T) # renamed g es" "renamed g (es @ fs) = renamed g es @ renamed g fs"
  by (simp_all add: renamed_def)

lemma ren_table_at: "ren_table g T j = map_option (ren g) (T j)"
  by (simp add: ren_table_def)

lemma renamed_plumbing:
  "(\<And>k. k < length as \<Longrightarrow> g (n + k) = n' + k) \<Longrightarrow>
     renamed g (plumbing T n inp as) = plumbing (ren_table g T) n' (map_option (ren g) inp) as"
proof (induction as arbitrary: n n' inp rule: pipeline.induct)
  case (3 a b as)
  have "g (Suc n + k) = Suc n' + k" if "k < length (b # as)" for k using 3(2) [of "Suc k"] that by simp
  then show ?case using 3(1) [of "Suc n" "Suc n'"] 3(2) [of 0] by simp
qed simp_all

lemma renamed_plumbing_to:
  "(\<And>k. k < length as \<Longrightarrow> g (n + k) = n' + k) \<Longrightarrow>
     renamed g (plumbing_to T n inp q e as) = plumbing_to (ren_table g T) n' (map_option (ren g) inp) (g q) e as"
proof (induction as arbitrary: n n' inp rule: pipeline.induct)
  case (3 a b as)
  have "g (Suc n + k) = Suc n' + k" if "k < length (b # as)" for k using 3(2) [of "Suc k"] that by simp
  then show ?case using 3(1) [of "Suc n" "Suc n'"] 3(2) [of 0] by simp
qed (simp_all add: ren_table_at)

lemma ren_due_simps: "next_line (ren_due g D) = ren_due g (next_line D)" "ren_due g (D(k \<mapsto> q)) = (ren_due g D)(k \<mapsto> g q)"
  by (simp_all add: next_line_def ren_due_def fun_eq_iff)

lemma ren_due_at: "ren_due g D m = map_option g (D m)"
  by (simp add: ren_due_def)

text \<open>One line, with its own pipes renumbered from \<open>m\<close> to \<open>n\<close>.\<close>

lemma renamed_line:
  assumes "spec_line T D m l = (es, d, m')" and "\<And>k. g (m + k) = n + k" and "ren_table g T = T"
  shows "spec_line T (ren_due g D) n l = (renamed g es, ren_due g d, n + (m' - m))" and "m \<le> m'"
proof -
  obtain as t where l: "l = (as, t)" by force
  have src: "source T (ren_due g D) = map_option (ren g) (source T D)"
    using assms(3) by (auto simp: source_def ren_due_def ren_table_def fun_eq_iff split: option.split)
  have shift: "g (Suc m + k) = Suc n + k" for k using assms(2) [of "Suc k"] by simp
  have pl: "renamed g (plumbing T (Suc m) (source T D) as) = plumbing T (Suc n) (source T (ren_due g D)) as"
      "renamed g (plumbing_to T (Suc m) (source T D) q e as) = plumbing_to T (Suc n) (source T (ren_due g D)) (g q) e as" for q e
    using renamed_plumbing [of as g "Suc m" "Suc n" T] renamed_plumbing_to [of as g "Suc m" "Suc n" T] shift assms(3)
    by (simp_all add: src)
  show "spec_line T (ren_due g D) n l = (renamed g es, ren_due g d, n + (m' - m))"
  proof (cases t)
    case Ends
    then show ?thesis using assms(1) pl(1) by (auto simp: l ren_due_simps)
  next
    case (Into k e)
    show ?thesis
    proof (cases "next_line D k")
      case None
      then have "es = plumbing_to T (Suc m) (source T D) (m + length as) e as"
          "d = (next_line D)(k \<mapsto> m + length as)" "m' = m + length as + 1"
        using assms(1) by (auto simp: l Into)
      then show ?thesis
        using None pl(2) assms(2) [of "length as"] by (simp add: l Into ren_due_simps ren_due_at)
    next
      case (Some q)
      then have "es = plumbing_to T (Suc m) (source T D) q e as" "d = next_line D" "m' = m + length as"
        using assms(1) by (auto simp: l Into)
      then show ?thesis
        using Some pl(2) by (simp add: l Into ren_due_simps ren_due_at)
    qed
  qed
  show "m \<le> m'" using assms(1) by (cases t) (auto simp: l split: option.splits)
qed

subsection \<open>One client of a run\<close>

text \<open>The programs of the client on \<open>f\<close> in a run.\<close>

fun spec_of :: "int \<Rightarrow> (int \<Rightarrow> int \<Rightarrow> fobj option) \<Rightarrow> (int \<Rightarrow> due) \<Rightarrow> nat \<Rightarrow> (int \<times> typed_line) list \<Rightarrow> launched" where
  "spec_of f V D n [] = []"
| "spec_of f V D n ((fd, l) # ls) =
     (case spec_line (V fd) (D fd) n l of
        (es, d, n') \<Rightarrow> (if fd = f then es else []) @ spec_of f V (D(fd := d)) n' ls)"

text \<open>The clients that launch the programs of a run, program by program.\<close>

definition owners :: "(int \<times> typed_line) list \<Rightarrow> int list" where
  "owners ls = concat (map (\<lambda>(fd, as, t). replicate (length as) fd) ls)"

lemma length_plumbing [simp]: "length (plumbing T n inp as) = length as" "length (plumbing_to T n inp q e as) = length as"
proof -
  show "length (plumbing T n inp as) = length as"
    by (induction as arbitrary: n inp rule: pipeline.induct) simp_all
  show "length (plumbing_to T n inp q e as) = length as"
    by (induction as arbitrary: n inp rule: pipeline.induct) simp_all
qed

lemma length_spec_line: "spec_line T D n (as, t) = (es, d, n') \<Longrightarrow> length es = length as"
  by (cases t) (auto split: option.splits)

lemma filter_zip_replicate: "length es = n \<Longrightarrow> map snd (filter (\<lambda>e. fst e = f) (zip (replicate n fd) es)) = (if fd = f then es else [])"
  by (induction es arbitrary: n) auto

lemma spec_of_owners: "map snd (filter (\<lambda>e. fst e = f) (zip (owners ls) (spec_lines V D n ls))) = spec_of f V D n ls"
proof (induction ls arbitrary: D n)
  case (Cons fl ls)
  obtain fd as t where fl: "fl = (fd, as, t)" by (cases fl) auto
  obtain es d n' where s: "spec_line (V fd) (D fd) n (as, t) = (es, d, n')" by (metis prod_cases3)
  note len = length_spec_line [OF s]
  have "zip (owners (fl # ls)) (spec_lines V D n (fl # ls)) =
      zip (replicate (length as) fd) es @ zip (owners ls) (spec_lines V (D(fd := d)) n' ls)"
    using s len by (simp add: owners_def fl zip_append)
  then show ?case
    using Cons.IH [of "D(fd := d)" n'] s filter_zip_replicate [OF len, of f fd] by (simp add: fl del: fun_upd_apply)
qed (simp add: owners_def)

text \<open>The programs of a run only use the pipes created so far.\<close>

definition all_older :: "nat \<Rightarrow> (int \<Rightarrow> fobj option) \<Rightarrow> bool" where
  "all_older n T \<longleftrightarrow> (\<forall>j ob. T j = Some ob \<longrightarrow> older n ob)"

lemma older_mono: "older n ob \<Longrightarrow> n \<le> n' \<Longrightarrow> older n' ob"
  by (fastforce simp: older_def)

lemma all_older_upd [simp]: "all_older n T \<Longrightarrow> (\<And>ob. x = Some ob \<Longrightarrow> older n ob) \<Longrightarrow> all_older n (T(j := x))"
  by (auto simp: all_older_def)

lemma all_older_upd_Some [simp]: "all_older n T \<Longrightarrow> older n ob \<Longrightarrow> all_older n (T(j \<mapsto> ob))"
  by (auto simp: all_older_def)

lemma older_pipe [simp]: "older n (PipeR q) \<longleftrightarrow> q < n" "older n (PipeW q) \<longleftrightarrow> q < n"
  by (simp_all add: older_def)

lemma plumbing_older:
  assumes "all_older N T" and "\<And>ob. inp = Some ob \<Longrightarrow> older N ob" and "n + length as \<le> Suc N"
  shows "(\<forall>e \<in> set (plumbing T n inp as). all_older N (snd e)) \<and>
     (q < N \<longrightarrow> (\<forall>e' \<in> set (plumbing_to T n inp q e as). all_older N (snd e')))"
  using assms
proof (induction as arbitrary: n inp rule: pipeline.induct)
  case (2 a)
  then show ?case by (auto simp: all_older_def)
next
  case (3 a b as)
  have "n < N" using 3(4) by simp
  then show ?case using 3(1) [of "Some (PipeR n)" "Suc n"] 3(2-4) \<open>n < N\<close> by auto
qed simp

lemma spec_line_older:
  assumes "spec_line T D n l = (es, d, n')" and "all_older n T" and "\<And>m q. D m = Some q \<Longrightarrow> q < n"
  shows "\<forall>e \<in> set es. all_older n' (snd e)" and "\<And>m q. d m = Some q \<Longrightarrow> q < n'"
proof -
  obtain as t where l: "l = (as, t)" by force
  have n': "n + length as \<le> n'" using assms(1) by (cases t) (auto simp: l split: option.splits)
  have T: "all_older n' T" using assms(2) n' older_mono by (fastforce simp: all_older_def)
  have inp: "source T D = Some ob \<Longrightarrow> older n' ob" for ob
    using T assms(3) n' by (fastforce simp: source_def all_older_def split: option.splits)
  have old: "next_line D m = Some q \<Longrightarrow> q < n" for m q using assms(3) by (auto simp: next_line_def split: if_splits)
  have pl: "\<forall>e \<in> set (plumbing T (Suc n) (source T D) as). all_older n' (snd e)"
      "q < n' \<Longrightarrow> \<forall>e' \<in> set (plumbing_to T (Suc n) (source T D) q e as). all_older n' (snd e')" for q e
    using plumbing_older [of n' T "source T D" "Suc n" as q e] T inp n' by auto
  show "\<forall>e \<in> set es. all_older n' (snd e)"
  proof (cases t)
    case (Into k e)
    show ?thesis
    proof (cases "next_line D k")
      case (Some q)
      then have "q < n'" using old n' by fastforce
      then show ?thesis using assms(1) pl(2) Some by (auto simp: l Into)
    qed (use assms(1) pl(2) in \<open>auto simp: l Into\<close>)
  qed (use assms(1) pl(1) in \<open>auto simp: l\<close>)
  show "q < n'" if d: "d m = Some q" for m q
  proof (cases t)
    case Ends
    then have "next_line D m = Some q" using assms(1) d by (auto simp: l)
    then show ?thesis using old n' by fastforce
  next
    case (Into k e)
    have "d = next_line D \<or> d = (next_line D)(k \<mapsto> n + length as) \<and> n' = n + length as + 1"
      using assms(1) by (auto simp: l Into split: option.splits)
    then have "next_line D m = Some q \<or> q < n'" using d by (elim disjE) (simp_all split: if_splits)
    then show ?thesis using old n' by fastforce
  qed
qed

lemma ren_table_cong: "all_older n T \<Longrightarrow> (\<And>q. q < n \<Longrightarrow> g q = h q) \<Longrightarrow> ren_table g T = ren_table h T"
proof
  fix j
  assume "all_older n T" "\<And>q. q < n \<Longrightarrow> g q = h q"
  then show "ren_table g T j = ren_table h T j"
    by (cases "T j"; cases "the (T j)") (auto simp: ren_table_def all_older_def older_def)
qed

lemma renamed_cong:
  "\<forall>e \<in> set es. all_older n (snd e) \<Longrightarrow> (\<And>q. q < n \<Longrightarrow> g q = h q) \<Longrightarrow> renamed g es = renamed h es"
proof (induction es)
  case (Cons e es)
  then show ?case using ren_table_cong [of n "snd e" g h] by (cases e) simp
qed simp

lemma ren_table_id:
  assumes "all_older n T" "\<And>q. q < n \<Longrightarrow> g q = q"
  shows "ren_table g T = T"
proof
  fix j
  show "ren_table g T j = T j"
    using assms by (cases "T j"; cases "the (T j)") (auto simp: ren_table_def all_older_def older_def)
qed

subsection \<open>Alone and among others\<close>

lemma spec_lines_owed:
  assumes "\<And>fd. fd \<in> fst ` set ls \<Longrightarrow> D fd = D' fd"
  shows "spec_lines V D n ls = spec_lines V D' n ls"
  using assms
proof (induction ls arbitrary: D D' n)
  case (Cons fl ls)
  obtain fd l where fl: "fl = (fd, l)" by (cases fl)
  obtain es d n' where s: "spec_line (V fd) (D fd) n l = (es, d, n')" by (metis prod_cases3)
  have "spec_lines V (D(fd := d)) n' ls = spec_lines V (D'(fd := d)) n' ls"
    using Cons.prems by (intro Cons.IH) (auto simp: fl)
  then show ?case using s Cons.prems [of fd] by (simp add: fl del: fun_upd_apply)
qed simp

text \<open>
  \<open>g\<close> numbers the pipes the client has had alone, below \<open>m\<close>, as they are numbered among the others.
\<close>

lemma spec_of_alone:
  assumes "all_older n0 (V f)" and "D f = ren_due g Da" and "\<And>k q. Da k = Some q \<Longrightarrow> q < m" and "n0 \<le> m"
    and "\<And>q. q < n0 \<Longrightarrow> g q = q" and "\<And>p q. p < q \<Longrightarrow> q < m \<Longrightarrow> g p < g q" and "\<And>q. q < m \<Longrightarrow> g q < n"
  shows "\<exists>g'. (\<forall>q < m. g' q = g q) \<and> strict_mono g' \<and>
     spec_of f V D n ls = renamed g' (spec_lines V (\<lambda>_. Da) m (filter (\<lambda>l. fst l = f) ls))"
  using assms
proof (induction ls arbitrary: D Da g m n)
  case Nil
  let ?g = "\<lambda>q. if q < m then g q else n + q"
  have "strict_mono ?g"
    unfolding strict_mono_def using Nil.prems(6,7) by (auto simp: trans_less_add1)
  then show ?case by (intro exI [of _ ?g]) simp
next
  case (Cons fl ls)
  obtain fd l where fl: "fl = (fd, l)" by (cases fl)
  obtain es d n' where s: "spec_line (V fd) (D fd) n l = (es, d, n')" by (metis prod_cases3)
  show ?case
  proof (cases "fd = f")
    case False
    have "n \<le> n'" using s by (cases "(V fd, D fd, n, l)" rule: spec_line.cases) (auto split: option.splits)
    then have "q < m \<Longrightarrow> g q < n'" for q using Cons.prems(7) [of q] by simp
    moreover have "(D(fd := d)) f = ren_due g Da" using False Cons.prems(2) by simp
    ultimately have "\<exists>g'. (\<forall>q < m. g' q = g q) \<and> strict_mono g' \<and>
       spec_of f V (D(fd := d)) n' ls = renamed g' (spec_lines V (\<lambda>_. Da) m (filter (\<lambda>l. fst l = f) ls))"
      using Cons.prems by (intro Cons.IH) auto
    then show ?thesis using False s by (simp add: fl del: fun_upd_apply)
  next
    case True
    obtain ea da m' where a: "spec_line (V f) Da m l = (ea, da, m')" by (metis prod_cases3)
    let ?h = "\<lambda>q. if q < m then g q else n + (q - m)"
    have V: "ren_table ?h (V f) = V f"
      by (rule ren_table_id [OF Cons.prems(1)]) (use Cons.prems(4,5) in auto)
    have D: "D f = ren_due ?h Da"
      using Cons.prems(2,3) by (auto simp: ren_due_def fun_eq_iff intro!: option.map_cong0 dest: sym)
    have line: "es = renamed ?h ea" "d = ren_due ?h da" "n' = n + (m' - m)" "m \<le> m'"
      using renamed_line [OF a, of ?h n] V s by (simp_all add: True D)
    have old: "\<forall>e \<in> set ea. all_older m' (snd e)" "da k = Some q \<Longrightarrow> q < m'" for k q
      using spec_line_older [OF a _ Cons.prems(3)] Cons.prems(1,4) older_mono by (fastforce simp: all_older_def)+
    have "\<exists>g'. (\<forall>q < m'. g' q = ?h q) \<and> strict_mono g' \<and>
       spec_of f V (D(f := d)) n' ls = renamed g' (spec_lines V (\<lambda>_. da) m' (filter (\<lambda>l. fst l = f) ls))"
    proof (rule Cons.IH [OF Cons.prems(1)])
      show "?h p < ?h q" if "p < q" "q < m'" for p q
        using that Cons.prems(6) [of p q] Cons.prems(7) [of p] by auto
      show "?h q < n'" if "q < m'" for q
        using that Cons.prems(7) [of q] line(3,4) by auto
    qed (use line old Cons.prems(4,5) in auto)
    then obtain g' where g': "\<forall>q < m'. g' q = ?h q" "strict_mono g'"
       "spec_of f V (D(f := d)) n' ls = renamed g' (spec_lines V (\<lambda>_. da) m' (filter (\<lambda>l. fst l = f) ls))"
      by blast
    have "es = renamed g' ea" using renamed_cong [OF old(1), of g' ?h] g'(1) line(1) by simp
    moreover have "\<forall>q < m. g' q = g q" using g'(1) line(4) by simp
    moreover have "spec_lines V ((\<lambda>_. Da)(f := da)) m' (filter (\<lambda>l. fst l = f) ls) =
        spec_lines V (\<lambda>_. da) m' (filter (\<lambda>l. fst l = f) ls)"
      by (rule spec_lines_owed) auto
    ultimately show ?thesis
      using g'(2,3) s a by (intro exI [of _ g']) (simp add: fl True del: fun_upd_apply)
  qed
qed

end
