(* ===== verification/Client_Arrivals.thy ===== *)
theory Client_Arrivals
  imports Client_Turns Server_Invariant
begin

text \<open>
  From the start of \<open>np_single_proc\<close> to the clients of \<open>Client_Turns\<close>: what the constructor of the server and
  the rounds that accept connections make of the process they are started in.
\<close>

subsection \<open>Clients that have just come\<close>

text \<open>
  The clients on the descriptors \<open>C\<close> have sockets and users of their own and no numbered pipe on its way,
  and every pipe that is open was created before.
\<close>

definition idle_clients :: "int set \<Rightarrow> server_loop \<Rightarrow> bool" where
  "idle_clients C s \<longleftrightarrow>
     own_standard (srv s) \<and> cin_good (srv s) \<and> stdin_buf (srv s) = [] \<and> 3 \<le> nofile (kern (srv s)) \<and>
     (\<forall>j ob c. fds (kern (srv s)) j = Some (ob, c) \<longrightarrow> older (next_pipe (kern (srv s))) ob) \<and>
     inj_on (sm_find (sockID_table (srv s))) C \<and>
     (\<forall>fd \<in> C. 3 \<le> fd \<and> fd \<le> maxSocks s \<and> fd \<noteq> serverSock s \<and>
        (\<exists>m c. fds (kern (srv s)) fd = Some (Socket m, c)) \<and>
        (\<exists>i u. sm_find (sockID_table (srv s)) fd = Some i \<and> sm_find (users (srv s)) i = Some u \<and>
           running (shell u) \<and> nothing_pending (shell u)))"

lemma idle_clientE:
  assumes "idle_clients C s" and "fd \<in> C"
  obtains m c i u where "3 \<le> fd" "fd \<le> maxSocks s" "fd \<noteq> serverSock s" "fds (kern (srv s)) fd = Some (Socket m, c)"
    "sm_find (sockID_table (srv s)) fd = Some i" "sm_find (users (srv s)) i = Some u" "running (shell u)"
    "nothing_pending (shell u)"
  using assms unfolding idle_clients_def by (elim conjE) (drule (1) bspec, blast)

subsection \<open>Start-up\<close>

text \<open>A process as it is started: three standard descriptors, which are not pipes of its own.\<close>

definition started :: "world \<Rightarrow> bool" where
  "started w \<longleftrightarrow> (\<forall>j. j \<notin> {0, 1, 2} \<longrightarrow> fds (kern w) j = None) \<and>
     (\<forall>j \<in> {0, 1, 2}. \<exists>ob. fds (kern w) j = Some (ob, False) \<and> older (next_pipe (kern w)) ob) \<and>
     7 \<le> nofile (kern w) \<and> cin_good w \<and> stdin_buf w = []"

text \<open>The listening socket is one of the descriptors \<open>select\<close> watches.\<close>

definition listening :: "server_loop \<Rightarrow> bool" where
  "listening s \<longleftrightarrow> 3 \<le> serverSock s \<and> serverSock s \<le> maxSocks s \<and> fds (kern (srv s)) (serverSock s) \<noteq> None"

lemma k_open_free:
  assumes "k_open ob c k = (i, k')" and "room_of k \<noteq> {} \<or> i \<noteq> -1"
  shows "fds k i = None" "0 \<le> i" "k' = k\<lparr>fds := (fds k)(i \<mapsto> (ob, c))\<rparr>"
  using assms lowest_free_Some [of k i] lowest_free_None [of k]
  by (auto simp: k_open_def room_of_def split: option.splits)

lemma started_idle:
  assumes std: "started w" and start: "single_start args host addr w = Inr s"
  shows "idle_clients {} s \<and> listening s \<and> room_of (kern (srv s)) = {7..<int (nofile (kern w))} \<and>
     nofile (kern (srv s)) = nofile (kern w)"
proof -
  let ?T = "fds (kern w)"
  obtain a b d where low: "?T 0 = Some (a, False)" "?T 1 = Some (b, False)" "?T 2 = Some (d, False)"
      and old: "older (next_pipe (kern w)) a" "older (next_pipe (kern w)) b" "older (next_pipe (kern w)) d"
    using std unfolding started_def by auto
  have high: "?T j = None" if "j \<noteq> 0" "j \<noteq> 1" "j \<noteq> 2" for j using std that unfolding started_def by blast
  obtain n where "nofile (kern w) = 7 + n" using std le_Suc_ex unfolding started_def by blast
  then have m: "nofile (kern w) = Suc (Suc (Suc (Suc (Suc (Suc (Suc n))))))" by simp
  let ?k1 = "(kern w)\<lparr>fds := ?T(3 \<mapsto> (a, False))\<rparr>"
  let ?k2 = "(kern w)\<lparr>fds := ?T(3 \<mapsto> (a, False), 4 \<mapsto> (b, False))\<rparr>"
  let ?k3 = "(kern w)\<lparr>fds := ?T(3 \<mapsto> (a, False), 4 \<mapsto> (b, False), 5 \<mapsto> (d, False))\<rparr>"
  let ?k4 = "(kern w)\<lparr>fds := ?T(3 \<mapsto> (a, False), 4 \<mapsto> (b, False), 5 \<mapsto> (d, False), 6 \<mapsto> (Socket 0, False))\<rparr>"
  have dups: "k_dup 0 (kern w) = (3, ?k1)" "k_dup 1 ?k1 = (4, ?k2)" "k_dup 2 ?k2 = (5, ?k3)"
    and sock: "k_open (Socket 0) False ?k3 = (6, ?k4)"
    using low high by (simp_all add: k_dup_def k_open_def lowest_free_def m)
  let ?w0 = "k_setenv ''PATH'' ''bin:.'' w"
  have w0: "kern ?w0 = kern w" "cin_good ?w0 = cin_good w" "stdin_buf ?w0 = stdin_buf w"
    by (simp_all add: k_setenv_def)
  let ?w1 = "chatServer ?w0"
  have w1: "kern ?w1 = ?k3" "serverIn ?w1 = 3" "serverOut ?w1 = 4" "serverErr ?w1 = 5"
      "cin_good ?w1 = cin_good w" "stdin_buf ?w1 = stdin_buf w" "sockID_table ?w1 = []"
    by (simp_all add: chatServer_def w0 dups)
  obtain p where s: "s = \<lparr>srv = default_paths (showServingNetworkInfo host addr p (?w1\<lparr>kern := ?k4\<rparr>)),
      serverSock = 6, masterSocks = {6}, maxSocks = 6\<rparr>"
    using start sock
    by (auto simp: single_start_def Let_def createListenSocket_def w1 rbind_eq_Inr_iff FD_SETSIZE_def split: if_splits)
  have env: "kern (default_paths v) = kern v" "serverIn (default_paths v) = serverIn v" "serverOut (default_paths v) = serverOut v"
      "serverErr (default_paths v) = serverErr v" "cin_good (default_paths v) = cin_good v" "stdin_buf (default_paths v) = stdin_buf v" for v
  proof -
    have "kern (fold f xs v) = kern v \<and> serverIn (fold f xs v) = serverIn v \<and> serverOut (fold f xs v) = serverOut v \<and>
        serverErr (fold f xs v) = serverErr v \<and> cin_good (fold f xs v) = cin_good v \<and> stdin_buf (fold f xs v) = stdin_buf v"
      if "f = (\<lambda>i. setServingUserEnv i ''PATH'' ''bin:.'')" for f xs
      by (induction xs arbitrary: v) (simp_all add: that setServingUserEnv_def split: prod.split)
    then show "kern (default_paths v) = kern v" "serverIn (default_paths v) = serverIn v" "serverOut (default_paths v) = serverOut v"
      "serverErr (default_paths v) = serverErr v" "cin_good (default_paths v) = cin_good v" "stdin_buf (default_paths v) = stdin_buf v"
      by (simp_all add: default_paths_def)
  qed
  have srv: "kern (srv s) = ?k4" "serverIn (srv s) = 3" "serverOut (srv s) = 4" "serverErr (srv s) = 5"
      "cin_good (srv s)" "stdin_buf (srv s) = []"
    using std by (simp_all add: s env w1 showServingNetworkInfo_def started_def)
  have "own_standard (srv s)"
    unfolding own_standard_def srv using low high by auto
  moreover have "older (next_pipe (kern (srv s))) ob" if "fds (kern (srv s)) j = Some (ob, c)" for j ob c
  proof -
    have "j \<in> {0, 1, 2, 3, 4, 5, 6}"
      using that high [of j] unfolding srv by (rule_tac ccontr) simp
    then consider "j = 0" | "j = 1" | "j = 2" | "j = 3" | "j = 4" | "j = 5" | "j = 6" by blast
    then show ?thesis
    proof cases
    qed (use that old low in \<open>auto simp: srv older_def\<close>)
  qed
  moreover have "3 \<le> nofile (kern (srv s))" unfolding srv by (simp add: m)
  moreover have "listening s" unfolding listening_def srv by (simp add: s)
  moreover have "room_of (kern (srv s)) = {7..<int (nofile (kern w))}"
  proof -
    have "i \<in> room_of (kern (srv s)) \<longleftrightarrow> i \<in> {7..<int (nofile (kern w))}" for i
    proof (cases "i \<in> {0, 1, 2, 3, 4, 5, 6}")
      case True
      then show ?thesis using low by (auto simp: srv room_of_def)
    next
      case False
      then have "i < 0 \<or> 7 \<le> i" by auto
      then show ?thesis using False high [of i] by (auto simp: srv room_of_def)
    qed
    then show ?thesis by blast
  qed
  moreover have "nofile (kern (srv s)) = nofile (kern w)" unfolding srv by simp
  ultimately show ?thesis using srv(5,6) by (simp add: idle_clients_def)
qed

subsection \<open>Arrivals\<close>

lemma broadcast_chat:
  "broadcastMessage No_SHM msg w = Inr w' \<Longrightarrow> kern w' = kern w \<and> users w' = users w \<and> sockID_table w' = sockID_table w \<and>
     serverIn w' = serverIn w \<and> serverOut w' = serverOut w \<and> serverErr w' = serverErr w \<and>
     cin_good w' = cin_good w \<and> stdin_buf w' = stdin_buf w"
  by (auto simp: broadcast_eq)

text \<open>What a round does that accepts one connection.\<close>

lemma serve_new_shape:
  assumes "serve_new n addr port' s = Inr s'"
  obtains fd k where "k_open (Socket n) False (kern (srv s)) = (fd, k)" and "0 \<le> fd"
    and "kern (srv s') = k" and "serverSock s' = serverSock s" and "maxSocks s' = max (maxSocks s) fd"
    and "users (srv s') = sm_put (next_id (srv s)) (new_user addr port' fd (-1)) (users (srv s))"
    and "sockID_table (srv s') = sm_put fd (next_id (srv s)) (sockID_table (srv s))"
    and "serverIn (srv s') = serverIn (srv s)" "serverOut (srv s') = serverOut (srv s)" "serverErr (srv s') = serverErr (srv s)"
    and "cin_good (srv s') = cin_good (srv s)" "stdin_buf (srv s') = stdin_buf (srv s)"
proof -
  obtain fd k where k: "k_open (Socket n) False (kern (srv s)) = (fd, k)" by force
  let ?w = "(srv s)\<lparr>kern := k\<rparr>"
  obtain w1 where 1: "addUser No_SHM addr port' fd (-1) ?w = Inr w1"
      "users w1 = sm_put (next_id ?w) (new_user addr port' fd (-1)) (users ?w)"
      "sockID_table w1 = sm_put fd (next_id ?w) (sockID_table ?w)" "kern w1 = kern ?w"
      "cin_good w1 = cin_good ?w" "stdin_buf w1 = stdin_buf ?w" "serverIn w1 = serverIn ?w"
      "serverOut w1 = serverOut ?w" "serverErr w1 = serverErr ?w"
    using addUser_eq by blast
  have "sm_find (sockID_table w1) fd = Some (next_id ?w)" by (simp add: 1(3))
  then have id: "getServingUserID fd (emit e w1) = (next_id ?w, emit e w1)" for e
    by (simp add: getServingUserID_def sm_index_hit)
  then obtain nm w4 where w4: "broadcastMessage No_SHM (LOGIN_MSG nm addr port') (emit (Send fd WELCOME_MSG) w1) = Inr w4"
      "s' = s\<lparr>srv := emit (Send fd ''% '') w4, masterSocks := insert fd (masterSocks s), maxSocks := max (maxSocks s) fd\<rparr>"
      "0 \<le> fd"
    using assms
    by (auto simp: serve_new_def k 1(1) rbind_eq_Inr_iff sendRawMessage_def getServingUserName_def split: if_splits)
  have "next_id ?w = next_id (srv s)" by (simp add: next_id_def)
  then show ?thesis
    using broadcast_chat [OF w4(1)] 1(2-) w4(2,3) k by (intro that [of fd k]) simp_all
qed

text \<open>The newcomer is one more idle client.\<close>

lemma arrival_idle:
  assumes idle: "idle_clients C s" and lis: "listening s" and T: "tables_ok (srv s)"
    and new: "serve_new n addr port' s = Inr s'"
  obtains fd where "fd \<notin> C" and "idle_clients (insert fd C) s'" and "listening s'"
    and "kern (srv s') = (kern (srv s))\<lparr>fds := (fds (kern (srv s)))(fd \<mapsto> (Socket n, False))\<rparr>"
proof -
  obtain fd k where k: "k_open (Socket n) False (kern (srv s)) = (fd, k)" "0 \<le> fd" "kern (srv s') = k"
    and s': "serverSock s' = serverSock s" "maxSocks s' = max (maxSocks s) fd"
      "users (srv s') = sm_put (next_id (srv s)) (new_user addr port' fd (-1)) (users (srv s))"
      "sockID_table (srv s') = sm_put fd (next_id (srv s)) (sockID_table (srv s))"
      "serverIn (srv s') = serverIn (srv s)" "serverOut (srv s') = serverOut (srv s)" "serverErr (srv s') = serverErr (srv s)"
      "cin_good (srv s') = cin_good (srv s)" "stdin_buf (srv s') = stdin_buf (srv s)"
    by (rule serve_new_shape [OF new])
  let ?T = "fds (kern (srv s))"
  have free: "?T fd = None" and k': "kern (srv s') = (kern (srv s))\<lparr>fds := ?T(fd \<mapsto> (Socket n, False))\<rparr>"
    using k_open_free [OF k(1)] k(2,3) by auto
  have own: "own_standard (srv s)" using idle by (simp add: idle_clients_def)
  have taken: "fd \<noteq> j" if "?T j = Some x" for j x using that free by auto
  have fd: "fd \<noteq> 0" "fd \<noteq> 1" "fd \<noteq> 2" "fd \<noteq> serverIn (srv s)" "fd \<noteq> serverOut (srv s)" "fd \<noteq> serverErr (srv s)"
    using own unfolding own_standard_def by (auto dest: taken)
  then have fd3: "3 \<le> fd" using k(2) by simp
  have C: "fd \<notin> C" and sock: "fd \<noteq> serverSock s"
    using idle lis free unfolding idle_clients_def listening_def by auto
  have same: "?T j = fds (kern (srv s')) j" if "?T j \<noteq> None" for j using that free by (auto simp: k')
  have own': "own_standard (srv s')"
    using own fd [symmetric] k(2) unfolding own_standard_def by (simp add: k' s')
  note fresh = next_id_least [OF T]
  have ids: "inj_on (sm_find (sockID_table (srv s'))) (insert fd C)"
  proof -
    have "sm_find (sockID_table (srv s)) g \<noteq> Some (next_id (srv s))" for g
      using T fresh(2) unfolding tables_ok_def live_def by (metis option.distinct(1))
    moreover have "inj_on (sm_find (sockID_table (srv s))) C" using idle by (simp add: idle_clients_def)
    ultimately show ?thesis
      unfolding s' by (intro inj_onI) (use C in \<open>auto simp: sm_find_put dest: inj_onD split: if_splits\<close>)
  qed
  have newc: "running (shell (new_user addr port' fd (-1)))" "nothing_pending (shell (new_user addr port' fd (-1)))"
    by (simp_all add: new_user_def nothing_pending_def UserInfo_def CmdHandler_def ring_get_def ring_new_def)
  have cl: "3 \<le> g \<and> g \<le> maxSocks s' \<and> g \<noteq> serverSock s' \<and> (\<exists>m c. fds (kern (srv s')) g = Some (Socket m, c)) \<and>
      (\<exists>i u. sm_find (sockID_table (srv s')) g = Some i \<and> sm_find (users (srv s')) i = Some u \<and> running (shell u) \<and>
        nothing_pending (shell u))" if g: "g \<in> insert fd C" for g
  proof (cases "g = fd")
    case True
    then show ?thesis using fd3 sock newc by (simp add: s' k') blast
  next
    case False
    then have gC: "g \<in> C" using g by simp
    obtain m c i u where g': "3 \<le> g" "g \<le> maxSocks s" "g \<noteq> serverSock s" "?T g = Some (Socket m, c)"
        "sm_find (sockID_table (srv s)) g = Some i" "sm_find (users (srv s)) i = Some u" "running (shell u)"
        "nothing_pending (shell u)"
      by (rule idle_clientE [OF idle gC])
    have "i \<noteq> next_id (srv s)" using g'(6) fresh(2) unfolding live_def by (metis option.distinct(1))
    then show ?thesis using g' False by (simp add: s' k')
  qed
  have old: "older (next_pipe (kern (srv s'))) ob" if "fds (kern (srv s')) j = Some (ob, c)" for j ob c
  proof -
    have "\<forall>j ob c. ?T j = Some (ob, c) \<longrightarrow> older (next_pipe (kern (srv s))) ob" using idle unfolding idle_clients_def by blast
    moreover have "older m (Socket n)" for m by (simp add: older_def)
    ultimately show ?thesis using that by (auto simp: k' split: if_splits)
  qed
  have "idle_clients (insert fd C) s'"
    unfolding idle_clients_def
  proof (intro conjI allI impI ballI own' ids)
    show "cin_good (srv s')" "stdin_buf (srv s') = []" "3 \<le> nofile (kern (srv s'))"
      using idle by (simp_all add: idle_clients_def s' k')
  qed (use cl old in blast)+
  moreover have "listening s'" using lis by (auto simp: listening_def s' k')
  ultimately show ?thesis using C by (intro that [of fd]) (simp_all add: k')
qed

text \<open>Rounds that find only the listening socket ready, one connection each.\<close>

fun newcomers :: "(nat \<times> string \<times> int) list \<Rightarrow> server_loop \<Rightarrow> server_loop result" where
  "newcomers [] s = Inr s"
| "newcomers ((n, addr, port') # cs) s = rbind (poll_round {serverSock s} n addr port' s) (newcomers cs)"

lemma newcomers_idle:
  assumes "idle_clients C s" "listening s" "server_inv s" "finite C" "nofile (kern (srv s)) \<le> 1024"
    and "length cs \<le> card (room_of (kern (srv s)))"
  shows "\<exists>s' C'. newcomers cs s = Inr s' \<and> C \<subseteq> C' \<and> finite C' \<and> card C' = card C + length cs \<and> idle_clients C' s' \<and>
     card (room_of (kern (srv s'))) + length cs = card (room_of (kern (srv s)))"
  using assms
proof (induction cs arbitrary: C s)
  case (Cons c cs)
  obtain n addr port' where c: "c = (n, addr, port')" by (cases c)
  let ?k = "kern (srv s)"
  obtain fd k where k: "k_open (Socket n) False ?k = (fd, k)" by force
  have room: "room_of ?k \<noteq> {}" using Cons.prems(6) by auto
  then have fd: "fd \<in> room_of ?k"
    using k lowest_free_Some [of ?k] lowest_free_None [of ?k] by (auto simp: k_open_def split: option.splits)
  then obtain s1 where s1: "serve_new n addr port' s = Inr s1"
    using serve_new_total [OF k] Cons.prems(5) by (auto simp: room_of_def FD_SETSIZE_def)
  have inv: "server_inv s1" using serve_new_ok [OF Cons.prems(3), of n addr port'] by (simp add: s1)
  have T: "tables_ok (srv s)" using Cons.prems(3) by (simp add: server_inv_def)
  obtain g where g: "g \<notin> C" "idle_clients (insert g C) s1" "listening s1"
      "kern (srv s1) = ?k\<lparr>fds := (fds ?k)(g \<mapsto> (Socket n, False))\<rparr>"
    by (rule arrival_idle [OF Cons.prems(1,2) T s1])
  obtain fd' where "k_open (Socket n) False ?k = (fd', kern (srv s1))" by (rule serve_new_shape [OF s1]) blast
  then have "kern (srv s1) = ?k\<lparr>fds := (fds ?k)(fd \<mapsto> (Socket n, False))\<rparr>"
    using k k_open_free(3) [OF k] room by (metis prod.inject)
  then have "room_of (kern (srv s1)) = room_of ?k - {fd}" by (simp add: room_of_upd)
  then have card: "card (room_of (kern (srv s1))) + 1 = card (room_of ?k)"
    using fd card_Suc_Diff1 [of "room_of ?k" fd] by simp
  have "\<exists>s' C'. newcomers cs s1 = Inr s' \<and> insert g C \<subseteq> C' \<and> finite C' \<and> card C' = card (insert g C) + length cs \<and>
      idle_clients C' s' \<and> card (room_of (kern (srv s'))) + length cs = card (room_of (kern (srv s1)))"
    by (rule Cons.IH [OF g(2,3) inv]) (use Cons.prems(4-6) card in \<open>simp_all add: g(4)\<close>)
  then obtain s' C' where "newcomers cs s1 = Inr s'" "insert g C \<subseteq> C'" "finite C'" "card C' = card C + Suc (length cs)"
      "idle_clients C' s'" "card (room_of (kern (srv s'))) + length cs = card (room_of (kern (srv s1)))"
    using g(1) Cons.prems(4) by auto
  moreover have "0 \<le> serverSock s" "serverSock s \<le> maxSocks s" using Cons.prems(2) by (simp_all add: listening_def)
  ultimately show ?case using card s1 by (auto simp: c poll_round_one)
qed auto

end
