(* ===== verification/Shell_Isolation.thy ===== *)
theory Shell_Isolation
  imports Slot_Facts Server_Invariant
begin

text \<open>
  Whatever a client types, its turn does not touch the shell of anybody else: another instance of the frame
  that the chat and the shell keep.
\<close>

definition other_shells :: "int \<Rightarrow> config \<Rightarrow> world \<Rightarrow> world \<Rightarrow> bool" where
  "other_shells served cfg w w' \<longleftrightarrow>
     (\<forall>j. j \<noteq> served \<longrightarrow> map_option shell (sm_find (users w') j) = map_option shell (sm_find (users w) j))"

interpretation others: world_frame "other_shells served" served for served
  by unfold_locales (auto simp: other_shells_def set_user_def)

lemma runShellLoop_others:
  assumes "sm_find (sockID_table w) fd = Some i" and "runShellLoop fd w = Inr (b, w')" and "j \<noteq> i"
  shows "map_option shell (sm_find (users w') j) = map_option shell (sm_find (users w) j)"
  using others.runShellLoop_frame [OF assms(1,2)] assms(3) by (simp add: other_shells_def)

end
