(* ===== verification/Client_Properties.thy ===== *)
theory Client_Properties
  imports Client_Alone Client_Arrivals Shell_Isolation Pipeline_Properties
begin

text \<open>
  Several clients of \<open>np_single_proc\<close> type command lines in any order: each has its own shell, with its own
  numbered pipes, although one process serves them all from one table of descriptors.
\<close>

subsection \<open>Clients that have just come\<close>

lemma idle_clients_clients:
  assumes "idle_clients C s"
  shows "clients C (\<lambda>_ _. None) M 1023 (next_pipe (kern (srv s))) (srv s)"
proof -
  have "client fd (\<lambda>_. None) 1023 (srv s)" if fd: "fd \<in> C" for fd
  proof -
    have "3 \<le> fd" "\<exists>m c. fds (kern (srv s)) fd = Some (Socket m, c)"
      using assms fd unfolding idle_clients_def by blast+
    moreover obtain i u where "sm_find (sockID_table (srv s)) fd = Some i" "sm_find (users (srv s)) i = Some u"
        "running (shell u)" "nothing_pending (shell u)"
      using assms fd unfolding idle_clients_def by blast
    ultimately show ?thesis by (auto simp: client_def nothing_pending_def ring_due_def)
  qed
  then show ?thesis
    using assms by (auto simp: idle_clients_def clients_def due_ok_def inj_on_def)
qed

lemma idle_clients_view:
  assumes "idle_clients C s" "fd \<in> C"
  shows "all_older (next_pipe (kern (srv s))) (client_view (srv s) fd)"
proof -
  have old: "older (next_pipe (kern (srv s))) ob" if "fds (kern (srv s)) j = Some (ob, c)" for j ob c
    using assms(1) that unfolding idle_clients_def by blast
  have "all_older (next_pipe (kern (srv s))) (exec_table (kern (srv s)))"
    unfolding all_older_def exec_table_kept
  proof (intro allI impI)
    fix j ob
    assume "kept (fds (kern (srv s))) j = Some ob"
    then have "fds (kern (srv s)) j = Some (ob, False)" by (auto simp: kept_def split: option.splits bool.splits)
    then show "older (next_pipe (kern (srv s))) ob" by (rule old)
  qed
  then show ?thesis
    using old unfolding client_view_def by (intro all_older_upd) (auto simp: socket_of_def)
qed

lemma idle_clients_run:
  assumes "idle_clients C s" and "\<forall>(fd, l) \<in> set ls. fd \<in> C \<and> line_ok (kern (srv s)) M l"
    and "M + length ls \<le> 1023" and "6 + 2 * length ls \<le> card (room_of (kern (srv s)))"
  shows "\<exists>s'. serve_lines ls s = Inr s' \<and>
     spawned (trace (srv s')) = spawned (trace (srv s)) @
       spec_lines (client_view (srv s)) (\<lambda>_ _. None) (next_pipe (kern (srv s))) ls"
proof -
  have "\<forall>fd \<in> C. fd \<le> maxSocks s \<and> fd \<noteq> serverSock s" using assms(1) unfolding idle_clients_def by blast
  then obtain w' where "serve_lines ls s = Inr (s\<lparr>srv := w'\<rparr>)"
      "spawned (trace w') = spawned (trace (srv s)) @
         spec_lines (client_view (srv s)) (\<lambda>_ _. None) (next_pipe (kern (srv s))) ls"
    using serve_lines_run [OF idle_clients_clients [OF assms(1)] assms(2,3) _ assms(4)] by auto
  then show ?thesis by auto
qed

subsection \<open>The properties\<close>

text \<open>C1. Clients may type pipelines, with or without a numbered pipe at the end, in any order: every program of every
  line starts with the table the specification prescribes, in which a line reads the pipe that an earlier line of
  the same client has left for it, the last program of a line writes to the pipe of the line it names, several lines
  may name the same one, and everything else is the client's own socket and what the server had open before.  The
  bound is the ring: a cell is used again after 1024 lines.\<close>

theorem clients_have_own_shells:
  assumes "idle_clients C s" and "\<forall>(fd, l) \<in> set ls. fd \<in> C \<and> line_ok (kern (srv s)) M l"
    and "M + length ls \<le> 1023" and "6 + 2 * length ls \<le> card (room_of (kern (srv s)))"
  shows "\<exists>s'. serve_lines ls s = Inr s' \<and>
     spawned (trace (srv s')) = spawned (trace (srv s)) @
       spec_lines (client_view (srv s)) (\<lambda>_ _. None) (next_pipe (kern (srv s))) ls"
  using assms by (rule idle_clients_run)

lemma piping_idle: "idle_clients {4, 5} piping"
proof -
  have "nothing_pending (shell (sample_user k n))" "running (shell (sample_user k n))" for k n
    by (simp_all add: nothing_pending_def sample_user_def UserInfo_def CmdHandler_def ring_get_def ring_new_def)
  moreover have "own_standard (srv piping)"
    by (auto simp: own_standard_def piping_def sample_table_def)
  moreover have "older 0 ob" if "fds (kern (srv piping)) j = Some (ob, c)" for j ob c
    using that by (auto simp: piping_def sample_table_def older_def split: if_splits)
  ultimately show ?thesis
    by (auto simp: idle_clients_def piping_def sample_users_def inj_on_def)
qed

lemma piping_room: "54 \<le> card (room_of (kern (srv piping)))"
proof -
  have "{10..<64} \<subseteq> room_of (kern (srv piping))" by (auto simp: room_of_def piping_def sample_table_def)
  then have "card {10..<64::int} \<le> card (room_of (kern (srv piping)))" by (rule card_mono [rotated]) (simp add: room_of_in)
  then show ?thesis by simp
qed

definition two_scripts :: "(int \<times> typed_line) list" where
  "two_scripts = [(4, [[''ls'']], Into 2 False), (5, [[''date'']], Into 1 True), (4, [[''echo'', ''a'']], Into 1 False),
                  (5, [[''cat'']], Ends), (4, [[''sort'']], Ends)]"

lemma two_scripts_ok: "\<forall>(fd, l) \<in> set two_scripts. fd \<in> {4, 5} \<and> line_ok (kern (srv piping)) 2 l"
proof -
  have "plain ''ls''" "plain ''date''" "plain ''echo''" "plain ''a''" "plain ''cat''" "plain ''sort''" by code_simp+
  moreover have "can_run (kern (srv piping)) a \<longleftrightarrow> can_run (sample_kernel 64) a" for a
    by (simp add: piping_def can_run_def)
  ultimately show ?thesis by (simp add: two_scripts_def sample_can_run)
qed

lemma piping_sel:
  "trace (srv piping) = []" "next_pipe (kern (srv piping)) = 0"
  "socket_of 4 (srv piping) = Some (Socket 9)" "socket_of 5 (srv piping) = Some (Socket 10)"
  by (simp_all add: piping_def socket_of_def)

theorem clients_have_own_shells_witness:
  "\<exists>s'. serve_lines two_scripts piping = Inr s' \<and>
     map (\<lambda>(a, T). (hd a, T 0, T 1)) (spawned (trace (srv s'))) =
       [(''ls'', Some (Socket 9), Some (PipeW 1)), (''date'', Some (Socket 10), Some (PipeW 3)),
        (''echo'', Some (Socket 9), Some (PipeW 1)), (''cat'', Some (PipeR 3), Some (Socket 10)),
        (''sort'', Some (PipeR 1), Some (Socket 9))]"
proof -
  have "2 + length two_scripts \<le> 1023" "6 + 2 * length two_scripts \<le> card (room_of (kern (srv piping)))"
    using piping_room by (simp_all add: two_scripts_def)
  from clients_have_own_shells [OF piping_idle two_scripts_ok this] show ?thesis
    by (auto simp: piping_sel two_scripts_def client_view_def source_def next_line_def)
qed



text \<open>C10. Where these clients come from: a server started with three standard descriptors takes every connection for
  which a descriptor is left, the standard descriptors, their copies and the listening socket being seven, and then
  has as many clients, each with a socket, a user and a fresh shell of its own.\<close>

theorem newcomers_get_shells:
  assumes "started w" and "single_start args host addr w = Inr s"
    and "nofile (kern w) \<le> 1024" and "7 + length cs \<le> nofile (kern w)"
  shows "\<exists>s' C. newcomers cs s = Inr s' \<and> finite C \<and> card C = length cs \<and> idle_clients C s' \<and>
     card (room_of (kern (srv s'))) + 7 + length cs = nofile (kern w)"
proof -
  note s = started_idle [OF assms(1,2)]
  then have "card (room_of (kern (srv s))) + 7 = nofile (kern w)" using assms(4) by simp
  then show ?thesis
    using newcomers_idle [of "{}" s cs] s single_start_inv [OF assms(2)] assms(3,4) by auto
qed

lemma sample_started: "started (sample_world 64 [] [] [])"
  by (auto simp: started_def sample_table_def older_def)

theorem newcomers_get_shells_witness:
  "\<exists>s' C. newcomers [(1, ''1.2.3.4'', 50000), (2, ''1.2.3.5'', 50001)] sample_loop = Inr s' \<and> card C = 2 \<and>
     idle_clients C s' \<and> card (room_of (kern (srv s'))) = 55"
  using newcomers_get_shells [OF sample_started sample_loop_start, of "[(1, ''1.2.3.4'', 50000), (2, ''1.2.3.5'', 50001)]"]
  by (auto simp del: newcomers.simps simp flip: numeral_2_eq_2)



end
