(* ===== verification/Signals.thy ===== *)
theory Signals
  imports Reach Server_Loop
begin

text \<open>
  The signals of \<open>np_single_proc\<close>, \<open>np_simple\<close> and \<open>np_multi_proc\<close>: the handler \<open>exitHandler\<close>, the children it
  reaps, and the loop of \<open>main\<close> in \<open>np_single_proc\<close> with the flag that ends it.
\<close>

subsection \<open>Children\<close>

text \<open>
  What the kernel knows of a process's children: those alive, and those that have ended and wait to be
  collected, in the order \<open>waitpid\<close> finds them.
\<close>

record process =
  main_running :: bool            \<comment> \<open>\<open>running\<close> of the anonymous namespace\<close>
  errno :: int
  alive :: "int list"
  ended :: "int list"

definition ECHILD :: int where "ECHILD = 10"

definition child_ends :: "int \<Rightarrow> process \<Rightarrow> process" where
  "child_ends cpid p =
     (if cpid \<in> set (alive p) then p\<lparr>alive := remove1 cpid (alive p), ended := ended p @ [cpid]\<rparr> else p)"

text \<open>\<open>waitpid (-1, &status, WNOHANG)\<close>.\<close>

definition waitpid_any :: "process \<Rightarrow> int \<times> process" where
  "waitpid_any p =
     (case ended p of
        cpid # rest \<Rightarrow> (cpid, p\<lparr>ended := rest\<rparr>)
      | [] \<Rightarrow> if alive p = [] then (-1, p\<lparr>errno := ECHILD\<rparr>) else (0, p))"

text \<open>\<open>waitpid (pid, nullptr, 0)\<close> of the shell, which blocks while the child is alive; then the value is \<open>None\<close>.\<close>

definition waitpid_one :: "int \<Rightarrow> process \<Rightarrow> (int \<times> process) option" where
  "waitpid_one cpid p =
     (if cpid \<in> set (ended p) then Some (cpid, p\<lparr>ended := remove1 cpid (ended p)\<rparr>)
      else if cpid \<in> set (alive p) then None
      else Some (-1, p\<lparr>errno := ECHILD\<rparr>))"

subsection \<open>The handler\<close>

datatype signal = SIGINT | SIGCHLD | Other_Signal

lemma waitpid_any_shrinks: "waitpid_any p = (cpid, p') \<Longrightarrow> 0 < cpid \<Longrightarrow> length (ended p') < length (ended p)"
  by (auto simp: waitpid_any_def split: list.splits if_splits)

function reap :: "process \<Rightarrow> process" where
  "reap p = (case waitpid_any p of (cpid, p') \<Rightarrow> if cpid > 0 then reap p' else p')"
  by auto
termination by (relation "measure (length \<circ> ended)") (auto dest: waitpid_any_shrinks [OF sym])

declare reap.simps [simp del]

definition exitHandler :: "signal \<Rightarrow> process \<Rightarrow> process" where
  "exitHandler sig p =
     (case sig of
        SIGINT \<Rightarrow> p\<lparr>main_running := False\<rparr>
      | SIGCHLD \<Rightarrow> (let saved_errno = errno p in (reap p)\<lparr>errno := saved_errno\<rparr>)
      | Other_Signal \<Rightarrow> p)"

text \<open>In \<open>np_multi_proc\<close> an interrupt also deletes the FIFOs of all slots.\<close>

definition multi_exitHandler :: "signal \<Rightarrow> process \<times> world \<Rightarrow> process \<times> world" where
  "multi_exitHandler sig pw =
     (case pw of (p, w) \<Rightarrow> (exitHandler sig p, if sig = SIGINT then multi_interrupt w else w))"

lemma reap_all:
  assumes "\<forall>cpid \<in> set (ended p). 0 < cpid"
  shows "reap p = p\<lparr>ended := [], errno := if alive p = [] then ECHILD else errno p\<rparr>"
proof -
  have "reap p = p\<lparr>ended := [], errno := if alive p = [] then ECHILD else errno p\<rparr>"
    if "ended p = es" "\<forall>cpid \<in> set es. 0 < cpid" for es
    using that
  proof (induction es arbitrary: p)
    case Nil
    then show ?case by (subst reap.simps) (simp add: waitpid_any_def)
  next
    case (Cons cpid es)
    then have "reap p = reap (p\<lparr>ended := es\<rparr>)" by (subst reap.simps) (simp add: waitpid_any_def)
    then show ?case using Cons.IH [of "p\<lparr>ended := es\<rparr>"] Cons.prems by simp
  qed
  then show ?thesis using assms by blast
qed

lemma exitHandler_simps:
  "exitHandler SIGINT p = p\<lparr>main_running := False\<rparr>"
  "\<forall>cpid \<in> set (ended p). 0 < cpid \<Longrightarrow> exitHandler SIGCHLD p = p\<lparr>ended := []\<rparr>"
  "exitHandler Other_Signal p = p"
  by (simp_all add: exitHandler_def reap_all)

subsection \<open>The loop of \<open>main\<close>\<close>

text \<open>
  Where \<open>main\<close> is: before the test of \<open>running\<close>, between the test and the call of \<open>select\<close>, blocked in
  \<open>select\<close>, or returned.  Signals are taken between calls; one that comes while a round is served is
  taken when it is over, since the handler touches nothing that a round reads.
\<close>

datatype point = Test | Enter | Waiting | Returned

record main_loop =
  pc :: point
  proc :: process
  loop :: server_loop
  at_exit :: "kernel option"      \<comment> \<open>the descriptors when \<open>main\<close> returns\<close>
  served :: nat                   \<comment> \<open>history: the rounds served so far\<close>

text \<open>The process numbers of the children a round starts are positive, and those it waits for are gone after it.\<close>

definition after_round :: "int list \<Rightarrow> int set \<Rightarrow> process \<Rightarrow> process" where
  "after_round forked waited p =
     p\<lparr>alive := filter (\<lambda>i. i \<notin> waited) (alive p @ forked), ended := filter (\<lambda>i. i \<notin> waited) (ended p)\<rparr>"

inductive main_step :: "main_loop \<Rightarrow> main_loop \<Rightarrow> bool" where
  Runs: "pc m = Test \<Longrightarrow> main_running (proc m) \<Longrightarrow> main_step m (m\<lparr>pc := Enter\<rparr>)"
| Ends: "pc m = Test \<Longrightarrow> \<not> main_running (proc m) \<Longrightarrow>
     main_step m (m\<lparr>pc := Returned, at_exit := Some (k_close (serverSock (loop m)) (kern (srv (loop m))))\<rparr>)"
| Select: "pc m = Enter \<Longrightarrow> main_step m (m\<lparr>pc := Waiting\<rparr>)"
| Ready: "pc m = Waiting \<Longrightarrow> ready \<noteq> {} \<Longrightarrow> ready \<subseteq> masterSocks (loop m) \<Longrightarrow>
     poll_round ready n addr port' (loop m) = Inr s \<Longrightarrow> \<forall>i \<in> set forked. 0 < i \<Longrightarrow>
     main_step m (m\<lparr>pc := Test, loop := s, proc := after_round forked waited (proc m), served := served m + 1\<rparr>)"
| Interrupted: "pc m = Waiting \<Longrightarrow> main_step m (m\<lparr>pc := Test, proc := exitHandler sig (proc m)\<rparr>)"
| Caught: "pc m = Test \<or> pc m = Enter \<Longrightarrow> main_step m (m\<lparr>proc := exitHandler sig (proc m)\<rparr>)"
| Child_Ends: "pc m \<noteq> Returned \<Longrightarrow> main_step m (m\<lparr>proc := child_ends cpid (proc m)\<rparr>)"
| Typing: "pc m \<noteq> Returned \<Longrightarrow>
     main_step m (m\<lparr>loop := (loop m)\<lparr>srv := (srv (loop m))\<lparr>incoming := inp\<rparr>\<rparr>\<rparr>)"

definition main_starts :: "main_loop \<Rightarrow> bool" where
  "main_starts m \<longleftrightarrow> pc m = Test \<and> proc m = \<lparr>main_running = True, errno = 0, alive = [], ended = []\<rparr> \<and>
     single_starts (loop m) \<and> at_exit m = None \<and> served m = 0"

inductive_cases main_stepE: "main_step m m'"

end
