(* ===== verification/Signal_Properties.thy ===== *)
theory Signal_Properties
  imports Signals Server_Invariant Room_Properties
begin

text \<open>
  What the signals do to \<open>np_single_proc\<close>: its \<open>main\<close> stays within the transition system of the server, an
  interrupt ends it, at the latest after one more round, and its handler collects every child that has ended.
\<close>

subsection \<open>The loop within the transition system\<close>

definition pids_ok :: "main_loop \<Rightarrow> bool" where
  "pids_ok m \<longleftrightarrow> (\<forall>i \<in> set (alive (proc m)) \<union> set (ended (proc m)). 0 < i)"

lemma exitHandler_pids:
  assumes "\<forall>i \<in> set (alive p) \<union> set (ended p). 0 < i"
  shows "\<forall>i \<in> set (alive (exitHandler sig p)) \<union> set (ended (exitHandler sig p)). 0 < i"
  using assms by (cases sig) (simp_all add: exitHandler_simps)

interpretation main: refinement main_starts main_step pids_ok loop single_starts single_step
proof
  show "pids_ok m" if "main_starts m" for m
    using that by (simp add: main_starts_def pids_ok_def)
  show "pids_ok m'" if "pids_ok m" "main_step m m'" for m m'
    using that(2,1)
  proof cases
    case (Interrupted sig)
    then show ?thesis using that(1) exitHandler_pids [of "proc m" sig] by (simp add: pids_ok_def)
  next
    case (Caught sig)
    then show ?thesis using that(1) exitHandler_pids [of "proc m" sig] by (simp add: pids_ok_def)
  next
    case (Child_Ends i)
    then show ?thesis
      using that(1) set_remove1_subset [of i "alive (proc m)"] by (auto simp: pids_ok_def child_ends_def)
  qed (auto simp: pids_ok_def after_round_def)
  show "single_starts (loop m)" if "main_starts m" for m
    using that by (simp add: main_starts_def)
  show "single_step\<^sup>*\<^sup>* (loop m) (loop m')" if "pids_ok m" "main_step m m'" for m m'
    using that(2)
  proof cases
    case (Ready ready n addr port' s forked waited)
    then show ?thesis using single_step.Round [of ready "loop m" n addr port' s] by auto
  next
    case (Typing inp)
    then show ?thesis using single_step.Typed [of "loop m" inp] by auto
  qed auto
qed

subsection \<open>After an interrupt\<close>

text \<open>The rounds \<open>main\<close> can still serve once its flag is cleared.\<close>

fun rounds_left :: "point \<Rightarrow> nat" where
  "rounds_left Test = 0"
| "rounds_left Enter = 1"
| "rounds_left Waiting = 1"
| "rounds_left Returned = 0"

lemma handler_keeps_interrupt: "\<not> main_running p \<Longrightarrow> \<not> main_running (exitHandler sig p)"
proof (cases sig)
  case SIGCHLD
  have "main_running (reap p) = main_running p" for p
    by (induction p rule: reap.induct)
      (subst reap.simps, auto simp: waitpid_any_def split: list.splits)
  then show "\<not> main_running p \<Longrightarrow> ?thesis" using SIGCHLD by (simp add: exitHandler_def Let_def)
qed (simp_all add: exitHandler_def)

lemma interrupted_step:
  assumes "main_step m m'" and "\<not> main_running (proc m)"
  shows "\<not> main_running (proc m') \<and> served m' + rounds_left (pc m') \<le> served m + rounds_left (pc m)"
  using assms by cases (auto simp: handler_keeps_interrupt after_round_def child_ends_def)

lemma interrupted_steps:
  "main_step\<^sup>*\<^sup>* m m' \<Longrightarrow> \<not> main_running (proc m) \<Longrightarrow>
     \<not> main_running (proc m') \<and> served m' + rounds_left (pc m') \<le> served m + rounds_left (pc m)"
proof (induction rule: rtranclp_induct)
  case (step m1 m2)
  then show ?case using interrupted_step [of m1 m2] by fastforce
qed simp

subsection \<open>The properties\<close>

definition main_begin :: main_loop where
  "main_begin = \<lparr>pc = Test, proc = \<lparr>main_running = True, errno = 0, alive = [], ended = []\<rparr>, loop = sample_loop,
     at_exit = None, served = 0\<rparr>"

lemma main_begin_reach: "reach main_starts main_step main_begin"
  using sample_loop_start by (intro reach.Start) (auto simp: main_begin_def main_starts_def single_starts_def)

text \<open>Every state of \<open>main\<close> is a state of the server's transition system, whatever signals it gets.\<close>

theorem main_within_single:
  assumes "reach main_starts main_step m"
  shows "reach single_starts single_step (loop m) \<and> server_inv (loop m)"
  using main.reach_abs [OF assms] single.reach_inv by blast

theorem main_within_single_witness:
  "reach single_starts single_step (loop (main_begin\<lparr>pc := Enter\<rparr>))"
proof -
  have "main_step main_begin (main_begin\<lparr>pc := Enter\<rparr>)" by (rule main_step.Runs) (simp_all add: main_begin_def)
  then show ?thesis using main_within_single reach.Step [OF main_begin_reach] by blast
qed

text \<open>C29. An interrupt ends the server: once the handler has run, at most one more round is served, and only
  if \<open>main\<close> had already passed its test; at the test it then returns and closes the listening socket.\<close>

theorem interrupt_ends_main:
  assumes "proc m = exitHandler SIGINT p" and "main_step\<^sup>*\<^sup>* m m'"
  shows "served m' \<le> served m + rounds_left (pc m) \<and>
     (pc m' = Test \<longrightarrow> (\<exists>m''. main_step m' m'' \<and> pc m'' = Returned \<and> served m'' = served m' \<and>
        at_exit m'' = Some (k_close (serverSock (loop m')) (kern (srv (loop m'))))))"
proof -
  have "\<not> main_running (proc m')" "served m' \<le> served m + rounds_left (pc m)"
    using interrupted_steps [OF assms(2)] by (auto simp: assms(1) exitHandler_simps)
  moreover have "\<exists>m''. main_step m' m'' \<and> pc m'' = Returned \<and> served m'' = served m' \<and>
      at_exit m'' = Some (k_close (serverSock (loop m')) (kern (srv (loop m'))))" if "pc m' = Test"
    using main_step.Ends [OF that calculation(1)] by (rule_tac exI, intro conjI) (assumption, simp_all)
  ultimately show ?thesis by simp
qed

text \<open>An interrupt between the test and \<open>select\<close>, and a client that comes afterwards.\<close>

definition late_interrupt :: main_loop where
  "late_interrupt = main_begin\<lparr>pc := Enter, proc := exitHandler SIGINT (proc main_begin)\<rparr>"

theorem interrupt_ends_main_witness:
  "\<exists>m' m''. main_step\<^sup>*\<^sup>* late_interrupt m' \<and> served m' = 1 \<and> main_step m' m'' \<and> pc m'' = Returned"
proof -
  obtain s where s: "poll_round {6} 1 ''1.2.3.4'' 50000 sample_loop = Inr s" using first_round by blast
  let ?m1 = "late_interrupt\<lparr>pc := Waiting\<rparr>"
  let ?m2 = "?m1\<lparr>pc := Test, loop := s, proc := after_round [] {} (proc ?m1), served := served ?m1 + 1\<rparr>"
  have "main_step late_interrupt ?m1" by (rule main_step.Select) (simp add: late_interrupt_def)
  moreover have "main_step ?m1 ?m2"
    using s by (intro main_step.Ready [of _ "{6}"]) (simp_all add: late_interrupt_def main_begin_def sample_loop_shape)
  ultimately have path: "main_step\<^sup>*\<^sup>* late_interrupt ?m2" by simp
  have "proc late_interrupt = exitHandler SIGINT (proc main_begin)" "pc ?m2 = Test" "served ?m2 = 1"
    by (simp_all add: late_interrupt_def main_begin_def)
  then show ?thesis using interrupt_ends_main [OF _ path] path by blast
qed

text \<open>C30. The handler of \<open>SIGCHLD\<close> collects every child that has ended and changes nothing else, not even \<open>errno\<close>;
  the shell's \<open>waitpid\<close> for one of them does not block afterwards, it fails.\<close>

theorem handler_collects_children:
  assumes "reach main_starts main_step m"
  shows "exitHandler SIGCHLD (proc m) = (proc m)\<lparr>ended := []\<rparr> \<and>
     waitpid_one i (exitHandler SIGCHLD (proc m)) =
       (if i \<in> set (alive (proc m)) then None else Some (-1, (proc m)\<lparr>ended := [], errno := ECHILD\<rparr>))"
proof -
  have "\<forall>i \<in> set (ended (proc m)). 0 < i" using main.reach_inv [OF assms] by (simp add: pids_ok_def)
  then show ?thesis by (simp add: exitHandler_simps waitpid_one_def)
qed

theorem handler_collects_children_witness:
  "\<exists>m. reach main_starts main_step m \<and> ended (proc m) = [101] \<and> alive (proc m) = [102] \<and>
     exitHandler SIGCHLD (proc m) = (proc m)\<lparr>ended := []\<rparr>"
proof -
  obtain s where s: "poll_round {6} 1 ''1.2.3.4'' 50000 sample_loop = Inr s" using first_round by blast
  let ?m1 = "main_begin\<lparr>pc := Enter\<rparr>" and ?p = "after_round [101, 102] {} (proc main_begin)"
  let ?m2 = "?m1\<lparr>pc := Waiting\<rparr>"
  let ?m3 = "?m2\<lparr>pc := Test, loop := s, proc := after_round [101, 102] {} (proc ?m2), served := served ?m2 + 1\<rparr>"
  let ?m4 = "?m3\<lparr>proc := child_ends 101 (proc ?m3)\<rparr>"
  have "main_step main_begin ?m1" by (rule main_step.Runs) (simp_all add: main_begin_def)
  moreover have "main_step ?m1 ?m2" by (rule main_step.Select) simp
  moreover have "main_step ?m2 ?m3"
    using s by (intro main_step.Ready [of _ "{6}"]) (simp_all add: main_begin_def sample_loop_shape)
  moreover have "main_step ?m3 ?m4" by (rule main_step.Child_Ends) simp
  ultimately have r: "reach main_starts main_step ?m4"
    by (intro reach.Step [OF reach.Step [OF reach.Step [OF reach.Step [OF main_begin_reach]]]])
  moreover have "ended (proc ?m4) = [101]" "alive (proc ?m4) = [102]"
    by (simp_all add: after_round_def child_ends_def main_begin_def)
  ultimately show ?thesis using handler_collects_children [OF r, of 101] by blast
qed

end
