(* ===== verification/Asio_Servers.thy ===== *)
theory Asio_Servers
  imports Accept_Loops "HOL-Library.Word"
begin

text \<open>
  The \<open>main\<close> functions of the three servers on Boost.Asio: \<open>socks_server.cpp\<close> of project 4,
  \<open>http_server.cpp\<close> and \<open>cgi_server.cpp\<close> of project 3, with the constructors that open the listening
  socket.  What a call of the library throws is the parameter \<open>throws\<close>: \<open>None\<close>, or the text of the
  exception.
\<close>

datatype asio_call =
    Open | Reuse_Address | Bind "16 word" | Listen | Async_Accept
  | Stop_On_SIGINT | Ignore_SIGCHLD | Run_Context

datatype main_event = Called asio_call | Cerr string

text \<open>Calls in order, up to the first one that throws.\<close>

fun attempt :: "(asio_call \<Rightarrow> string option) \<Rightarrow> asio_call list \<Rightarrow> main_event list \<times> string option" where
  "attempt throws [] = ([], None)"
| "attempt throws (c # cs) =
     (case throws c of
        Some what \<Rightarrow> ([], Some what)
      | None \<Rightarrow> (case attempt throws cs of (es, r) \<Rightarrow> (Called c # es, r)))"

text \<open>\<open>tcp::endpoint\<close> takes an \<open>unsigned short\<close>, so that the \<open>int\<close> of \<open>atoi\<close> is cut to 16 bits.\<close>

definition Socks4Server :: "16 word \<Rightarrow> asio_call list" where
  "Socks4Server port' = [Open, Reuse_Address, Bind port', Listen, Async_Accept]"

definition HttpServer :: "int \<Rightarrow> asio_call list" where
  "HttpServer port' = [Open, Reuse_Address, Bind (word_of_int port'), Listen]"

definition HttpServer_cgi :: "int \<Rightarrow> asio_call list" where
  "HttpServer_cgi port' = [Open, Reuse_Address, Bind (word_of_int port'), Listen, Async_Accept]"

definition usage :: "string \<Rightarrow> string" where
  "usage program = ''Usage: '' @ program @ '' <port>'' @ [newline]"

definition socks_main :: "(asio_call \<Rightarrow> string option) \<Rightarrow> string list \<Rightarrow> (int \<times> main_event list) result" where
  "socks_main throws args =
     (if args = [] then Inl Null_Deref
      else if length args \<noteq> 2 then Inr (1, [Cerr (usage (hd args))])
      else case attempt throws ([Ignore_SIGCHLD, Stop_On_SIGINT] @ Socks4Server (word_of_int (atoi (args ! 1))) @ [Run_Context]) of
             (es, _) \<Rightarrow> Inr (0, es))"

definition http_main :: "(asio_call \<Rightarrow> string option) \<Rightarrow> string list \<Rightarrow> (int \<times> main_event list) result" where
  "http_main throws args =
     (if args = [] then Inl Null_Deref
      else if length args \<noteq> 2 then Inr (1, [Cerr (usage (hd args))])
      else case attempt throws ([Stop_On_SIGINT] @ HttpServer (atoi (args ! 1)) @ [Async_Accept, Run_Context]) of
             (es, None) \<Rightarrow> Inr (0, es)
           | (es, Some what) \<Rightarrow> Inr (0, es @ [Cerr (what @ [newline])]))"

definition cgi_main :: "(asio_call \<Rightarrow> string option) \<Rightarrow> string list \<Rightarrow> (int \<times> main_event list) result" where
  "cgi_main throws args =
     (if args = [] then Inl Null_Deref
      else if length args \<noteq> 2 then Inr (1, [Cerr (usage (hd args))])
      else case attempt throws ([Stop_On_SIGINT] @ HttpServer_cgi (atoi (args ! 1)) @ [Run_Context]) of
             (es, None) \<Rightarrow> Inr (0, es)
           | (es, Some what) \<Rightarrow> Inr (0, es @ [Cerr (''Exception: '' @ what @ [newline])]))"

lemma attempt_append:
  "attempt throws (cs @ ds) =
     (case attempt throws cs of
        (es, Some what) \<Rightarrow> (es, Some what)
      | (es, None) \<Rightarrow> (case attempt throws ds of (es', r) \<Rightarrow> (es @ es', r)))"
  by (induction cs) (auto split: option.split prod.split)

lemma attempt_called:
  "Called c \<in> set (fst (attempt throws cs)) \<Longrightarrow> c \<in> set cs \<and> throws c = None"
  by (induction cs) (auto split: option.splits prod.splits)

lemma attempt_all: "(\<forall>c \<in> set cs. throws c = None) \<Longrightarrow> attempt throws cs = (map Called cs, None)"
  by (induction cs) auto

lemma attempt_Some: "snd (attempt throws cs) = Some what \<Longrightarrow> \<exists>c \<in> set cs. throws c = Some what"
  by (induction cs) (auto split: option.splits prod.splits)

lemma port_cut: "unat (word_of_int n :: 16 word) = nat (n mod 65536)"
  by (simp add: unsigned_of_int take_bit_eq_mod)

text \<open>
  Started with one argument all three listen on its value modulo 65536, if nothing fails.  If anything
  fails they end with the same exit status 0: the HTTP servers print what has failed, the SOCKS server
  ends without a word.
\<close>

theorem asio_servers_start:
  "((\<forall>c. throws c = None) \<longrightarrow> (\<forall>main \<in> {socks_main, http_main, cgi_main}. \<exists>es p.
      main throws [program, arg] = Inr (0, es) \<and> unat p = nat (atoi arg mod 65536) \<and>
      Called (Bind p) \<in> set es \<and> Called Async_Accept \<in> set es \<and> last es = Called Run_Context)) \<and>
   ((\<exists>c \<in> {Open, Reuse_Address, Listen, Async_Accept}. throws c \<noteq> None) \<longrightarrow>
      (\<exists>es. socks_main throws [program, arg] = Inr (0, es) \<and> (\<forall>s. Cerr s \<notin> set es)) \<and>
      (\<exists>es s. http_main throws [program, arg] = Inr (0, es) \<and> last es = Cerr s) \<and>
      (\<exists>es s. cgi_main throws [program, arg] = Inr (0, es) \<and> last es = Cerr s))"
proof (intro conjI impI ballI)
  fix main
  assume ok: "\<forall>c. throws c = None" and main: "main \<in> {socks_main, http_main, cgi_main}"
  have "\<exists>es. main throws [program, arg] = Inr (0, es) \<and>
      Called (Bind (word_of_int (atoi arg))) \<in> set es \<and> Called Async_Accept \<in> set es \<and> last es = Called Run_Context"
    using main ok
    by (auto simp: socks_main_def http_main_def cgi_main_def attempt_all Socks4Server_def HttpServer_def HttpServer_cgi_def)
  then show "\<exists>es p. main throws [program, arg] = Inr (0, es) \<and> unat p = nat (atoi arg mod 65536) \<and>
      Called (Bind p) \<in> set es \<and> Called Async_Accept \<in> set es \<and> last es = Called Run_Context"
    using port_cut by blast
next
  have "Cerr s \<notin> set (fst (attempt throws cs))" for s cs
    by (induction cs) (auto split: option.splits prod.splits)
  then show "\<exists>es. socks_main throws [program, arg] = Inr (0, es) \<and> (\<forall>s. Cerr s \<notin> set es)"
    by (auto simp: socks_main_def split_beta simp del: attempt.simps)
next
  assume "\<exists>c \<in> {Open, Reuse_Address, Listen, Async_Accept}. throws c \<noteq> None"
  then have "snd (attempt throws ([Stop_On_SIGINT] @ HttpServer (atoi arg) @ [Async_Accept, Run_Context])) \<noteq> None"
    by (auto simp: HttpServer_def split: option.split prod.split)
  then show "\<exists>es s. http_main throws [program, arg] = Inr (0, es) \<and> last es = Cerr s"
    by (auto simp: http_main_def split: prod.splits option.splits)
next
  assume "\<exists>c \<in> {Open, Reuse_Address, Listen, Async_Accept}. throws c \<noteq> None"
  then have "snd (attempt throws ([Stop_On_SIGINT] @ HttpServer_cgi (atoi arg) @ [Run_Context])) \<noteq> None"
    by (auto simp: HttpServer_cgi_def split: option.split prod.split)
  then show "\<exists>es s. cgi_main throws [program, arg] = Inr (0, es) \<and> last es = Cerr s"
    by (auto simp: cgi_main_def split: prod.splits option.splits)
qed

end
