(* ===== verification/Spec2Isabelle.thy ===== *)
theory Spec2Isabelle
  imports Shell_Properties Server_Properties Shm_Properties Np1_Properties Command_Properties
    Socks4_Properties Cgi_Properties Console_Properties Session_Properties Cgi_Server_Properties Multi_Properties Room_Properties
    Pipeline_Properties Client_Properties Signal_Properties Asio_Servers
begin

text \<open>
  Verification of the programs of this repository (a network-programming course): the shells of
  \<open>312552017_np_project1\<close> and \<open>312552017_np_project2\<close>, the chat servers of project 2, the filters they run,
  the web consoles of \<open>312552017_np_project3\<close> and \<open>312552017_np_project4\<close> and the SOCKS 4 proxy of
  project 4.  Everything is a shallow embedding: functions of the code are HOL functions over explicit
  states, every undefined or failing behaviour is a value of \<open>failure\<close> (theory Prelude), and what the
  operating system, Boost and the network decide is a parameter, a choice or a list of rounds.

  Library.
  Std_Map models \<open>std::map\<close> (a sorted association list behind the locale \<open>ordered_map\<close>), Std_Text and
  Std_Stream the text functions and string streams, Std_Regex the part of \<open>std::regex\<close> the code uses,
  Posix_Fd the descriptor table of a process (locale \<open>fd_table\<close>), Reach the reachable states of a step
  relation (locale \<open>invariant\<close>, interpreted for both chat servers and for a session's write queue, and its
  extension \<open>refinement\<close>, by which a system implements a simpler one and inherits its invariants).

  Project 2, shell.
  Ring_Buffer is \<open>circular_buffer\<close> of \<open>shell/util.hpp\<close> with \<open>size_t\<close> arithmetic on 64-bit words (locale
  \<open>delay_line\<close>); Np_Pipe is the class \<open>Pipe\<close>; Np_World holds the command types of \<open>cmdType.hpp\<close>, the
  state of \<open>CmdHandler\<close>, of a user and of the chat server; Cmd_Parser is \<open>parseCommand\<close>; Shell_Run is
  \<open>runShell\<close> with the descriptor table every child gets.  Parser_Facts, Shell_Facts, Numbered_Facts and
  Cast_Safety prove what the parser queues and what a line, a pipeline and a sequence of lines do;
  Shell_Properties states the results.

  Project 1.
  Np1_Types has the commands and the shell object of project 1's \<open>shell\<close> and their embedding into the types
  of project 2; Np1_Shell is \<open>npshell.cpp\<close> and its \<open>cmdHandler.cpp\<close>; Np1_Properties shows that the shell of
  project 2 extends it along the embedding.

  Project 2, servers.
  Chat_Server and User_Pipes are \<open>chatServer.cpp\<close> for both configurations (a table of users, or slots
  shared by processes); Server_Loop has the loops of \<open>np_single_proc\<close>, \<open>np_simple\<close> and
  \<open>np_multi_proc\<close>.  Server_Facts, Server_Invariant and Chat_Facts carry Server_Properties (one process)
  and Shm_Properties (shared slots); Sample_World has the concrete states of the witnesses.
  \<open>np_single_proc\<close> is the step relation \<open>single_step\<close>: a round serves whatever set of sockets \<open>select\<close>
  may report, and between rounds clients may type anything.
  World_Frame proves once, in the locale \<open>world_frame\<close>, that sending, the chat commands, user pipes and a
  line of the shell stay within any transitive relation that allows changing a user's pipes and messages
  and giving the served user a free name.  Slot_Facts interprets it by what every operation keeps of the
  shared slots; Multi_System is \<open>np_multi_proc\<close> as a
  step relation over the parent, the clients' processes and what they share, with the ownership of the
  slots as its invariant; Multi_Properties states who serves which slot, when a client is admitted and how
  a message gets from one process to another.  Its steps are whole activities (entering, one line of
  input, one signal, leaving); Shm_Properties shows what goes wrong when two
  entries overlap.  A process that runs into a failure takes no further step.
  Chat_Room is the specification both servers share, a room of numbered places that people join, leave and
  change their name in, and interprets the same locale by the renamings of one person; Room_Servers and
  Room_Properties show that each round of \<open>np_single_proc\<close> and each step of \<open>np_multi_proc\<close> implements it.
  Turn_Facts and Turn_Properties follow one typed command of the chat through the whole handler, from the
  bytes on the socket to the messages and the next prompt; Pipeline_Properties does the same for a typed
  pipeline, with the table of descriptors the turn leaves behind.
  Line_Facts and Line_Turn hold the lemmas of a turn that runs one line, shared by Pipeline_Properties and
  the theories on several clients.  Client_Lines is the specification of a client's lines, a table that says
  which pipe is due in how many lines, and shows that one line implements it in the ring of a shell;
  Client_Turns runs lines of several clients through rounds of the \<open>select\<close> loop and keeps what everybody is
  owed in the one descriptor table; Client_Alone shows, of the specification only, that a client's programs
  get the same table whether or not others type; Client_Arrivals leads from \<open>main\<close> and the accepting rounds
  to such clients; Shell_Isolation interprets \<open>world_frame\<close> once more, by the shells of the other users.
  Client_Properties states the results.  Bounds: \<open>M + length ls \<le> 1023\<close>, because \<open>circular_buffer\<close> has 1024
  cells and a used one is not cleared (\<open>stale_cell_returns\<close>); \<open>6 + 2 * length ls\<close> free descriptors, because
  every line leaves the two ends of \<open>eol\<close> open or, for a numbered pipe, those of the pipe.
  Signals is \<open>exitHandler\<close> with the children it reaps and \<open>main\<close> of \<open>np_single_proc\<close> as a step relation around
  the rounds; Signal_Properties shows that it refines \<open>single_step\<close>, so that every invariant of the server holds
  in it, and what the signals do.
  Accept_Loops has the parents of \<open>np_simple\<close> and \<open>np_multi_proc\<close> over their descriptors and the accept
  handlers of the Asio servers, Asio_Servers the \<open>main\<close> functions of the latter.

  Filters.
  Np_Commands and Command_Properties: \<open>number\<close>, \<open>removetag\<close> and \<open>removetag0\<close>.

  Projects 3 and 4.
  Socks4 and Socks4_Properties: the request header on 8-, 16- and 32-bit words, the firewall, one
  connection of \<open>Socks4Handler\<close> and one direction of the relay.  Cgi_Util is \<open>cgi_util.cpp\<close> (query
  strings, scripts, pages), Cgi_Application the relay between a remote shell and the page, also
  through the proxy, and \<open>console.cpp\<close>; Cgi_Session one HTTP request and the queue of text to write;
  Cgi_Server \<open>cgi_server.cpp\<close> of project 3; Cgi_Session3 the parts of project 3's session that differ.
  Cgi_Facts proves what the regular expressions match, Page_Facts where the cells of the page are;
  Cgi_Properties, Console_Properties (with the composition of console and proxy), Session_Properties
  and Cgi_Server_Properties state the results.

  Bounds.
  Loops whose end depends on the environment take a number of turns (\<open>simple_turns\<close>, \<open>multi_turns\<close>,
  \<open>npshell_turns\<close>) and tell whether they ended, or a list of rounds; all other recursion terminates by
  proof.  Line counts below 10000 in \<open>number_recover\<close> keep the number within its field of four characters.

  Not modelled.
  \<open>sendMessage\<close> (never called), the signals of \<open>np_simple\<close> (its handler is that of \<open>np_single_proc\<close>) and of
  \<open>npshell\<close>, where a C library decides whether a read is resumed, \<open>debugger.hpp\<close>,
  and \<open>Memmap\<close>, which wraps \<open>mmap\<close>.  The sources in
  projects 1 and 3 that are copies of those of projects 2 and 4 (\<open>shell/pipe.cpp\<close>, \<open>shell/util.hpp\<close> and the
  filters of project 1; most of \<open>cgiserver\<close> of project 3) are not modelled a second time.
  The buffer of \<open>std::cout\<close>: text is taken to reach what descriptor 1 refers to when it is written, as for a
  terminal and complete lines; a fully buffered \<open>stdout\<close> delivers it later.
\<close>

end
